(* ===== verification/Prelude.thy ===== *)
theory Prelude
  imports Main "HOL-Library.Sublist" "HOL-Library.While_Combinator"
begin

text \<open>
  Shared vocabulary of the model of \<^verbatim>\<open>src/flood.py\<close>.
  A Python \<open>str\<close> is a sequence of Unicode code points, so the model's string type
  \<open>pystr\<close> is a list of natural numbers, one per code point (Python's \<open>len\<close>
  counts exactly these).  Literals of the source are written with \<open>py\<close>, which
  reads an ASCII Isabelle string as code points; the few non-ASCII characters of the
  source (U+2019, U+21D4) are written as their code points, and \<open>LF\<close> is the
  newline \<^verbatim>\<open>\n\<close>.  The theory also holds Python truthiness of strings and the
  list lemmas that the string builtins of \<open>PyStr\<close> and the components share,
  among them the closed forms of the two index scans (\<open>while_option\<close> loops) that
  CPython's \<^verbatim>\<open>str.strip\<close> runs.
\<close>

named_theorems py_simps "the definitions that evaluate the string builtins on literals"

type_synonym codepoint = nat
type_synonym pystr = "codepoint list"

definition py :: "string \<Rightarrow> pystr" where
  "py s = map of_char s"

abbreviation LF :: pystr where
  "LF \<equiv> [10]"

text \<open>A triple-quoted literal spanning several source lines: each line ends in a newline.\<close>

definition py_unlines :: "pystr list \<Rightarrow> pystr" where
  "py_unlines ls = concat (map (\<lambda>l. l @ LF) ls)"

text \<open>Python truthiness: \<open>if s:\<close> on a \<open>str\<close>, and \<open>not x\<close> on \<open>str | None\<close>.\<close>

definition py_truthy :: "pystr \<Rightarrow> bool" where
  "py_truthy s \<longleftrightarrow> s \<noteq> []"

fun py_truthy_opt :: "pystr option \<Rightarrow> bool" where
  "py_truthy_opt None = False"
| "py_truthy_opt (Some s) = py_truthy s"

text \<open>A well-formed Python string holds code points of the Unicode range only.\<close>

definition valid_pystr :: "pystr \<Rightarrow> bool" where
  "valid_pystr s \<longleftrightarrow> list_all (\<lambda>c. c \<le> 0x10FFFF) s"

subsection \<open>Literals\<close>

lemma py_Nil [simp]: "py [] = []"
  by (simp add: py_def)

lemma py_Cons [simp]: "py (c # s) = of_char c # py s"
  by (simp add: py_def)

lemma py_append [simp]: "py (a @ b) = py a @ py b"
  by (simp add: py_def)

lemma py_eq_iff [simp]: "py a = py b \<longleftrightarrow> a = b"
  by (simp add: py_def inj_of_char)

lemma length_py [simp]: "length (py s) = length s"
  by (simp add: py_def)

lemma py_below_256: "c \<in> set (py s) \<Longrightarrow> c < 256"
  by (auto simp: py_def)

lemma valid_py [simp]: "valid_pystr (py s)"
  by (auto simp: valid_pystr_def list_all_iff dest: py_below_256)

lemma py_unlines_Nil [simp]: "py_unlines [] = []"
  by (simp add: py_unlines_def)

lemma py_unlines_Cons [simp]: "py_unlines (l # ls) = l @ LF @ py_unlines ls"
  by (simp add: py_unlines_def)

lemma py_truthy_iff [simp]: "py_truthy s \<longleftrightarrow> s \<noteq> []"
  by (simp add: py_truthy_def)

lemma valid_pystr_append [simp]:
  "valid_pystr (a @ b) \<longleftrightarrow> valid_pystr a \<and> valid_pystr b"
  by (simp add: valid_pystr_def)

lemma valid_pystr_Cons [simp]:
  "valid_pystr (c # s) \<longleftrightarrow> c \<le> 0x10FFFF \<and> valid_pystr s"
  by (simp add: valid_pystr_def)

lemma valid_pystr_Nil [simp]: "valid_pystr []"
  by (simp add: valid_pystr_def)

subsection \<open>Lists: trimming a predicate from both ends\<close>

lemma dropWhile_all_append:
  "(\<forall>x\<in>set b. P x) \<Longrightarrow> dropWhile P (b @ c) = dropWhile P c"
  by (induction b) auto

lemma dropWhile_rev_prefix:
  "\<exists>b. xs = rev (dropWhile P (rev xs)) @ b \<and> (\<forall>x\<in>set b. P x)"
proof -
  have "rev xs = takeWhile P (rev xs) @ dropWhile P (rev xs)"
    by simp
  then have "xs = rev (dropWhile P (rev xs)) @ rev (takeWhile P (rev xs))"
    by (metis rev_append rev_rev_ident)
  moreover have "\<forall>x\<in>set (rev (takeWhile P (rev xs))). P x"
    by (auto dest: set_takeWhileD)
  ultimately show ?thesis by blast
qed

lemma last_rev_dropWhile:
  "rev (dropWhile P (rev xs)) \<noteq> [] \<Longrightarrow> \<not> P (last (rev (dropWhile P (rev xs))))"
  by (simp add: last_rev hd_dropWhile)

subsection \<open>Lists: replacing each element by a list\<close>

text \<open>A map that replaces each element by a list (as \<^verbatim>\<open>str.lower\<close> replaces
  each code point by its lowercase string) commutes with trimming \<open>P\<close> from the ends
  when it leaves the \<open>P\<close>-elements alone and turns every other element into a non-empty
  list that does not begin (or end) with a \<open>P\<close>-element.\<close>

lemma concat_map_fixed:
  "(\<forall>x\<in>set xs. f x = [x]) \<Longrightarrow> concat (map f xs) = xs"
  by (induction xs) auto

lemma dropWhile_concat_map:
  assumes "\<And>c. P c \<Longrightarrow> f c = [c]"
    and "\<And>c. \<not> P c \<Longrightarrow> f c \<noteq> [] \<and> \<not> P (hd (f c))"
  shows "dropWhile P (concat (map f s)) = concat (map f (dropWhile P s))"
proof (induction s)
  case (Cons c s)
  show ?case
  proof (cases "P c")
    case True
    then show ?thesis by (simp add: assms(1) Cons.IH)
  next
    case False
    with assms(2) [of c] obtain y ys where "f c = y # ys" "\<not> P y"
      by (cases "f c") simp_all
    with False show ?thesis by simp
  qed
qed simp

lemma rev_dropWhile_concat_map:
  assumes "\<And>c. P c \<Longrightarrow> f c = [c]"
    and "\<And>c. \<not> P c \<Longrightarrow> f c \<noteq> [] \<and> \<not> P (last (f c))"
  shows "rev (dropWhile P (rev (concat (map f s)))) = concat (map f (rev (dropWhile P (rev s))))"
proof -
  have "dropWhile P (concat (map (rev \<circ> f) xs)) = concat (map (rev \<circ> f) (dropWhile P xs))" for xs
  proof (rule dropWhile_concat_map)
    fix c
    show "P c \<Longrightarrow> (rev \<circ> f) c = [c]" by (simp add: assms(1))
    show "\<not> P c \<Longrightarrow> (rev \<circ> f) c \<noteq> [] \<and> \<not> P (hd ((rev \<circ> f) c))"
      using assms(2) [of c] by (simp add: hd_rev)
  qed
  then show ?thesis
    by (simp add: rev_concat rev_map comp_def)
qed

lemma list_all_take_drop:
  "list_all P (take n xs) \<Longrightarrow> list_all P (drop n xs) \<Longrightarrow> list_all P xs"
  using list_all_append [of P "take n xs" "drop n xs"] by simp

subsection \<open>Index scans as \<open>while_option\<close> loops\<close>

text \<open>A scan upwards from \<open>k\<close> while the element satisfies \<open>P\<close> halts at the end
  of the maximal \<open>P\<close>-prefix of \<open>drop k s\<close>; a scan downwards from \<open>j\<close> to \<open>i\<close>
  halts at the end of the segment without its maximal \<open>P\<close>-suffix.\<close>

lemma while_option_scan_up:
  "k \<le> length s \<Longrightarrow>
   while_option (\<lambda>i. i < length s \<and> P (s ! i)) Suc k = Some (k + length (takeWhile P (drop k s)))"
proof (induction "length s - k" arbitrary: k)
  case 0
  then show ?case by (simp add: while_option_unfold)
next
  case (Suc n)
  then have drop: "drop k s = s ! k # drop (Suc k) s"
    by (simp add: Cons_nth_drop_Suc)
  from Suc have "k < length s" by simp
  with Suc show ?case
    by (cases "P (s ! k)") (simp_all add: while_option_unfold [of _ _ k] drop)
qed

lemma while_option_scan_down:
  "i \<le> j \<Longrightarrow> j \<le> length s \<Longrightarrow>
   while_option (\<lambda>j. i < j \<and> P (s ! (j - 1))) (\<lambda>j. j - 1) j =
     Some (i + length (dropWhile P (rev (take (j - i) (drop i s)))))"
proof (induction "j - i" arbitrary: j)
  case 0
  then show ?case by (simp add: while_option_unfold)
next
  case (Suc n)
  then obtain j' where j: "j = Suc j'" and "i \<le> j'"
    by (cases j) auto
  with Suc.prems have seg: "take (Suc j' - i) (drop i s) = take (j' - i) (drop i s) @ [s ! j']"
    by (simp add: Suc_diff_le take_Suc_conv_app_nth)
  have IH: "while_option (\<lambda>j. i < j \<and> P (s ! (j - 1))) (\<lambda>j. j - 1) j' =
      Some (i + length (dropWhile P (rev (take (j' - i) (drop i s)))))"
    using Suc \<open>i \<le> j'\<close> j by simp
  show ?case
  proof (cases "P (s ! j')")
    case True
    with IH \<open>i \<le> j'\<close> show ?thesis
      by (simp add: while_option_unfold [of _ _ "Suc j'"] j seg)
  next
    case False
    with \<open>i \<le> j'\<close> Suc.prems show ?thesis
      by (simp add: while_option_unfold [of _ _ "Suc j'"] j seg)
  qed
qed

end
