(* ===== verification/PyExn.thy ===== *)
theory PyExn
  imports Prelude
begin

text \<open>
  Python exceptions as values.  The program raises or receives four kinds: the
  \<^verbatim>\<open>ValueError\<close> of the start-up check (\<^verbatim>\<open>src/flood.py\<close> line 19), the
  \<^verbatim>\<open>KeyError\<close> of the subscript \<^verbatim>\<open>["output"]\<close> (line 153), any other
  \<^verbatim>\<open>Exception\<close> raised inside the agent call (network, authentication, SQL errors),
  and a \<^verbatim>\<open>BaseException\<close> that is not an \<^verbatim>\<open>Exception\<close>
  (\<^verbatim>\<open>KeyboardInterrupt\<close>, \<^verbatim>\<open>SystemExit\<close>), which \<^verbatim>\<open>except Exception\<close>
  (line 157) does not catch.  Each carries what \<^verbatim>\<open>str(e)\<close> needs.
\<close>

datatype exn =
    ValueError pystr
  | KeyError pystr
  | OtherError pystr
  | BaseOnlyError pystr

text \<open>\<^verbatim>\<open>isinstance(e, Exception)\<close>: what the handler of line 157 catches.\<close>

fun is_exception :: "exn \<Rightarrow> bool" where
  "is_exception (BaseOnlyError _) = False"
| "is_exception _ = True"

text \<open>\<^verbatim>\<open>repr\<close> of a key without quotes, backslashes or unprintable code points:
  the key between single quotes.  The only key the program looks up is \<^verbatim>\<open>"output"\<close>.\<close>

definition py_repr_str :: "pystr \<Rightarrow> pystr" where
  "py_repr_str k = [39] @ k @ [39]"

text \<open>\<^verbatim>\<open>str(e)\<close>: the message, and for a \<^verbatim>\<open>KeyError\<close> the \<^verbatim>\<open>repr\<close> of its key.\<close>

fun exn_str :: "exn \<Rightarrow> pystr" where
  "exn_str (ValueError m) = m"
| "exn_str (KeyError k) = py_repr_str k"
| "exn_str (OtherError m) = m"
| "exn_str (BaseOnlyError m) = m"

end
