(* ===== verification/Config.thy ===== *)
theory Config
  imports PyExn
begin

text \<open>
  Start-up of \<^verbatim>\<open>src/flood.py\<close> (lines 15--20), run again at the top of every
  Streamlit rerun of the script.  The process environment \<^verbatim>\<open>os.environ\<close> is a map
  from names to values.  \<^verbatim>\<open>load_dotenv()\<close> (python-dotenv, a library) is modelled by its
  documented default \<^verbatim>\<open>override=False\<close>: an entry of the parsed \<^verbatim>\<open>.env\<close> file is
  added only where the environment has no value, so \<open>load_dotenv dotfile environ\<close> is
  \<open>dotfile ++ environ\<close>.  \<open>startup\<close> returns the environment after the run and the
  exception it raises, if any.
\<close>

type_synonym environ = "pystr \<rightharpoonup> pystr"

definition OPENAI_API_KEY :: pystr where
  "OPENAI_API_KEY = py ''OPENAI_API_KEY''"

definition missing_key_msg :: pystr where
  "missing_key_msg = py ''OPENAI_API_KEY not found. Please add it to your .env file.''"

definition load_dotenv :: "environ \<Rightarrow> environ \<Rightarrow> environ" where
  "load_dotenv dotfile environ = dotfile ++ environ"

definition startup :: "environ \<Rightarrow> environ \<Rightarrow> environ \<times> exn option" where
  "startup dotfile os_environ =
     (let environ = load_dotenv dotfile os_environ;
          api_key = environ OPENAI_API_KEY
      in if \<not> py_truthy_opt api_key then (environ, Some (ValueError missing_key_msg))
         else (environ(OPENAI_API_KEY := api_key), None))"

lemma load_dotenv_idem [simp]:
  "load_dotenv dotfile (load_dotenv dotfile environ) = load_dotenv dotfile environ"
  by (auto simp: load_dotenv_def map_add_def fun_eq_iff split: option.split)

lemma startup_env: "fst (startup dotfile os_environ) = load_dotenv dotfile os_environ"
  by (auto simp: startup_def Let_def elim: py_truthy_opt.elims)

lemma startup_snd:
  "snd (startup dotfile os_environ) =
     (if py_truthy_opt (load_dotenv dotfile os_environ OPENAI_API_KEY) then None
      else Some (ValueError missing_key_msg))"
  by (simp add: startup_def Let_def)

lemma startup_ok_iff:
  "snd (startup dotfile os_environ) = None \<longleftrightarrow>
   py_truthy_opt (load_dotenv dotfile os_environ OPENAI_API_KEY)"
  by (simp add: startup_def Let_def)

lemma startup_rerun:
  "startup dotfile (fst (startup dotfile os_environ)) = startup dotfile os_environ"
  by (simp add: startup_def Let_def startup_env [simplified startup_def Let_def])

text \<open>C13: start-up either fails with the \<^verbatim>\<open>ValueError\<close> of line 19, exactly when
  the key is missing or empty after \<^verbatim>\<open>load_dotenv()\<close>, or succeeds; in both cases
  the environment is the one \<^verbatim>\<open>load_dotenv()\<close> produced, so the write of line 20
  changes nothing.\<close>

theorem startup_outcome:
  "startup dotfile os_environ =
     (load_dotenv dotfile os_environ,
      if py_truthy_opt (load_dotenv dotfile os_environ OPENAI_API_KEY) then None
      else Some (ValueError missing_key_msg))"
proof (rule prod_eqI)
  show "fst (startup dotfile os_environ) = fst (load_dotenv dotfile os_environ,
      if py_truthy_opt (load_dotenv dotfile os_environ OPENAI_API_KEY) then None
      else Some (ValueError missing_key_msg))"
    by (simp add: startup_env)
  show "snd (startup dotfile os_environ) = snd (load_dotenv dotfile os_environ,
      if py_truthy_opt (load_dotenv dotfile os_environ OPENAI_API_KEY) then None
      else Some (ValueError missing_key_msg))"
    by (simp add: startup_snd)
qed

text \<open>C15: an \<^verbatim>\<open>OPENAI_API_KEY\<close> that is set but empty in the process environment
  makes start-up fail, whatever the \<^verbatim>\<open>.env\<close> file holds: \<^verbatim>\<open>load_dotenv()\<close>
  does not override a variable that is present, and \<^verbatim>\<open>not api_key\<close> rejects the empty
  string.\<close>

theorem startup_empty_key_shadows_dotenv:
  assumes "os_environ OPENAI_API_KEY = Some []"
  shows "snd (startup dotfile os_environ) = Some (ValueError missing_key_msg)"
  using assms by (simp add: startup_def load_dotenv_def Let_def)

theorem startup_empty_key_shadows_dotenv_witness:
  "[OPENAI_API_KEY \<mapsto> []] OPENAI_API_KEY = Some [] \<and>
   [OPENAI_API_KEY \<mapsto> py ''sk-test''] OPENAI_API_KEY = Some (py ''sk-test'') \<and>
   snd (startup [OPENAI_API_KEY \<mapsto> py ''sk-test''] [OPENAI_API_KEY \<mapsto> []]) =
     Some (ValueError missing_key_msg)"
proof -
  have h: "[OPENAI_API_KEY \<mapsto> []] OPENAI_API_KEY = Some []" by simp
  from h startup_empty_key_shadows_dotenv [where os_environ = "[OPENAI_API_KEY \<mapsto> []]",
      OF h, of "[OPENAI_API_KEY \<mapsto> py ''sk-test'']"]
  show ?thesis by simp
qed

text \<open>C14: a non-empty key in the process environment takes precedence over the
  \<^verbatim>\<open>.env\<close> file, and start-up then succeeds with that key.\<close>

theorem startup_env_key_wins:
  assumes "os_environ OPENAI_API_KEY = Some k" and "k \<noteq> []"
  shows "startup dotfile os_environ = (dotfile ++ os_environ, None) \<and>
         fst (startup dotfile os_environ) OPENAI_API_KEY = Some k"
  using assms by (simp add: startup_def load_dotenv_def Let_def map_upd_triv)

theorem startup_env_key_wins_witness:
  "[OPENAI_API_KEY \<mapsto> py ''sk-env''] OPENAI_API_KEY = Some (py ''sk-env'') \<and> py ''sk-env'' \<noteq> [] \<and>
   fst (startup [OPENAI_API_KEY \<mapsto> py ''sk-file''] [OPENAI_API_KEY \<mapsto> py ''sk-env''])
     OPENAI_API_KEY = Some (py ''sk-env'')"
proof -
  have h1: "[OPENAI_API_KEY \<mapsto> py ''sk-env''] OPENAI_API_KEY = Some (py ''sk-env'')" by simp
  have h2: "py ''sk-env'' \<noteq> []" by simp
  from h1 h2 startup_env_key_wins [where os_environ = "[OPENAI_API_KEY \<mapsto> py ''sk-env'']",
      OF h1 h2, of "[OPENAI_API_KEY \<mapsto> py ''sk-file'']"]
  show ?thesis by simp
qed

end
