(* ===== verification/Agent.thy ===== *)
theory Agent
  imports PyExn
begin

text \<open>
  The LangChain SQL agent \<^verbatim>\<open>agent_executor\<close> (\<^verbatim>\<open>src/flood.py\<close> lines 27--30) is
  an external service: the model does not describe how it turns a prompt into SQL and an
  answer.  It is a parameter of every operation that calls it, of type
  \<open>'st agent\<close>: given the state \<open>'st\<close> of the world it talks to (the database,
  which the agent may also write, and the remote model) and the input dictionary of
  \<^verbatim>\<open>invoke\<close>, it returns the new state and either the dictionary it answers or the
  exception it raises.  Every lemma about the program holds for every agent; two
  predicates name what some lemmas assume of it: that it raises only
  \<^verbatim>\<open>Exception\<close>s, and that it always answers with an \<^verbatim>\<open>"output"\<close>.
\<close>

datatype agent_outcome = Returns "pystr \<rightharpoonup> pystr" | Raises exn

type_synonym 'st agent = "'st \<Rightarrow> (pystr \<rightharpoonup> pystr) \<Rightarrow> 'st \<times> agent_outcome"

definition INPUT :: pystr where
  "INPUT = py ''input''"

definition OUTPUT :: pystr where
  "OUTPUT = py ''output''"

text \<open>\<^verbatim>\<open>agent_executor.invoke({"input": query})["output"]\<close> (line 153): one call of
  the agent, then the subscript, which raises \<^verbatim>\<open>KeyError('output')\<close> when the answer
  has no such key.\<close>

definition invoke_output :: "'st agent \<Rightarrow> 'st \<Rightarrow> pystr \<Rightarrow> 'st \<times> (exn + pystr)" where
  "invoke_output invoke st query =
     (case invoke st [INPUT \<mapsto> query] of
        (st', Raises e) \<Rightarrow> (st', Inl e)
      | (st', Returns d) \<Rightarrow>
          (case d OUTPUT of
             None \<Rightarrow> (st', Inl (KeyError OUTPUT))
           | Some r \<Rightarrow> (st', Inr r)))"

text \<open>An agent whose failures are all \<^verbatim>\<open>Exception\<close>s (network, authentication,
  SQL and parsing errors), as the specification assumes of the answering service.\<close>

definition agent_raises_only_exceptions :: "'st agent \<Rightarrow> bool" where
  "agent_raises_only_exceptions invoke \<longleftrightarrow>
     (\<forall>st d st' e. invoke st d = (st', Raises e) \<longrightarrow> is_exception e)"

text \<open>A reliable agent: every call returns a dictionary with an \<^verbatim>\<open>"output"\<close>
  entry.\<close>

definition agent_reliable :: "'st agent \<Rightarrow> bool" where
  "agent_reliable invoke \<longleftrightarrow>
     (\<forall>st d. \<exists>st' r a. invoke st d = (st', Returns r) \<and> r OUTPUT = Some a)"

lemma invoke_output_reliable:
  assumes "agent_reliable invoke"
  shows "\<exists>st' a. invoke_output invoke st query = (st', Inr a)"
proof -
  from assms obtain st' r a where "invoke st [INPUT \<mapsto> query] = (st', Returns r)" "r OUTPUT = Some a"
    unfolding agent_reliable_def by blast
  then show ?thesis by (simp add: invoke_output_def)
qed

lemma invoke_output_raises:
  "invoke st [INPUT \<mapsto> query] = (st', Raises e) \<Longrightarrow> invoke_output invoke st query = (st', Inl e)"
  by (simp add: invoke_output_def)

lemma invoke_output_returns:
  "invoke st [INPUT \<mapsto> query] = (st', Returns d) \<Longrightarrow>
   invoke_output invoke st query =
     (st', case d OUTPUT of None \<Rightarrow> Inl (KeyError OUTPUT) | Some r \<Rightarrow> Inr r)"
  by (simp add: invoke_output_def split: option.split)

lemma invoke_output_state:
  "fst (invoke_output invoke st query) = fst (invoke st [INPUT \<mapsto> query])"
  by (simp add: invoke_output_def split: prod.split agent_outcome.split option.split)

lemma invoke_output_exception:
  assumes "agent_raises_only_exceptions invoke" and "invoke_output invoke st query = (st', Inl e)"
  shows "is_exception e"
  using assms
  by (auto simp: invoke_output_def agent_raises_only_exceptions_def
      split: prod.splits agent_outcome.splits option.splits)

end
