(* ===== verification/PyStr.thy ===== *)
theory PyStr
  imports Prelude
begin

text \<open>
  The two \<open>str\<close> builtins that \<^verbatim>\<open>src/flood.py\<close> applies to the user's question
  (line 142, \<^verbatim>\<open>user_input.lower().strip()\<close>).
  \<^item> \<open>py_isspace\<close> is \<^verbatim>\<open>str.isspace\<close> on one code point, the set that
    \<^verbatim>\<open>str.strip()\<close> removes: exactly the 29 code points for which CPython's
    \<^verbatim>\<open>Py_UNICODE_ISSPACE\<close> holds, over the whole Unicode range.
  \<^item> \<open>py_lower_cp\<close> is \<^verbatim>\<open>str.lower\<close> on one code point and \<open>py_lower\<close> on a
    string, exact over the whole Unicode range as CPython 3.11 (Unicode 14.0.0) computes it:
    A..Z move up by 32, U+0130 becomes the two code points U+0069 U+0307, and from U+00C0
    on the code points with a one-code-point lowercase form the 180 runs of
    \<open>lower_runs\<close>, each moving by a fixed offset.  The table was compared with
    CPython on every code point.
  \<^item> \<open>py_strip\<close> is \<^verbatim>\<open>str.strip()\<close> with no argument: the left scan, then the
    right scan, of CPython's \<^verbatim>\<open>do_strip\<close>.
  \<^item> \<open>strip_left_scan\<close>, \<open>strip_right_scan\<close> and \<open>cpython_strip\<close> are the index
    loops of CPython's \<^verbatim>\<open>do_strip\<close> as \<open>while_option\<close> loops.
  Checks evaluated once on the table (\<open>lower_run_ok\<close>, \<open>img_clear\<close>: the runs are
  sorted, hold no whitespace, and no lowercase image lies in a run) give the three facts
  about one code point that the rest uses: whitespace is its own lowercase, any other code
  point lowers to a non-empty string without whitespace, and every code point of a
  lowercase image is its own lowercase.  The table checks are split into six lemmas so
  that they are proved in parallel.
  The lemmas show that lowering never changes whether a code point is whitespace, so the
  order of \<^verbatim>\<open>lower()\<close> and \<^verbatim>\<open>strip()\<close> does not matter, that both are
  idempotent, that \<open>py_strip\<close> meets its declarative specification (the unique
  infix with whitespace-only margins whose ends are not whitespace), and that CPython's
  loops halt, with the closed forms of their indices, and compute \<open>py_strip\<close>.
\<close>

definition py_isspace :: "codepoint \<Rightarrow> bool" where
  "py_isspace c \<longleftrightarrow>
     (9 \<le> c \<and> c \<le> 13) \<or> (28 \<le> c \<and> c \<le> 32) \<or> c = 0x85 \<or> c = 0xA0 \<or> c = 0x1680 \<or>
     (0x2000 \<le> c \<and> c \<le> 0x200A) \<or> c = 0x2028 \<or> c = 0x2029 \<or> c = 0x202F \<or>
     c = 0x205F \<or> c = 0x3000"

text \<open>The lowercase table.  CPython's \<^verbatim>\<open>str.lower\<close> looks each code point up
  in the case records of \<^verbatim>\<open>Objects/unicodetype_db.h\<close> (Unicode 14.0.0 in CPython
  3.11): a code point either is its own lowercase, or has a lowercase of one code point at a
  fixed offset, or (U+0130 alone) the two code points U+0069 U+0307.  From U+00C0 on, the
  code points of the second kind form the 180 runs of \<open>lower_runs\<close>: a run
  \<open>(lo, hi, ilo, st)\<close> holds the code points \<open>lo, lo + st, ..., hi\<close>
  (\<open>st\<close> is 1, or 2 where upper and lower case alternate, as in U+0100..U+012F),
  and maps \<open>lo + k\<close> to \<open>ilo + k\<close>.  Below U+00C0 only A..Z have a
  lowercase, 32 places up.\<close>

type_synonym lower_run = "codepoint \<times> codepoint \<times> codepoint \<times> nat"

definition lower_runs :: "lower_run list" where
  "lower_runs =
    [(0xC0, 0xD6, 0xE0, 1), (0xD8, 0xDE, 0xF8, 1), (0x100, 0x12E, 0x101, 2), (0x132, 0x136, 0x133, 2),
     (0x139, 0x147, 0x13A, 2), (0x14A, 0x176, 0x14B, 2), (0x178, 0x178, 0xFF, 1), (0x179, 0x17D, 0x17A, 2),
     (0x181, 0x181, 0x253, 1), (0x182, 0x184, 0x183, 2), (0x186, 0x186, 0x254, 1), (0x187, 0x187, 0x188, 1),
     (0x189, 0x18A, 0x256, 1), (0x18B, 0x18B, 0x18C, 1), (0x18E, 0x18E, 0x1DD, 1), (0x18F, 0x18F, 0x259, 1),
     (0x190, 0x190, 0x25B, 1), (0x191, 0x191, 0x192, 1), (0x193, 0x193, 0x260, 1), (0x194, 0x194, 0x263, 1),
     (0x196, 0x196, 0x269, 1), (0x197, 0x197, 0x268, 1), (0x198, 0x198, 0x199, 1), (0x19C, 0x19C, 0x26F, 1),
     (0x19D, 0x19D, 0x272, 1), (0x19F, 0x19F, 0x275, 1), (0x1A0, 0x1A4, 0x1A1, 2), (0x1A6, 0x1A6, 0x280, 1),
     (0x1A7, 0x1A7, 0x1A8, 1), (0x1A9, 0x1A9, 0x283, 1), (0x1AC, 0x1AC, 0x1AD, 1), (0x1AE, 0x1AE, 0x288, 1),
     (0x1AF, 0x1AF, 0x1B0, 1), (0x1B1, 0x1B2, 0x28A, 1), (0x1B3, 0x1B5, 0x1B4, 2), (0x1B7, 0x1B7, 0x292, 1),
     (0x1B8, 0x1B8, 0x1B9, 1), (0x1BC, 0x1BC, 0x1BD, 1), (0x1C4, 0x1C4, 0x1C6, 1), (0x1C5, 0x1C5, 0x1C6, 1),
     (0x1C7, 0x1C7, 0x1C9, 1), (0x1C8, 0x1C8, 0x1C9, 1), (0x1CA, 0x1CA, 0x1CC, 1), (0x1CB, 0x1DB, 0x1CC, 2),
     (0x1DE, 0x1EE, 0x1DF, 2), (0x1F1, 0x1F1, 0x1F3, 1), (0x1F2, 0x1F4, 0x1F3, 2), (0x1F6, 0x1F6, 0x195, 1),
     (0x1F7, 0x1F7, 0x1BF, 1), (0x1F8, 0x21E, 0x1F9, 2), (0x220, 0x220, 0x19E, 1), (0x222, 0x232, 0x223, 2),
     (0x23A, 0x23A, 0x2C65, 1), (0x23B, 0x23B, 0x23C, 1), (0x23D, 0x23D, 0x19A, 1), (0x23E, 0x23E, 0x2C66, 1),
     (0x241, 0x241, 0x242, 1), (0x243, 0x243, 0x180, 1), (0x244, 0x244, 0x289, 1), (0x245, 0x245, 0x28C, 1),
     (0x246, 0x24E, 0x247, 2), (0x370, 0x372, 0x371, 2), (0x376, 0x376, 0x377, 1), (0x37F, 0x37F, 0x3F3, 1),
     (0x386, 0x386, 0x3AC, 1), (0x388, 0x38A, 0x3AD, 1), (0x38C, 0x38C, 0x3CC, 1), (0x38E, 0x38F, 0x3CD, 1),
     (0x391, 0x3A1, 0x3B1, 1), (0x3A3, 0x3AB, 0x3C3, 1), (0x3CF, 0x3CF, 0x3D7, 1), (0x3D8, 0x3EE, 0x3D9, 2),
     (0x3F4, 0x3F4, 0x3B8, 1), (0x3F7, 0x3F7, 0x3F8, 1), (0x3F9, 0x3F9, 0x3F2, 1), (0x3FA, 0x3FA, 0x3FB, 1),
     (0x3FD, 0x3FF, 0x37B, 1), (0x400, 0x40F, 0x450, 1), (0x410, 0x42F, 0x430, 1), (0x460, 0x480, 0x461, 2),
     (0x48A, 0x4BE, 0x48B, 2), (0x4C0, 0x4C0, 0x4CF, 1), (0x4C1, 0x4CD, 0x4C2, 2), (0x4D0, 0x52E, 0x4D1, 2),
     (0x531, 0x556, 0x561, 1), (0x10A0, 0x10C5, 0x2D00, 1), (0x10C7, 0x10C7, 0x2D27, 1), (0x10CD, 0x10CD, 0x2D2D, 1),
     (0x13A0, 0x13EF, 0xAB70, 1), (0x13F0, 0x13F5, 0x13F8, 1), (0x1C90, 0x1CBA, 0x10D0, 1), (0x1CBD, 0x1CBF, 0x10FD, 1),
     (0x1E00, 0x1E94, 0x1E01, 2), (0x1E9E, 0x1E9E, 0xDF, 1), (0x1EA0, 0x1EFE, 0x1EA1, 2), (0x1F08, 0x1F0F, 0x1F00, 1),
     (0x1F18, 0x1F1D, 0x1F10, 1), (0x1F28, 0x1F2F, 0x1F20, 1), (0x1F38, 0x1F3F, 0x1F30, 1), (0x1F48, 0x1F4D, 0x1F40, 1),
     (0x1F59, 0x1F5F, 0x1F51, 2), (0x1F68, 0x1F6F, 0x1F60, 1), (0x1F88, 0x1F8F, 0x1F80, 1), (0x1F98, 0x1F9F, 0x1F90, 1),
     (0x1FA8, 0x1FAF, 0x1FA0, 1), (0x1FB8, 0x1FB9, 0x1FB0, 1), (0x1FBA, 0x1FBB, 0x1F70, 1), (0x1FBC, 0x1FBC, 0x1FB3, 1),
     (0x1FC8, 0x1FCB, 0x1F72, 1), (0x1FCC, 0x1FCC, 0x1FC3, 1), (0x1FD8, 0x1FD9, 0x1FD0, 1), (0x1FDA, 0x1FDB, 0x1F76, 1),
     (0x1FE8, 0x1FE9, 0x1FE0, 1), (0x1FEA, 0x1FEB, 0x1F7A, 1), (0x1FEC, 0x1FEC, 0x1FE5, 1), (0x1FF8, 0x1FF9, 0x1F78, 1),
     (0x1FFA, 0x1FFB, 0x1F7C, 1), (0x1FFC, 0x1FFC, 0x1FF3, 1), (0x2126, 0x2126, 0x3C9, 1), (0x212A, 0x212A, 0x6B, 1),
     (0x212B, 0x212B, 0xE5, 1), (0x2132, 0x2132, 0x214E, 1), (0x2160, 0x216F, 0x2170, 1), (0x2183, 0x2183, 0x2184, 1),
     (0x24B6, 0x24CF, 0x24D0, 1), (0x2C00, 0x2C2F, 0x2C30, 1), (0x2C60, 0x2C60, 0x2C61, 1), (0x2C62, 0x2C62, 0x26B, 1),
     (0x2C63, 0x2C63, 0x1D7D, 1), (0x2C64, 0x2C64, 0x27D, 1), (0x2C67, 0x2C6B, 0x2C68, 2), (0x2C6D, 0x2C6D, 0x251, 1),
     (0x2C6E, 0x2C6E, 0x271, 1), (0x2C6F, 0x2C6F, 0x250, 1), (0x2C70, 0x2C70, 0x252, 1), (0x2C72, 0x2C72, 0x2C73, 1),
     (0x2C75, 0x2C75, 0x2C76, 1), (0x2C7E, 0x2C7F, 0x23F, 1), (0x2C80, 0x2CE2, 0x2C81, 2), (0x2CEB, 0x2CED, 0x2CEC, 2),
     (0x2CF2, 0x2CF2, 0x2CF3, 1), (0xA640, 0xA66C, 0xA641, 2), (0xA680, 0xA69A, 0xA681, 2), (0xA722, 0xA72E, 0xA723, 2),
     (0xA732, 0xA76E, 0xA733, 2), (0xA779, 0xA77B, 0xA77A, 2), (0xA77D, 0xA77D, 0x1D79, 1), (0xA77E, 0xA786, 0xA77F, 2),
     (0xA78B, 0xA78B, 0xA78C, 1), (0xA78D, 0xA78D, 0x265, 1), (0xA790, 0xA792, 0xA791, 2), (0xA796, 0xA7A8, 0xA797, 2),
     (0xA7AA, 0xA7AA, 0x266, 1), (0xA7AB, 0xA7AB, 0x25C, 1), (0xA7AC, 0xA7AC, 0x261, 1), (0xA7AD, 0xA7AD, 0x26C, 1),
     (0xA7AE, 0xA7AE, 0x26A, 1), (0xA7B0, 0xA7B0, 0x29E, 1), (0xA7B1, 0xA7B1, 0x287, 1), (0xA7B2, 0xA7B2, 0x29D, 1),
     (0xA7B3, 0xA7B3, 0xAB53, 1), (0xA7B4, 0xA7C2, 0xA7B5, 2), (0xA7C4, 0xA7C4, 0xA794, 1), (0xA7C5, 0xA7C5, 0x282, 1),
     (0xA7C6, 0xA7C6, 0x1D8E, 1), (0xA7C7, 0xA7C9, 0xA7C8, 2), (0xA7D0, 0xA7D0, 0xA7D1, 1), (0xA7D6, 0xA7D8, 0xA7D7, 2),
     (0xA7F5, 0xA7F5, 0xA7F6, 1), (0xFF21, 0xFF3A, 0xFF41, 1), (0x10400, 0x10427, 0x10428, 1), (0x104B0, 0x104D3, 0x104D8, 1),
     (0x10570, 0x1057A, 0x10597, 1), (0x1057C, 0x1058A, 0x105A3, 1), (0x1058C, 0x10592, 0x105B3, 1), (0x10594, 0x10595, 0x105BB, 1),
     (0x10C80, 0x10CB2, 0x10CC0, 1), (0x118A0, 0x118BF, 0x118C0, 1), (0x16E40, 0x16E5F, 0x16E60, 1), (0x1E900, 0x1E921, 0x1E922, 1)]"

fun in_run :: "codepoint \<Rightarrow> lower_run \<Rightarrow> bool" where
  "in_run c (lo, hi, ilo, st) \<longleftrightarrow> lo \<le> c \<and> c \<le> hi \<and> (c - lo) mod st = 0"

definition py_lower_cp :: "codepoint \<Rightarrow> codepoint list" where
  "py_lower_cp c =
     (if c < 0xC0 then [if 65 \<le> c \<and> c \<le> 90 then c + 32 else c]
      else if c = 0x130 then [0x69, 0x307]
      else
        (case find (in_run c) lower_runs of
           None \<Rightarrow> [c]
         | Some (lo, hi, ilo, st) \<Rightarrow> [ilo + (c - lo)]))"

definition py_lower :: "pystr \<Rightarrow> pystr" where
  "py_lower s = concat (map py_lower_cp s)"

definition py_lstrip :: "pystr \<Rightarrow> pystr" where
  "py_lstrip s = dropWhile py_isspace s"

definition py_rstrip :: "pystr \<Rightarrow> pystr" where
  "py_rstrip s = rev (dropWhile py_isspace (rev s))"

definition py_strip :: "pystr \<Rightarrow> pystr" where
  "py_strip s = py_rstrip (py_lstrip s)"

text \<open>The declarative reading of \<^verbatim>\<open>strip\<close>: \<open>k\<close> is \<open>s\<close> without a
  whitespace-only prefix and suffix, and \<open>k\<close> neither starts nor ends in whitespace.\<close>

definition all_space :: "pystr \<Rightarrow> bool" where
  "all_space s \<longleftrightarrow> list_all py_isspace s"

definition stripped_form :: "pystr \<Rightarrow> pystr \<Rightarrow> bool" where
  "stripped_form s k \<longleftrightarrow>
     (\<exists>a b. s = a @ k @ b \<and> all_space a \<and> all_space b) \<and>
     (k = [] \<or> \<not> py_isspace (hd k) \<and> \<not> py_isspace (last k))"

text \<open>Checks on the table that the lemmas below evaluate once.  \<open>space_free a b\<close>:
  no whitespace code point lies in \<open>a..b\<close>.  \<open>lower_run_ok\<close>: a run lies above
  U+00BF, steps by 1 or 2, holds no whitespace and maps to none, and its image avoids U+0130
  and, below U+00C0, the letters A..Z.  \<open>img_clear a b par rs\<close>: no code point of
  \<open>a..b\<close> (of the parity of \<open>a\<close> when \<open>par\<close>) is in a run of \<open>rs\<close>;
  as \<open>rs\<close> is sorted, the walk stops at the first run above \<open>b\<close>.\<close>

definition space_free :: "codepoint \<Rightarrow> codepoint \<Rightarrow> bool" where
  "space_free a b \<longleftrightarrow>
     b < 9 \<or> 13 < a \<and> b < 28 \<or> 32 < a \<and> b < 0x85 \<or> 0x85 < a \<and> b < 0xA0 \<or>
     0xA0 < a \<and> b < 0x1680 \<or> 0x1680 < a \<and> b < 0x2000 \<or> 0x200A < a \<and> b < 0x2028 \<or>
     0x2029 < a \<and> b < 0x202F \<or> 0x202F < a \<and> b < 0x205F \<or> 0x205F < a \<and> b < 0x3000 \<or>
     0x3000 < a"

fun lower_run_ok :: "lower_run \<Rightarrow> bool" where
  "lower_run_ok (lo, hi, ilo, st) \<longleftrightarrow>
     0xC0 \<le> lo \<and> lo \<le> hi \<and> (st = 1 \<or> st = 2) \<and> space_free lo hi \<and>
     space_free ilo (ilo + (hi - lo)) \<and> (ilo + (hi - lo) < 0x130 \<or> 0x130 < ilo) \<and>
     (ilo < 0xC0 \<longrightarrow> ilo + (hi - lo) < 0xC0 \<and> (ilo + (hi - lo) < 65 \<or> 90 < ilo))"

fun img_clear :: "codepoint \<Rightarrow> codepoint \<Rightarrow> bool \<Rightarrow> lower_run list \<Rightarrow> bool" where
  "img_clear a b par [] = True"
| "img_clear a b par ((lo, hi, ilo, st) # rs) \<longleftrightarrow>
     b < lo \<or> (hi < a \<or> par \<and> st = 2 \<and> odd (a + lo)) \<and> img_clear a b par rs"

definition run_image_clear :: "lower_run \<Rightarrow> bool" where
  "run_image_clear r =
     (case r of (lo, hi, ilo, st) \<Rightarrow> img_clear ilo (ilo + (hi - lo)) (st = 2 \<or> lo = hi) lower_runs)"

text \<open>CPython's own \<^verbatim>\<open>do_strip\<close> (\<^verbatim>\<open>Objects/unicodeobject.c\<close>) works on
  indices: \<^verbatim>\<open>i\<close> counts up from 0 while \<^verbatim>\<open>s[i]\<close> is whitespace, then
  \<^verbatim>\<open>j\<close> counts down from \<^verbatim>\<open>len - 1\<close> while \<^verbatim>\<open>j >= i\<close> and
  \<^verbatim>\<open>s[j]\<close> is whitespace, and the result is \<^verbatim>\<open>s[i:j+1]\<close>.  The two loops are
  \<open>while_option\<close> loops here (the down-counter is kept as \<^verbatim>\<open>j + 1\<close>, so that it
  never goes below 0), and \<open>None\<close> would mean that a loop does not halt.\<close>

definition strip_left_scan :: "pystr \<Rightarrow> nat option" where
  "strip_left_scan s = while_option (\<lambda>i. i < length s \<and> py_isspace (s ! i)) Suc 0"

definition strip_right_scan :: "pystr \<Rightarrow> nat \<Rightarrow> nat option" where
  "strip_right_scan s i =
     while_option (\<lambda>j. i < j \<and> py_isspace (s ! (j - 1))) (\<lambda>j. j - 1) (length s)"

definition cpython_strip :: "pystr \<Rightarrow> pystr option" where
  "cpython_strip s =
     (case strip_left_scan s of
        None \<Rightarrow> None
      | Some i \<Rightarrow>
          (case strip_right_scan s i of
             None \<Rightarrow> None
           | Some j \<Rightarrow> Some (take (j - i) (drop i s))))"

declare py_isspace_def [py_simps] py_lower_cp_def [py_simps] py_lower_def [py_simps] py_strip_def [py_simps]
  py_lstrip_def [py_simps] py_rstrip_def [py_simps]

subsection \<open>The lowercase table\<close>

lemma space_free_sound: "space_free a b \<Longrightarrow> a \<le> c \<Longrightarrow> c \<le> b \<Longrightarrow> \<not> py_isspace c"
  by (auto simp: space_free_def py_isspace_def)

lemma in_run_fst: "in_run c r \<Longrightarrow> fst r \<le> c"
  by (cases r) simp

lemma img_clear_sound:
  assumes "img_clear a b par rs" and "sorted (map fst rs)"
    and "a \<le> x" and "x \<le> b" and "par \<longrightarrow> even (x - a)"
  shows "list_all (\<lambda>r. \<not> in_run x r) rs"
  using assms(1,2)
proof (induction rs)
  case (Cons r rs)
  obtain lo hi ilo st where r: "r = (lo, hi, ilo, st)"
    by (cases r)
  from Cons.prems(2) r have sorted: "sorted (map fst rs)" and above: "\<forall>r'\<in>set rs. lo \<le> fst r'"
    by simp_all
  show ?case
  proof (cases "b < lo")
    case True
    with above assms(4) have "\<forall>r'\<in>set rs. \<not> in_run x r'"
      using in_run_fst by fastforce
    with True assms(4) r show ?thesis
      by (simp add: list_all_iff)
  next
    case False
    with Cons.prems(1) r have rest: "img_clear a b par rs"
      and head: "hi < a \<or> par \<and> st = 2 \<and> odd (a + lo)"
      by simp_all
    have "\<not> in_run x r"
    proof
      assume "in_run x r"
      with r have x: "lo \<le> x" "x \<le> hi" "(x - lo) mod st = 0" by simp_all
      show False
      proof (cases "hi < a")
        case True
        with x assms(3) show False by simp
      next
        case False
        with head have "par" "st = 2" "odd (a + lo)" by simp_all
        with assms(5) have "even (x - a)" by simp
        then obtain k where "x - a = 2 * k" unfolding dvd_def by blast
        from x \<open>st = 2\<close> have "even (x - lo)" by (simp add: even_iff_mod_2_eq_zero)
        then obtain m where "x - lo = 2 * m" unfolding dvd_def by blast
        from \<open>x - a = 2 * k\<close> assms(3) have "x = a + 2 * k" by linarith
        moreover from \<open>x - lo = 2 * m\<close> x(1) have "x = lo + 2 * m" by linarith
        ultimately have "even a \<longleftrightarrow> even lo" by (metis even_add even_mult_iff even_numeral)
        with \<open>odd (a + lo)\<close> show False by simp
      qed
    qed
    with Cons.IH [OF rest sorted] show ?thesis by simp
  qed
qed simp

lemma find_lower_run: "find (in_run c) lower_runs = Some r \<Longrightarrow> r \<in> set lower_runs \<and> in_run c r"
  by (simp add: find_Some_iff) (metis nth_mem)

lemma lower_runs_sorted: "sorted (map fst lower_runs)"
  unfolding lower_runs_def by (simp only: list.map fst_conv sorted2 sorted1) simp

lemma lower_runs_ok: "list_all lower_run_ok lower_runs"
  by (simp add: lower_runs_def space_free_def)

lemma lower_runs_clear_1: "list_all run_image_clear (take 30 lower_runs)"
  by (simp add: lower_runs_def run_image_clear_def)

lemma lower_runs_clear_2: "list_all run_image_clear (take 30 (drop 30 lower_runs))"
  by (simp add: lower_runs_def run_image_clear_def)

lemma lower_runs_clear_3: "list_all run_image_clear (take 30 (drop 60 lower_runs))"
  by (simp add: lower_runs_def run_image_clear_def)

lemma lower_runs_clear_4: "list_all run_image_clear (take 30 (drop 90 lower_runs))"
  by (simp add: lower_runs_def run_image_clear_def)

lemma lower_runs_clear_5: "list_all run_image_clear (take 30 (drop 120 lower_runs))"
  by (simp add: lower_runs_def run_image_clear_def)

lemma lower_runs_clear_6: "list_all run_image_clear (drop 150 lower_runs)"
  by (simp add: lower_runs_def run_image_clear_def)

lemma lower_runs_clear: "list_all run_image_clear lower_runs"
proof -
  have "list_all run_image_clear (drop 120 lower_runs)"
    by (rule list_all_take_drop [OF lower_runs_clear_5]) (simp add: lower_runs_clear_6)
  then have "list_all run_image_clear (drop 90 lower_runs)"
    by (intro list_all_take_drop [OF lower_runs_clear_4]) simp
  then have "list_all run_image_clear (drop 60 lower_runs)"
    by (intro list_all_take_drop [OF lower_runs_clear_3]) simp
  then have "list_all run_image_clear (drop 30 lower_runs)"
    by (intro list_all_take_drop [OF lower_runs_clear_2]) simp
  then show ?thesis
    by (intro list_all_take_drop [OF lower_runs_clear_1]) simp
qed

lemma lower_307: "list_all (\<lambda>r. \<not> in_run 0x307 r) lower_runs"
  by (simp add: lower_runs_def)

text \<open>What a run of the table guarantees: its code points are not whitespace, and
  neither is their image, which is U+0130 nowhere, no letter A..Z, and in no run.\<close>

lemma lower_run_image:
  assumes "(lo, hi, ilo, st) \<in> set lower_runs" and "in_run c (lo, hi, ilo, st)"
  shows "\<not> py_isspace c \<and> \<not> py_isspace (ilo + (c - lo)) \<and> ilo + (c - lo) \<noteq> 0x130 \<and>
    (ilo + (c - lo) < 0xC0 \<longrightarrow> ilo + (c - lo) < 65 \<or> 90 < ilo + (c - lo)) \<and>
    list_all (\<lambda>r. \<not> in_run (ilo + (c - lo)) r) lower_runs"
proof -
  define y where "y = ilo + (c - lo)"
  define b where "b = ilo + (hi - lo)"
  from assms(1) lower_runs_ok have ok: "lower_run_ok (lo, hi, ilo, st)"
    unfolding list_all_iff by blast
  then have sf: "space_free lo hi" "space_free ilo b"
    and no130: "b < 0x130 \<or> 0x130 < ilo"
    and noAZ: "ilo < 0xC0 \<longrightarrow> b < 0xC0 \<and> (b < 65 \<or> 90 < ilo)"
    and st: "st = 1 \<or> st = 2"
    unfolding lower_run_ok.simps b_def by blast+
  from assms(1) lower_runs_clear have clear: "img_clear ilo b (st = 2 \<or> lo = hi) lower_runs"
    by (auto simp: list_all_iff run_image_clear_def b_def)
  from assms(2) have c: "lo \<le> c" "c \<le> hi" "(c - lo) mod st = 0" by simp_all
  then have img: "ilo \<le> y" "y \<le> b" by (simp_all add: y_def b_def)
  from c st have par: "st = 2 \<or> lo = hi \<longrightarrow> even (y - ilo)"
    by (auto simp: y_def even_iff_mod_2_eq_zero)
  from clear img have "list_all (\<lambda>r. \<not> in_run y r) lower_runs"
    by (rule img_clear_sound [OF _ lower_runs_sorted _ _ par])
  moreover have "\<not> py_isspace c" by (rule space_free_sound [OF sf(1) c(1,2)])
  moreover have "\<not> py_isspace y" by (rule space_free_sound [OF sf(2) img])
  moreover from no130 img have "y \<noteq> 0x130" by linarith
  moreover from noAZ img have "y < 0xC0 \<longrightarrow> y < 65 \<or> 90 < y" by auto
  ultimately show ?thesis by (simp add: y_def)
qed

subsection \<open>Single code points\<close>

lemma py_lower_cp_cases:
  obtains "py_lower_cp c = [c]"
  | "65 \<le> c" "c \<le> 90" "py_lower_cp c = [c + 32]"
  | "c = 0x130" "py_lower_cp c = [0x69, 0x307]"
  | lo hi ilo st where "(lo, hi, ilo, st) \<in> set lower_runs" "in_run c (lo, hi, ilo, st)"
      "py_lower_cp c = [ilo + (c - lo)]"
proof (cases "c < 0xC0 \<or> c = 0x130")
  case True
  with that(1,2,3) show ?thesis
    by (cases "65 \<le> c \<and> c \<le> 90") (auto simp: py_lower_cp_def)
next
  case False
  show ?thesis
  proof (cases "find (in_run c) lower_runs")
    case None
    with False that(1) show ?thesis by (simp add: py_lower_cp_def)
  next
    case (Some r)
    obtain lo hi ilo st where r: "r = (lo, hi, ilo, st)" by (cases r)
    with Some False find_lower_run [OF Some] that(4) [of lo hi ilo st] show ?thesis
      by (simp add: py_lower_cp_def)
  qed
qed

lemma py_lower_cp_unchanged:
  assumes "list_all (\<lambda>r. \<not> in_run x r) lower_runs" and "x \<noteq> 0x130"
    and "x < 0xC0 \<longrightarrow> x < 65 \<or> 90 < x"
  shows "py_lower_cp x = [x]"
proof -
  from assms(1) have "find (in_run x) lower_runs = None"
    unfolding find_None_iff list_all_iff by blast
  with assms(2,3) show ?thesis by (auto simp: py_lower_cp_def)
qed

lemma py_lower_cp_space:
  assumes "py_isspace c"
  shows "py_lower_cp c = [c]"
proof (cases c rule: py_lower_cp_cases)
  case (4 lo hi ilo st)
  with assms lower_run_image [OF 4(1,2)] show ?thesis by simp
qed (use assms in \<open>simp_all add: py_isspace_def\<close>)

lemma py_lower_cp_nonspace:
  assumes "\<not> py_isspace c"
  shows "py_lower_cp c \<noteq> [] \<and> list_all (\<lambda>x. \<not> py_isspace x) (py_lower_cp c)"
proof (cases c rule: py_lower_cp_cases)
  case (4 lo hi ilo st)
  with lower_run_image [OF 4(1,2)] show ?thesis by simp
qed (use assms in \<open>simp_all add: py_isspace_def\<close>)

lemma py_lower_cp_ends:
  "\<not> py_isspace c \<Longrightarrow>
   py_lower_cp c \<noteq> [] \<and> \<not> py_isspace (hd (py_lower_cp c)) \<and> \<not> py_isspace (last (py_lower_cp c))"
  using py_lower_cp_nonspace [of c] by (auto simp: list_all_iff)

lemma all_space_lower_cp [simp]: "list_all py_isspace (py_lower_cp c) \<longleftrightarrow> py_isspace c"
  using py_lower_cp_space [of c] py_lower_cp_nonspace [of c] by (cases "py_lower_cp c") auto

lemma py_lower_cp_fixed:
  assumes "x \<in> set (py_lower_cp c)"
  shows "py_lower_cp x = [x]"
proof (cases c rule: py_lower_cp_cases)
  case 1
  with assms show ?thesis by simp
next
  case 2
  with assms show ?thesis by (auto simp: py_lower_cp_def)
next
  case 3
  with assms have "x = 0x69 \<or> x = 0x307" by simp
  then show ?thesis
  proof
    assume "x = 0x307"
    with lower_307 show ?thesis by (simp add: py_lower_cp_unchanged)
  qed (simp add: py_lower_cp_def)
next
  case (4 lo hi ilo st)
  with assms lower_run_image [OF 4(1,2)] show ?thesis by (simp add: py_lower_cp_unchanged)
qed

lemma all_space_append [simp]: "all_space (a @ b) \<longleftrightarrow> all_space a \<and> all_space b"
  by (simp add: all_space_def)

lemma all_space_set: "all_space s \<longleftrightarrow> (\<forall>x\<in>set s. py_isspace x)"
  by (simp add: all_space_def list_all_iff)

subsection \<open>lower\<close>

lemma py_lower_append [simp]: "py_lower (a @ b) = py_lower a @ py_lower b"
  by (simp add: py_lower_def)

lemma py_lower_Nil [simp]: "py_lower [] = []"
  by (simp add: py_lower_def)

lemma py_lower_Cons [simp]: "py_lower (c # s) = py_lower_cp c @ py_lower s"
  by (simp add: py_lower_def)

lemma py_lower_lower_cp: "py_lower (py_lower_cp c) = py_lower_cp c"
  unfolding py_lower_def by (rule concat_map_fixed) (simp add: py_lower_cp_fixed)

subsection \<open>strip\<close>

lemma py_lstrip_lower: "py_lstrip (py_lower s) = py_lower (py_lstrip s)"
  unfolding py_lstrip_def py_lower_def
  by (rule dropWhile_concat_map) (simp_all add: py_lower_cp_space py_lower_cp_ends)

lemma py_rstrip_lower: "py_rstrip (py_lower s) = py_lower (py_rstrip s)"
  unfolding py_rstrip_def py_lower_def
  by (rule rev_dropWhile_concat_map) (simp_all add: py_lower_cp_space py_lower_cp_ends)

lemma py_rstrip_append_space:
  "all_space b \<Longrightarrow> py_rstrip (x @ b) = py_rstrip x"
  by (simp add: py_rstrip_def all_space_set dropWhile_all_append)

lemma py_lstrip_append:
  "py_lstrip (s @ b) = (if all_space s then py_lstrip b else py_lstrip s @ b)"
  by (simp add: py_lstrip_def dropWhile_append all_space_set)

lemma py_lstrip_all_space [simp]: "all_space s \<Longrightarrow> py_lstrip s = []"
  by (simp add: py_lstrip_def all_space_set)

lemma py_rstrip_Nil [simp]: "py_rstrip [] = []"
  by (simp add: py_rstrip_def)

lemma py_strip_pad:
  assumes "all_space a" and "all_space b"
  shows "py_strip (a @ s @ b) = py_strip s"
proof (cases "all_space s")
  case True
  with assms show ?thesis
    by (simp add: py_strip_def py_lstrip_append)
next
  case False
  with assms have "py_lstrip (a @ s @ b) = py_lstrip s @ b"
    by (simp add: py_lstrip_append)
  with assms show ?thesis
    by (simp add: py_strip_def py_rstrip_append_space)
qed

lemma py_strip_unchanged:
  assumes "k = [] \<or> \<not> py_isspace (hd k) \<and> \<not> py_isspace (last k)"
  shows "py_strip k = k"
proof -
  from assms have "py_lstrip k = k"
    by (auto simp: py_lstrip_def dropWhile_eq_self_iff)
  moreover from assms have "dropWhile py_isspace (rev k) = rev k"
    by (auto simp: dropWhile_eq_self_iff hd_rev)
  ultimately show ?thesis
    by (simp add: py_strip_def py_rstrip_def)
qed

lemma py_lstrip_split: "\<exists>a. s = a @ py_lstrip s \<and> all_space a"
  by (metis takeWhile_dropWhile_id py_lstrip_def all_space_set set_takeWhileD)

lemma py_rstrip_split: "\<exists>b. s = py_rstrip s @ b \<and> all_space b"
  using dropWhile_rev_prefix [of s py_isspace]
  by (auto simp: py_rstrip_def all_space_set)

lemma py_strip_split: "\<exists>a b. s = a @ py_strip s @ b \<and> all_space a \<and> all_space b"
proof -
  obtain a where a: "s = a @ py_lstrip s" "all_space a"
    using py_lstrip_split by blast
  obtain b where b: "py_lstrip s = py_rstrip (py_lstrip s) @ b" "all_space b"
    using py_rstrip_split by blast
  from a b have "s = a @ py_strip s @ b"
    by (metis py_strip_def)
  with a b show ?thesis by blast
qed

lemma py_strip_ends:
  assumes "py_strip s \<noteq> []"
  shows "\<not> py_isspace (hd (py_strip s)) \<and> \<not> py_isspace (last (py_strip s))"
proof
  obtain b where b: "py_lstrip s = py_strip s @ b"
    using py_rstrip_split [of "py_lstrip s"] by (auto simp: py_strip_def)
  with assms have "hd (py_strip s) = hd (py_lstrip s)" by simp
  moreover from b assms have "py_lstrip s \<noteq> []" by auto
  ultimately show "\<not> py_isspace (hd (py_strip s))"
    by (simp add: py_lstrip_def hd_dropWhile)
  from assms show "\<not> py_isspace (last (py_strip s))"
    by (simp add: py_strip_def py_rstrip_def last_rev_dropWhile)
qed

lemma py_strip_eq_iff: "py_strip s = k \<longleftrightarrow> stripped_form s k"
proof
  assume "py_strip s = k"
  with py_strip_split [of s] py_strip_ends [of s] show "stripped_form s k"
    by (auto simp: stripped_form_def)
next
  assume "stripped_form s k"
  then obtain a b where "s = a @ k @ b" "all_space a" "all_space b"
    and ends: "k = [] \<or> \<not> py_isspace (hd k) \<and> \<not> py_isspace (last k)"
    by (auto simp: stripped_form_def)
  then have "py_strip s = py_strip k" by (simp add: py_strip_pad)
  also from ends have "\<dots> = k" by (rule py_strip_unchanged)
  finally show "py_strip s = k" .
qed

lemma py_strip_idem [simp]: "py_strip (py_strip s) = py_strip s"
  using py_strip_ends [of s] by (blast intro: py_strip_unchanged)

lemma py_strip_lower: "py_strip (py_lower s) = py_lower (py_strip s)"
  by (simp add: py_strip_def py_lstrip_lower py_rstrip_lower)

lemma py_lower_idem [simp]: "py_lower (py_lower s) = py_lower s"
  by (induction s) (simp_all add: py_lower_lower_cp)

lemma all_space_lower [simp]: "all_space (py_lower s) \<longleftrightarrow> all_space s"
  by (induction s) (simp_all add: all_space_def)

lemma py_lower_keeps:
  "py_lower_cp c = [c] \<Longrightarrow> c \<in> set s \<Longrightarrow> c \<in> set (py_lower s)"
  by (induction s) auto

lemma py_strip_keeps:
  assumes "x \<in> set s" and "\<not> py_isspace x"
  shows "x \<in> set (py_strip s)"
proof -
  obtain a b where "s = a @ py_strip s @ b" "all_space a" "all_space b"
    using py_strip_split by blast
  with assms show ?thesis
    by (metis Un_iff set_append all_space_set)
qed

subsection \<open>CPython's index loops\<close>

lemma strip_left_scan_eq: "strip_left_scan s = Some (length (takeWhile py_isspace s))"
  using while_option_scan_up [of 0 s py_isspace] by (simp add: strip_left_scan_def)

lemma strip_right_scan_eq:
  "i \<le> length s \<Longrightarrow>
   strip_right_scan s i = Some (i + length (dropWhile py_isspace (rev (drop i s))))"
  using while_option_scan_down [of i "length s" s py_isspace] by (simp add: strip_right_scan_def)

lemma drop_takeWhile_lstrip: "drop (length (takeWhile py_isspace s)) s = py_lstrip s"
  by (simp add: py_lstrip_def dropWhile_eq_drop)

lemma take_rstrip: "take (length (py_rstrip x)) x = py_rstrip x"
proof -
  obtain b where "x = py_rstrip x @ b"
    using py_rstrip_split by blast
  then show ?thesis by (metis append_eq_conv_conj)
qed

lemma cpython_strip_eq: "cpython_strip s = Some (py_strip s)"
proof -
  let ?i = "length (takeWhile py_isspace s)"
  have "?i \<le> length s" by (rule List.length_takeWhile_le)
  then have "strip_right_scan s ?i = Some (?i + length (py_rstrip (py_lstrip s)))"
    by (simp add: strip_right_scan_eq drop_takeWhile_lstrip py_rstrip_def)
  then show ?thesis
    by (simp add: cpython_strip_def strip_left_scan_eq drop_takeWhile_lstrip take_rstrip py_strip_def)
qed

end
