(* ===== verification/Knowledge.thy ===== *)
theory Knowledge
  imports PyStr
begin

text \<open>
  The two constant texts of \<^verbatim>\<open>src/flood.py\<close>: the data dictionary (lines 33--99),
  prefixed to every question sent to the agent, and the dictionary \<^verbatim>\<open>hardcoded_qa\<close>
  of canned executive answers (lines 102--127).  Every literal is transcribed piece by
  piece: adjacent Python literals are joined with \<open>@\<close>, \<^verbatim>\<open>\n\<close> is \<open>LF\<close>,
  the two non-ASCII characters are written as code points (U+21D4 in the data dictionary,
  U+2019 in the third answer).  The triple-quoted data dictionary opens with a newline and
  every one of its 65 lines ends in one.  The lemmas give the keys of the map and show
  that every answer is a well-formed Python string; theory \<open>Resolver\<close> shows that the
  keys are distinct and already in the normal form that line 142 computes.
\<close>

definition data_dictionary :: pystr where
  \<open>data_dictionary = LF @ py_unlines [
    py ''### Detailed Data Dictionary for 'flood.db'' @ [39],
    [],
    py ''The database contains three tables: **inundation_forecasting**, **rainfall**, and **alerts**.'',
    py ''Below is a detailed breakdown of each column and their relationships.'',
    [],
    py ''---'',
    [],
    py ''#### 1. inundation_forecasting'',
    py ''- **datetime**: Timestamp indicating the date and time of the forecast (e.g. "2025-01-01 08:00:00").'',
    py ''- **ht_forecast**: Numerical value representing the predicted water height or inundation level (e.g. "5.2 feet").'',
    py ''- **latitude**: Geographic latitude coordinate for the forecast location (e.g. "24.4539").'',
    py ''- **longitude**: Geographic longitude coordinate for the forecast location (e.g. "54.3773").'',
    [],
    py ''**Purpose**:  '',
    py ''This table is used to store predictive data for flooding. The `ht_forecast` helps determine flood severity, and the lat/long fields map exactly where the forecast is applicable.'',
    [],
    py ''---'',
    [],
    py ''#### 2. rainfall'',
    py ''- **precipInches**: Amount of rainfall measured in inches (e.g. "0.75").'',
    py ''- **deviceId**: Unique identifier of the device recording rainfall (e.g. "R123").'',
    py ''- **deviceLabel**: Human-readable label/name of the device (e.g. "Downtown Rain Gauge").'',
    py ''- **region**: Region or area name associated with the device (e.g. "Abu Dhabi City Center").'',
    py ''- **msr_date**: Date of the measurement (e.g. "2025-01-05").'',
    py ''- **msr_time**: Time of the measurement (e.g. "14:30:00").'',
    py ''- **latitude**: Geographic latitude coordinate of the device (e.g. "24.4539").'',
    py ''- **longitude**: Geographic longitude coordinate of the device (e.g. "54.3773").'',
    py ''- **msr_dttm**: Combined date-time of the measurement, often used for queries and analysis (e.g. "2025-01-05 14:30:00").'',
    [],
    py ''**Purpose**:  '',
    py ''This table tracks rainfall data from various devices. The `region` column can be linked to the region in alerts or used in conjunction with lat/long to match forecasting data or alerts.'',
    [],
    py ''---'',
    [],
    py ''#### 3. alerts'',
    py ''- **alertType**: Type of alert (e.g. "Flood Warning", "Flash Flood", "High Tide").'',
    py ''- **alertSubtype**: More specific subtype of the alert (e.g. "Severe", "Moderate").'',
    py ''- **alertSeverity**: Severity level (e.g. "Critical", "High", "Medium", "Low").'',
    py ''- **alertMessage**: Text describing the alert (e.g. "Flash Flood Watch in effect until 6 PM.").'',
    py ''- **deviceId**: Device ID associated with the alert; may link to `rainfall.deviceId` if relevant.'',
    py ''- **region**: Region name where the alert is applicable (e.g. "Al Nahdah").'',
    py ''- **msr_dttm**: Combined date-time when the alert was issued (e.g. "2025-01-05 14:45:00").'',
    py ''- **msr_date**: Date when the alert was issued (e.g. "2025-01-05").'',
    py ''- **msr_time**: Time when the alert was issued (e.g. "14:45:00").'',
    py ''- **msr_month**: Month of the alert, either numeric or textual (e.g. "January" or "01").'',
    py ''- **Lat**: Latitude coordinate of the alert location (e.g. "24.4539").'',
    py ''- **Long**: Longitude coordinate of the alert location (e.g. "54.3773").'',
    [],
    py ''**Purpose**:  '',
    py ''This table stores alerts that have been triggered, including the type of flood alert, severity, and location details.'',
    [],
    py ''---'',
    [],
    py ''### Potential Relationships:'',
    py ''1. **alerts.deviceId** '' @ [0x21D4] @ py '' **rainfall.deviceId**:  '',
    py ''   If both the `alerts` and `rainfall` tables share the same device ID, they can be joined to correlate which specific rainfall device triggered an alert.'',
    py ''2. **alerts.region** '' @ [0x21D4] @ py '' **rainfall.region**:  '',
    py ''   If you want to track all alerts for a given region, you can join on the `region` column. The same can be done with `inundation_forecasting` if you assign region names consistently or rely on the lat/long proximity to match the region.'',
    py ''3. **Spatial/Geographic Matching**:  '',
    py ''   By comparing lat/long values in `inundation_forecasting`, `rainfall`, and `alerts`, you can determine how different meteorological or hydrological events line up in the same area.'',
    [],
    py ''---'',
    [],
    py ''### Usage:'',
    py ''Use this data dictionary to understand the purpose of each field when querying the database or building flood-related analytics.'']\<close>

definition answer_high_impact :: pystr where
  "answer_high_impact =
     py ''Based on our historical data and current forecasting models, '' @
     py ''the areas that exhibit the highest vulnerability to future flood events '' @
     py ''are **Al Adlah**, **Al Nahdah**, **Bu Deeb**, and **Al Haffar**. '' @
     py ''These locations consistently appear in our inundation forecasts due to '' @
     py ''their geographical profiles and proximity to low-lying flood plains.''"

definition answer_recommendation :: pystr where
  "answer_recommendation =
     py ''To mitigate the risk in these high-impact areas, we recommend an integrated approach:'' @ LF @ LF @
     py ''1. **Infrastructure Upgrades**: Enhance and maintain drainage systems, and consider building '' @
     py ''   protective levees or flood barriers.'' @ LF @
     py ''2. **Smart Monitoring**: Install additional rainfall gauges and flood sensors for real-time monitoring.'' @ LF @
     py ''3. **Urban Planning**: Implement zoning regulations to limit construction in flood-prone zones.'' @ LF @
     py ''4. **Community Preparedness**: Conduct regular flood drills, ensure early-warning systems are in place, '' @
     py ''   and provide public education on emergency response.''"

definition answer_why_impacted :: pystr where
  "answer_why_impacted =
     py ''These regions are particularly vulnerable due to a combination of factors:'' @ LF @ LF @
     py ''- **Topography**: Areas like Al Adlah and Al Nahdah have lower elevations, causing water to accumulate.'' @ LF @
     py ''- **Coastal Proximity**: Bu Deeb is near a coastal plain, making it susceptible to storm surges.'' @ LF @
     py ''- **Drainage and Infrastructure**: Al Haffar'' @ [0x2019] @ py ''s drainage systems may require updates to handle heavy rainfall.'' @ LF @
     py ''- **Historical Patterns**: Data shows these areas have experienced recurring flood incidents, '' @
     py ''   indicating underlying vulnerabilities that require focused intervention.''"

definition key_high_impact :: pystr where
  "key_high_impact = py ''which area will have a high impact for future floods''"

definition key_recommendation :: pystr where
  "key_recommendation = py ''recommendation to reduce impact''"

definition key_why_impacted :: pystr where
  "key_why_impacted = py ''why are these areas impacted''"

definition hardcoded_qa :: "pystr \<rightharpoonup> pystr" where
  "hardcoded_qa =
     [key_high_impact \<mapsto> answer_high_impact,
      key_recommendation \<mapsto> answer_recommendation,
      key_why_impacted \<mapsto> answer_why_impacted]"

lemmas qa_keys = key_high_impact_def key_recommendation_def key_why_impacted_def

lemma dom_hardcoded_qa:
  "dom hardcoded_qa = {key_high_impact, key_recommendation, key_why_impacted}"
  by (auto simp: hardcoded_qa_def)

lemma hardcoded_qa_Nil [simp]: "hardcoded_qa [] = None"
  by (simp add: hardcoded_qa_def qa_keys)

lemma hardcoded_qa_valid: "hardcoded_qa k = Some a \<Longrightarrow> valid_pystr a"
  by (auto simp: hardcoded_qa_def answer_high_impact_def answer_recommendation_def
      answer_why_impacted_def split: if_splits)

end
