(* ===== verification/Resolver.thy ===== *)
theory Resolver
  imports Agent Knowledge
begin

text \<open>
  The question handler of \<^verbatim>\<open>src/flood.py\<close>, lines 140--161: the body of
  \<^verbatim>\<open>if user_input:\<close>.  It normalises the question (line 142), builds the prompt
  (line 145), answers from \<^verbatim>\<open>hardcoded_qa\<close> or from the agent (lines 149--153),
  appends the turns to the conversation (lines 155--156), and turns an \<^verbatim>\<open>Exception\<close>
  into an \<^verbatim>\<open>"Error: ..."\<close> turn (lines 157--158).  \<open>handle_input\<close> takes the agent,
  the agent's state, the conversation and the text of the input field, and returns the new
  agent state with either the new conversation or the exception that escapes the
  \<^verbatim>\<open>try\<close> (a \<^verbatim>\<open>BaseException\<close> that is not an \<^verbatim>\<open>Exception\<close>).  The
  assignment \<^verbatim>\<open>user_input = ""\<close> of line 161 rebinds a local name only and has no
  effect on any state; theory \<open>Session\<close> shows what that means for the input field.
\<close>

datatype speaker = User | Assistant

type_synonym turn = "speaker \<times> pystr"

definition normalize_input :: "pystr \<Rightarrow> pystr" where
  "normalize_input user_input = py_strip (py_lower user_input)"

definition build_query :: "pystr \<Rightarrow> pystr" where
  "build_query user_input = data_dictionary @ LF @ LF @ user_input"

definition lookup_answer :: "'st agent \<Rightarrow> 'st \<Rightarrow> pystr \<Rightarrow> pystr \<Rightarrow> 'st \<times> (exn + pystr)" where
  "lookup_answer invoke st user_input_lower query =
     (case hardcoded_qa user_input_lower of
        Some r \<Rightarrow> (st, Inr r)
      | None \<Rightarrow> invoke_output invoke st query)"

definition error_text :: "exn \<Rightarrow> pystr" where
  "error_text e = py ''Error: '' @ exn_str e"

definition handle_input ::
  "'st agent \<Rightarrow> 'st \<Rightarrow> turn list \<Rightarrow> pystr \<Rightarrow> 'st \<times> (exn + turn list)" where
  "handle_input invoke st conversation user_input =
     (if \<not> py_truthy user_input then (st, Inr conversation)
      else
        (let user_input_lower = normalize_input user_input;
             query = build_query user_input
         in case lookup_answer invoke st user_input_lower query of
              (st', Inr result) \<Rightarrow>
                (st', Inr (conversation @ [(User, user_input), (Assistant, result)]))
            | (st', Inl e) \<Rightarrow>
                if is_exception e
                then (st', Inr (conversation @ [(Assistant, error_text e)]))
                else (st', Inl e)))"

text \<open>
  The contract of the resolver in the specification (section 4.1), as a relation
  between the answering service, the question and the reply: the question is matched
  after case folding and trimming (\<open>stripped_form\<close>, the declarative reading of
  \<^verbatim>\<open>strip\<close>), a canonical question gets its fixed answer, any other is sent to the
  service with the schema context in front of the original text, and a failure of the
  service becomes \<^verbatim>\<open>"Error: <message>"\<close>.  The service is a function from the
  prompt to an answer or an exception.
\<close>

inductive resolves :: "(pystr \<Rightarrow> exn + pystr) \<Rightarrow> pystr \<Rightarrow> pystr \<Rightarrow> bool"
  for service :: "pystr \<Rightarrow> exn + pystr" where
  canned: "stripped_form (py_lower q) k \<Longrightarrow> hardcoded_qa k = Some a \<Longrightarrow> resolves service q a"
| delegated: "stripped_form (py_lower q) k \<Longrightarrow> hardcoded_qa k = None \<Longrightarrow>
    service (data_dictionary @ LF @ LF @ q) = Inr out \<Longrightarrow> resolves service q out"
| failed: "stripped_form (py_lower q) k \<Longrightarrow> hardcoded_qa k = None \<Longrightarrow>
    service (data_dictionary @ LF @ LF @ q) = Inl e \<Longrightarrow> is_exception e \<Longrightarrow>
    resolves service q (py ''Error: '' @ exn_str e)"

subsection \<open>Helper lemmas\<close>

lemmas resolver_eval = normalize_input_def py_simps hardcoded_qa_def qa_keys

lemma normalize_input_Nil [simp]: "normalize_input [] = []"
  by (simp add: normalize_input_def py_strip_def py_lstrip_def)

lemma normalize_input_stripped_form: "stripped_form (py_lower q) (normalize_input q)"
  by (simp add: normalize_input_def py_strip_eq_iff [symmetric])

lemma lookup_answer_canned:
  "hardcoded_qa k = Some a \<Longrightarrow> lookup_answer invoke st k query = (st, Inr a)"
  by (simp add: lookup_answer_def)

lemma lookup_answer_delegated:
  "hardcoded_qa k = None \<Longrightarrow> lookup_answer invoke st k query = invoke_output invoke st query"
  by (simp add: lookup_answer_def)

lemma lookup_answer_exception:
  "agent_raises_only_exceptions invoke \<Longrightarrow> lookup_answer invoke st k query = (st', Inl e) \<Longrightarrow>
   is_exception e"
  by (auto simp: lookup_answer_def split: option.splits intro: invoke_output_exception)

lemma keys_stripped:
  "\<forall>k\<in>{key_high_impact, key_recommendation, key_why_impacted}. py_strip k = k"
  by (simp add: qa_keys py_simps)

lemma py_lower_cp_long_s: "py_lower_cp 0x17F = [0x17F]"
  by (simp add: py_lower_cp_def lower_runs_def)

lemma lookup_answer_reliable:
  "agent_reliable invoke \<Longrightarrow> \<exists>st' a. lookup_answer invoke st k query = (st', Inr a)"
  by (cases "hardcoded_qa k") (auto simp: lookup_answer_def dest: invoke_output_reliable)

lemma handle_input_nonempty:
  "q \<noteq> [] \<Longrightarrow> handle_input invoke st conv q =
     (case lookup_answer invoke st (normalize_input q) (build_query q) of
        (st', Inr result) \<Rightarrow> (st', Inr (conv @ [(User, q), (Assistant, result)]))
      | (st', Inl e) \<Rightarrow>
          if is_exception e then (st', Inr (conv @ [(Assistant, error_text e)])) else (st', Inl e))"
  by (simp add: handle_input_def)

lemma handle_input_hit:
  "hardcoded_qa (normalize_input q) = Some a \<Longrightarrow>
   handle_input invoke st conv q = (st, Inr (conv @ [(User, q), (Assistant, a)]))"
  by (cases "q = []") (auto simp: handle_input_nonempty lookup_answer_canned)

lemma handle_input_cases:
  assumes "handle_input invoke st conv q = (st', r)"
  obtains (empty) "q = []" "st' = st" "r = Inr conv"
    | (answered) a where "q \<noteq> []" "r = Inr (conv @ [(User, q), (Assistant, a)])"
        "lookup_answer invoke st (normalize_input q) (build_query q) = (st', Inr a)"
    | (failed) e where "q \<noteq> []" "is_exception e" "r = Inr (conv @ [(Assistant, error_text e)])"
        "lookup_answer invoke st (normalize_input q) (build_query q) = (st', Inl e)"
    | (escaped) e where "q \<noteq> []" "\<not> is_exception e" "r = Inl e"
        "lookup_answer invoke st (normalize_input q) (build_query q) = (st', Inl e)"
proof (cases "q = []")
  case True
  with assms show ?thesis by (intro empty) (auto simp: handle_input_def)
next
  case False
  obtain st'' r'' where la: "lookup_answer invoke st (normalize_input q) (build_query q) = (st'', r'')"
    by fastforce
  with False assms show ?thesis
    by (cases r'') (auto simp: handle_input_nonempty split: if_splits intro: that)
qed

lemma handle_input_reliable:
  assumes "agent_reliable invoke" and "q \<noteq> []"
  shows "\<exists>st' a. handle_input invoke st conv q = (st', Inr (conv @ [(User, q), (Assistant, a)]))"
proof -
  obtain st' r where h: "handle_input invoke st conv q = (st', r)"
    by fastforce
  obtain st'' a where la: "lookup_answer invoke st (normalize_input q) (build_query q) = (st'', Inr a)"
    using lookup_answer_reliable [OF assms(1)] by blast
  from h show ?thesis
    by (cases rule: handle_input_cases) (use assms(2) la h in auto)
qed

subsection \<open>Behaviour of the handler on every branch\<close>

text \<open>C1: a question whose normal form is a key of \<^verbatim>\<open>hardcoded_qa\<close> is answered with
  the canned text: the turns (User, question) and (Assistant, answer) are appended, and the
  agent is not called, so its state is unchanged and the result is the same for every agent.\<close>

theorem handle_input_canned:
  assumes "hardcoded_qa (normalize_input q) = Some a"
  shows "handle_input invoke st conv q = (st, Inr (conv @ [(User, q), (Assistant, a)]))"
  using assms by (rule handle_input_hit)

text \<open>C2: any other non-empty question is sent to the agent exactly once, as the input
  \<^verbatim>\<open>{"input": data_dictionary + "\n\n" + question}\<close> with the original, not the
  normalised, text; the \<^verbatim>\<open>"output"\<close> of its answer is appended verbatim after the
  question, and the agent's new state is kept.\<close>

theorem handle_input_delegated:
  assumes "q \<noteq> []" and "hardcoded_qa (normalize_input q) = None"
    and "invoke st [INPUT \<mapsto> data_dictionary @ LF @ LF @ q] = (st', Returns d)"
    and "d OUTPUT = Some r"
  shows "handle_input invoke st conv q = (st', Inr (conv @ [(User, q), (Assistant, r)]))"
  using assms
  by (simp add: handle_input_nonempty lookup_answer_delegated invoke_output_returns build_query_def)

text \<open>C3: when the agent raises an \<^verbatim>\<open>Exception\<close>, the handler does not fail: it
  appends one Assistant turn \<^verbatim>\<open>"Error: " + str(e)\<close>, and no User turn.\<close>

theorem handle_input_agent_error:
  assumes "q \<noteq> []" and "hardcoded_qa (normalize_input q) = None"
    and "invoke st [INPUT \<mapsto> data_dictionary @ LF @ LF @ q] = (st', Raises e)"
    and "is_exception e"
  shows "handle_input invoke st conv q = (st', Inr (conv @ [(Assistant, py ''Error: '' @ exn_str e)]))"
  using assms
  by (simp add: handle_input_nonempty lookup_answer_delegated invoke_output_raises
      build_query_def error_text_def)

text \<open>C4: no \<^verbatim>\<open>Exception\<close> ever leaves the handler, whatever the agent does: the only
  exceptions it lets out are \<^verbatim>\<open>BaseException\<close>s outside \<^verbatim>\<open>Exception\<close>.\<close>

theorem handle_input_no_exception_escapes:
  assumes "handle_input invoke st conv q = (st', Inl e)"
  shows "\<not> is_exception e"
  using assms by (cases rule: handle_input_cases) auto

text \<open>C5: the handler refines the contract \<open>resolves\<close> of the specification: whenever it
  completes on a non-empty question, the last appended turn is the Assistant's reply, and
  that reply is the one the contract gives for the question, with the agent as the
  service.\<close>

theorem handle_input_refines_spec:
  assumes "q \<noteq> []" and "handle_input invoke st conv q = (st', Inr conv')"
  shows "\<exists>a new. conv' = conv @ new \<and> last new = (Assistant, a) \<and>
           resolves (\<lambda>p. snd (invoke_output invoke st p)) q a"
proof -
  let ?svc = "\<lambda>p. snd (invoke_output invoke st p)"
  have sf: "stripped_form (py_lower q) (normalize_input q)" by (rule normalize_input_stripped_form)
  from assms(2) show ?thesis
  proof (cases rule: handle_input_cases)
    case empty
    with assms(1) show ?thesis by simp
  next
    case (answered a)
    have "resolves ?svc q a"
    proof (cases "hardcoded_qa (normalize_input q)")
      case None
      with answered have "?svc (data_dictionary @ LF @ LF @ q) = Inr a"
        by (simp add: lookup_answer_delegated build_query_def)
      with sf None show ?thesis by (rule resolves.delegated)
    next
      case (Some a')
      with answered have "a' = a" by (simp add: lookup_answer_canned)
      with sf Some show ?thesis by (metis resolves.canned)
    qed
    with answered show ?thesis by auto
  next
    case (failed e)
    then have none: "hardcoded_qa (normalize_input q) = None"
      by (auto simp: lookup_answer_def split: option.splits)
    with failed have "?svc (data_dictionary @ LF @ LF @ q) = Inl e"
      by (simp add: lookup_answer_delegated build_query_def)
    with sf none failed(2) have "resolves ?svc q (py ''Error: '' @ exn_str e)"
      by (blast intro: resolves.failed)
    with failed show ?thesis by (auto simp: error_text_def)
  next
    case (escaped e)
    then show ?thesis by simp
  qed
qed

text \<open>C11: when the agent's answer has no \<^verbatim>\<open>"output"\<close> key, the subscript raises
  \<^verbatim>\<open>KeyError('output')\<close>, which the handler catches like any other failure: the
  transcript gets the Assistant turn \<^verbatim>\<open>Error: 'output'\<close>.\<close>

theorem handle_input_missing_output:
  assumes "q \<noteq> []" and "hardcoded_qa (normalize_input q) = None"
    and "invoke st [INPUT \<mapsto> build_query q] = (st', Returns d)"
    and "d OUTPUT = None"
  shows "handle_input invoke st conv q =
           (st', Inr (conv @ [(Assistant, py ''Error: '' @ [39] @ py ''output'' @ [39])]))"
  using assms
  by (simp add: handle_input_nonempty lookup_answer_delegated invoke_output_returns
      error_text_def py_repr_str_def OUTPUT_def)

text \<open>C12: a \<^verbatim>\<open>BaseException\<close> that is not an \<^verbatim>\<open>Exception\<close> (say
  \<^verbatim>\<open>KeyboardInterrupt\<close>) raised by the agent is not caught: it leaves the handler and
  nothing is appended.\<close>

theorem handle_input_base_exception:
  assumes "q \<noteq> []" and "hardcoded_qa (normalize_input q) = None"
    and "invoke st [INPUT \<mapsto> build_query q] = (st', Raises e)"
    and "\<not> is_exception e"
  shows "handle_input invoke st conv q = (st', Inl e)"
  using assms
  by (simp add: handle_input_nonempty lookup_answer_delegated invoke_output_raises)

text \<open>C16: line 142 computes exactly the normal form of the specification: the result of
  \<^verbatim>\<open>lower().strip()\<close> is the lowered question without whitespace-only margins, and
  it neither starts nor ends in whitespace.\<close>

theorem normalize_spec: "normalize_input q = k \<longleftrightarrow> stripped_form (py_lower q) k"
  by (simp add: normalize_input_def py_strip_eq_iff)

text \<open>C6: matching ignores case and surrounding whitespace: two questions that differ only
  in letter case and in leading or trailing whitespace have the same normal form.\<close>

theorem normalize_insensitive:
  assumes "all_space a" and "all_space b" and "py_lower q' = py_lower q"
  shows "normalize_input (a @ q' @ b) = normalize_input q"
proof -
  have "normalize_input (a @ q' @ b) = py_strip (py_lower a @ py_lower q @ py_lower b)"
    using assms(3) by (simp add: normalize_input_def)
  also have "\<dots> = py_strip (py_lower q)"
    using assms(1,2) by (simp add: py_strip_pad)
  finally show ?thesis by (simp add: normalize_input_def)
qed

text \<open>Normalising twice is normalising once (lower and strip commute and are
  idempotent), so a question typed in normal form is matched as it is.\<close>

lemma normalize_idem: "normalize_input (normalize_input q) = normalize_input q"
  by (simp add: normalize_input_def py_strip_lower [symmetric])

text \<open>C7: \<^verbatim>\<open>hardcoded_qa\<close> has exactly the three canonical questions of the
  specification as keys, they are distinct, and each is its own normal form, so each
  canned answer is reached by the question typed as it is.\<close>

theorem canned_keys_normal:
  "dom hardcoded_qa = set [key_high_impact, key_recommendation, key_why_impacted] \<and>
   distinct [key_high_impact, key_recommendation, key_why_impacted] \<and>
   list_all (\<lambda>k. normalize_input k = k) [key_high_impact, key_recommendation, key_why_impacted]"
proof (intro conjI)
  show "dom hardcoded_qa = set [key_high_impact, key_recommendation, key_why_impacted]"
    by (simp add: dom_hardcoded_qa)
  show "distinct [key_high_impact, key_recommendation, key_why_impacted]"
    by (simp add: qa_keys)
  show "list_all (\<lambda>k. normalize_input k = k) [key_high_impact, key_recommendation, key_why_impacted]"
    by (simp add: resolver_eval)
qed

text \<open>C18: one submission appends at most two turns and never changes earlier ones.\<close>

theorem handle_input_growth:
  assumes "handle_input invoke st conv q = (st', Inr conv')"
  shows "prefix conv conv' \<and> length conv' \<le> length conv + 2"
  using assms by (cases rule: handle_input_cases) auto

text \<open>C19: an empty input field (\<^verbatim>\<open>if user_input:\<close> false) changes nothing and
  does not call the agent.\<close>

theorem handle_input_empty: "handle_input invoke st conv [] = (st, Inr conv)"
  by (simp add: handle_input_def)

text \<open>C29: which questions get a canned answer.  A question is answered from
  \<^verbatim>\<open>hardcoded_qa\<close> exactly when it is one of the three keys up to
  \<^verbatim>\<open>lower()\<close> and whitespace margins.  The specification asks for case folding
  instead: with \<^verbatim>\<open>lower()\<close>, a question containing the long s U+017F (which case
  folding turns into s) never gets a canned answer and is sent to the agent.\<close>

theorem canned_questions_exactly:
  "(hardcoded_qa (normalize_input q) \<noteq> None \<longleftrightarrow>
     (\<exists>a k b. q = a @ k @ b \<and> all_space a \<and> all_space b \<and>
        py_lower k \<in> {key_high_impact, key_recommendation, key_why_impacted})) \<and>
   (0x17F \<in> set q \<longrightarrow> hardcoded_qa (normalize_input q) = None \<and>
      lookup_answer invoke st (normalize_input q) (build_query q) = invoke_output invoke st (build_query q))"
proof (intro conjI impI)
  have dom: "hardcoded_qa k \<noteq> None \<longleftrightarrow> k \<in> {key_high_impact, key_recommendation, key_why_impacted}" for k
    using dom_hardcoded_qa by auto
  show "hardcoded_qa (normalize_input q) \<noteq> None \<longleftrightarrow>
     (\<exists>a k b. q = a @ k @ b \<and> all_space a \<and> all_space b \<and>
        py_lower k \<in> {key_high_impact, key_recommendation, key_why_impacted})"
  proof
    assume "hardcoded_qa (normalize_input q) \<noteq> None"
    moreover have "py_lower (py_strip q) = normalize_input q"
      by (simp add: normalize_input_def py_strip_lower)
    moreover obtain a b where "q = a @ py_strip q @ b" "all_space a" "all_space b"
      using py_strip_split by blast
    ultimately show "\<exists>a k b. q = a @ k @ b \<and> all_space a \<and> all_space b \<and>
        py_lower k \<in> {key_high_impact, key_recommendation, key_why_impacted}"
      using dom by metis
  next
    assume "\<exists>a k b. q = a @ k @ b \<and> all_space a \<and> all_space b \<and>
        py_lower k \<in> {key_high_impact, key_recommendation, key_why_impacted}"
    then obtain a k b where q: "q = a @ k @ b" "all_space a" "all_space b"
      and key: "py_lower k \<in> {key_high_impact, key_recommendation, key_why_impacted}"
      by blast
    from q have "normalize_input q = py_strip (py_lower k)"
      by (simp add: normalize_input_def py_strip_pad)
    also from key keys_stripped have "\<dots> = py_lower k" by blast
    finally show "hardcoded_qa (normalize_input q) \<noteq> None"
      using key dom by simp
  qed
  assume "0x17F \<in> set q"
  then have "0x17F \<in> set (py_lower q)"
    by (rule py_lower_keeps [OF py_lower_cp_long_s])
  then have "0x17F \<in> set (normalize_input q)"
    unfolding normalize_input_def by (rule py_strip_keeps) (simp add: py_isspace_def)
  moreover have "0x17F \<notin> set k" if "k \<in> {key_high_impact, key_recommendation, key_why_impacted}" for k
    using that by (auto simp: qa_keys)
  ultimately show none: "hardcoded_qa (normalize_input q) = None"
    using dom by blast
  then show "lookup_answer invoke st (normalize_input q) (build_query q) = invoke_output invoke st (build_query q)"
    by (rule lookup_answer_delegated)
qed

subsection \<open>Witnesses\<close>

theorem handle_input_canned_witness:
  "hardcoded_qa (normalize_input (py ''  Recommendation To Reduce Impact '')) = Some answer_recommendation \<and>
   handle_input (\<lambda>(n::nat) d. (n + 1, Raises (OtherError (py ''service down'')))) 0 []
     (py ''  Recommendation To Reduce Impact '') =
   (0, Inr [(User, py ''  Recommendation To Reduce Impact ''), (Assistant, answer_recommendation)])"
proof -
  have h: "hardcoded_qa (normalize_input (py ''  Recommendation To Reduce Impact '')) = Some answer_recommendation"
    by (simp add: resolver_eval)
  show ?thesis
    using h handle_input_canned [OF h,
        of "\<lambda>(n::nat) d. (n + 1, Raises (OtherError (py ''service down'')))" 0 "[]"]
    by simp
qed

theorem handle_input_delegated_witness:
  "py ''What is the rainfall in Abu Dhabi today?'' \<noteq> [] \<and>
   hardcoded_qa (normalize_input (py ''What is the rainfall in Abu Dhabi today?'')) = None \<and>
   handle_input (\<lambda>(n::nat) d. (n + 1, Returns [OUTPUT \<mapsto> py ''12 mm''])) 0 []
     (py ''What is the rainfall in Abu Dhabi today?'') =
   (1, Inr [(User, py ''What is the rainfall in Abu Dhabi today?''), (Assistant, py ''12 mm'')])"
proof -
  let ?q = "py ''What is the rainfall in Abu Dhabi today?''"
  have h1: "?q \<noteq> []" by simp
  have h2: "hardcoded_qa (normalize_input ?q) = None" by (simp add: resolver_eval)
  note w = handle_input_delegated [where invoke = "\<lambda>(n::nat) d. (n + 1, Returns [OUTPUT \<mapsto> py ''12 mm''])"
      and st = 0 and conv = "[]" and q = ?q and st' = 1 and d = "[OUTPUT \<mapsto> py ''12 mm'']"
      and r = "py ''12 mm''", OF h1 h2]
  from w h1 h2 show ?thesis by simp
qed

theorem handle_input_agent_error_witness:
  "py ''Rainfall today?'' \<noteq> [] \<and>
   hardcoded_qa (normalize_input (py ''Rainfall today?'')) = None \<and>
   is_exception (OtherError (py ''Connection refused'')) \<and>
   handle_input (\<lambda>(n::nat) d. (n, Raises (OtherError (py ''Connection refused'')))) 0 []
     (py ''Rainfall today?'') =
   (0, Inr [(Assistant, py ''Error: Connection refused'')])"
proof -
  let ?q = "py ''Rainfall today?''"
  have h1: "?q \<noteq> []" by simp
  have h2: "hardcoded_qa (normalize_input ?q) = None" by (simp add: resolver_eval)
  have h4: "is_exception (OtherError (py ''Connection refused''))" by simp
  note w = handle_input_agent_error [where invoke = "\<lambda>(n::nat) d. (n, Raises (OtherError (py ''Connection refused'')))"
      and st = 0 and conv = "[]" and q = ?q, OF h1 h2 _ h4]
  from w h1 h2 h4 show ?thesis by simp
qed

theorem handle_input_no_exception_escapes_witness:
  "handle_input (\<lambda>(n::nat) d. (n, Raises (BaseOnlyError (py ''KeyboardInterrupt'')))) 0 []
     (py ''Rainfall today?'') = (0, Inl (BaseOnlyError (py ''KeyboardInterrupt''))) \<and>
   \<not> is_exception (BaseOnlyError (py ''KeyboardInterrupt''))"
proof -
  have h: "handle_input (\<lambda>(n::nat) d. (n, Raises (BaseOnlyError (py ''KeyboardInterrupt'')))) 0 []
     (py ''Rainfall today?'') = (0, Inl (BaseOnlyError (py ''KeyboardInterrupt'')))"
    by (simp add: handle_input_def lookup_answer_def invoke_output_def resolver_eval)
  from h handle_input_no_exception_escapes [OF h] show ?thesis by simp
qed

theorem handle_input_refines_spec_witness:
  "py ''why are these areas impacted'' \<noteq> [] \<and>
   handle_input (\<lambda>(n::nat) d. (n, Returns Map.empty)) 0 [] (py ''why are these areas impacted'') =
     (0, Inr [(User, py ''why are these areas impacted''), (Assistant, answer_why_impacted)]) \<and>
   (\<exists>a new. [(User, py ''why are these areas impacted''), (Assistant, answer_why_impacted)] = [] @ new \<and>
      last new = (Assistant, a) \<and>
      resolves (\<lambda>p. snd (invoke_output (\<lambda>(n::nat) d. (n, Returns Map.empty)) 0 p))
        (py ''why are these areas impacted'') a)"
proof -
  let ?q = "py ''why are these areas impacted''"
  have h1: "?q \<noteq> []" by simp
  have h2: "handle_input (\<lambda>(n::nat) d. (n, Returns Map.empty)) 0 [] ?q =
     (0, Inr [(User, ?q), (Assistant, answer_why_impacted)])"
    by (simp add: handle_input_def lookup_answer_def resolver_eval)
  from h1 h2 handle_input_refines_spec [OF h1 h2] show ?thesis by blast
qed

theorem normalize_insensitive_witness:
  "all_space (py ''  '') \<and> all_space [9] \<and>
   py_lower (py ''Recommendation To Reduce Impact'') = py_lower (py ''recommendation to reduce impact'') \<and>
   normalize_input (py ''  '' @ py ''Recommendation To Reduce Impact'' @ [9]) =
   normalize_input (py ''recommendation to reduce impact'')"
proof -
  have h1: "all_space (py ''  '')" by (simp add: all_space_def py_isspace_def)
  have h2: "all_space [9]" by (simp add: all_space_def py_isspace_def)
  have h3: "py_lower (py ''Recommendation To Reduce Impact'') = py_lower (py ''recommendation to reduce impact'')"
    by (simp add: py_lower_cp_def)
  from h1 h2 h3 normalize_insensitive [OF h1 h2 h3] show ?thesis by blast
qed

theorem handle_input_missing_output_witness:
  "py ''Rainfall today?'' \<noteq> [] \<and>
   hardcoded_qa (normalize_input (py ''Rainfall today?'')) = None \<and>
   handle_input (\<lambda>(n::nat) d. (n, Returns [py ''result'' \<mapsto> py ''5 mm''])) 0 [] (py ''Rainfall today?'') =
   (0, Inr [(Assistant, py ''Error: '' @ [39] @ py ''output'' @ [39])])"
proof -
  let ?q = "py ''Rainfall today?''"
  have h1: "?q \<noteq> []" by simp
  have h2: "hardcoded_qa (normalize_input ?q) = None" by (simp add: resolver_eval)
  note w = handle_input_missing_output [where invoke = "\<lambda>(n::nat) d. (n, Returns [py ''result'' \<mapsto> py ''5 mm''])"
      and st = 0 and conv = "[]" and q = ?q and st' = 0 and d = "[py ''result'' \<mapsto> py ''5 mm'']", OF h1 h2]
  from w h1 h2 show ?thesis by (simp add: OUTPUT_def)
qed

theorem handle_input_base_exception_witness:
  "py ''Rainfall today?'' \<noteq> [] \<and>
   hardcoded_qa (normalize_input (py ''Rainfall today?'')) = None \<and>
   \<not> is_exception (BaseOnlyError []) \<and>
   handle_input (\<lambda>(n::nat) d. (n + 1, Raises (BaseOnlyError []))) 0 [(User, py ''hi'')] (py ''Rainfall today?'') =
   (1, Inl (BaseOnlyError []))"
proof -
  let ?q = "py ''Rainfall today?''"
  have h1: "?q \<noteq> []" by simp
  have h2: "hardcoded_qa (normalize_input ?q) = None" by (simp add: resolver_eval)
  have h4: "\<not> is_exception (BaseOnlyError [])" by simp
  note w = handle_input_base_exception [where invoke = "\<lambda>(n::nat) d. (n + 1, Raises (BaseOnlyError []))"
      and st = 0 and conv = "[(User, py ''hi'')]" and q = ?q and st' = 1 and e = "BaseOnlyError []", OF h1 h2 _ h4]
  from w h1 h2 h4 show ?thesis by simp
qed

theorem normalize_spec_witness:
  "stripped_form (py_lower (py '' Why Are These Areas Impacted  '')) key_why_impacted"
proof -
  have "normalize_input (py '' Why Are These Areas Impacted  '') = key_why_impacted"
    by (simp add: resolver_eval)
  with normalize_spec show ?thesis by blast
qed

theorem handle_input_growth_witness:
  "handle_input (\<lambda>(n::nat) d. (n, Returns Map.empty)) 0 [(Assistant, py ''Error: x'')]
     (py ''recommendation to reduce impact'') =
     (0, Inr [(Assistant, py ''Error: x''), (User, py ''recommendation to reduce impact''),
              (Assistant, answer_recommendation)]) \<and>
   prefix [(Assistant, py ''Error: x'')] [(Assistant, py ''Error: x''), (User, py ''recommendation to reduce impact''),
              (Assistant, answer_recommendation)]"
proof -
  have h: "handle_input (\<lambda>(n::nat) d. (n, Returns Map.empty)) 0 [(Assistant, py ''Error: x'')]
     (py ''recommendation to reduce impact'') =
     (0, Inr [(Assistant, py ''Error: x''), (User, py ''recommendation to reduce impact''),
              (Assistant, answer_recommendation)])"
    by (simp add: handle_input_def lookup_answer_def resolver_eval)
  from h handle_input_growth [OF h] show ?thesis by blast
qed

theorem canned_questions_exactly_witness:
  "0x17F \<in> set (py ''Why are the'' @ [0x17F] @ py ''e areas impacted'') \<and>
   hardcoded_qa (normalize_input (py ''Why are the'' @ [0x17F] @ py ''e areas impacted'')) = None \<and>
   lookup_answer (\<lambda>(n::nat) d. (n + 1, Returns [OUTPUT \<mapsto> py ''no data''])) 0
     (normalize_input (py ''Why are the'' @ [0x17F] @ py ''e areas impacted''))
     (build_query (py ''Why are the'' @ [0x17F] @ py ''e areas impacted'')) = (1, Inr (py ''no data''))"
proof -
  let ?q = "py ''Why are the'' @ [0x17F] @ py ''e areas impacted''"
  let ?inv = "\<lambda>(n::nat) d. (n + 1, Returns [OUTPUT \<mapsto> py ''no data''])"
  have h: "0x17F \<in> set ?q" by simp
  have "invoke_output ?inv 0 (build_query ?q) = (1, Inr (py ''no data''))"
    by (simp add: invoke_output_def)
  with h canned_questions_exactly [where q = ?q and invoke = ?inv and st = 0] show ?thesis by simp
qed

end
