(* ===== verification/Session.thy ===== *)
theory Session
  imports Config Resolver
begin

text \<open>
  One Streamlit session of \<^verbatim>\<open>src/flood.py\<close>.  Streamlit executes the whole script
  from the top on every rerun; what survives a rerun is the process environment, the
  state of the agent's world and the session state, which holds the conversation
  (\<^verbatim>\<open>st.session_state.conversation\<close>, absent before the first run, lines 133--135)
  and the value of the input widget with key \<^verbatim>\<open>"user_input"\<close> (line 138), which
  Streamlit keeps until the user edits it.  \<open>run_script\<close> is one execution of lines
  15--168: start-up, page header, conversation initialisation, the handler of theory
  \<open>Resolver\<close>, and the display loop of lines 164--168; it returns the new world, the
  page elements in order, and the exception that ended the run, if any.  \<open>ui_step\<close>
  is the step relation of the session: the user submits a new value of the field
  (Streamlit reruns on a changed widget), or the script is rerun with the field
  unchanged (Streamlit's Rerun command; a browser reload starts a new session); the agent's world may
  also change on its own (another client writes the database).
\<close>

record session =
  conversation :: "turn list option"
  widget_user_input :: pystr

datatype element = Title pystr | Write pystr | TextInput pystr pystr | Markdown pystr

record 'st world =
  w_environ :: environ
  w_agent :: 'st
  w_session :: session

definition render_turn :: "turn \<Rightarrow> element" where
  "render_turn t =
     (case t of (speaker, message) \<Rightarrow>
        if speaker = User then Markdown (py ''**You:** '' @ message)
        else Markdown (py ''**Assistant:** '' @ message))"

definition page_header :: "pystr \<Rightarrow> element list" where
  "page_header v =
     [Title (py ''Flood Digital Assistant''),
      Write (py ''Ask me anything about floods in Abu Dhabi''),
      TextInput (py ''You:'') v]"

text \<open>What the browser shows after a run: the elements the script drew, and, when the run
  ended with an uncaught exception, the exception box Streamlit's script runner draws for
  it below them.\<close>

datatype shown = Shown element | ExceptionBox exn

definition browser_page :: "element list \<Rightarrow> exn option \<Rightarrow> shown list" where
  "browser_page page x = map Shown page @ (case x of None \<Rightarrow> [] | Some e \<Rightarrow> [ExceptionBox e])"

definition init_conversation :: "session \<Rightarrow> turn list" where
  "init_conversation sess = (case conversation sess of None \<Rightarrow> [] | Some c \<Rightarrow> c)"

definition run_script ::
  "environ \<Rightarrow> 'st agent \<Rightarrow> 'st world \<Rightarrow> 'st world \<times> element list \<times> exn option" where
  "run_script dotfile invoke w =
     (case startup dotfile (w_environ w) of
        (environ, Some e) \<Rightarrow> (w\<lparr>w_environ := environ\<rparr>, [], Some e)
      | (environ, None) \<Rightarrow>
          (let sess = w_session w;
               v = widget_user_input sess;
               conv0 = init_conversation sess
           in case handle_input invoke (w_agent w) conv0 v of
                (st', Inl e) \<Rightarrow>
                  (w\<lparr>w_environ := environ, w_agent := st',
                     w_session := sess\<lparr>conversation := Some conv0\<rparr>\<rparr>, page_header v, Some e)
              | (st', Inr conv) \<Rightarrow>
                  (w\<lparr>w_environ := environ, w_agent := st',
                     w_session := sess\<lparr>conversation := Some conv\<rparr>\<rparr>,
                   page_header v @ map render_turn conv, None)))"

definition init_world :: "environ \<Rightarrow> 'st \<Rightarrow> 'st world" where
  "init_world environ st =
     \<lparr>w_environ = environ, w_agent = st,
      w_session = \<lparr>conversation = None, widget_user_input = []\<rparr>\<rparr>"

inductive ui_step :: "environ \<Rightarrow> 'st agent \<Rightarrow> 'st world \<Rightarrow> 'st world \<Rightarrow> bool"
  for dotfile :: environ and invoke :: "'st agent" where
  submit: "v \<noteq> widget_user_input (w_session w) \<Longrightarrow>
    run_script dotfile invoke (w\<lparr>w_session := (w_session w)\<lparr>widget_user_input := v\<rparr>\<rparr>) = (w', page, x) \<Longrightarrow>
    ui_step dotfile invoke w w'"
| rerun: "run_script dotfile invoke w = (w', page, x) \<Longrightarrow> ui_step dotfile invoke w w'"
| external: "ui_step dotfile invoke w (w\<lparr>w_agent := st'\<rparr>)"

inductive reachable :: "environ \<Rightarrow> 'st agent \<Rightarrow> environ \<Rightarrow> 'st \<Rightarrow> 'st world \<Rightarrow> bool"
  for dotfile :: environ and invoke :: "'st agent" and env_init :: environ and st_init :: 'st where
  init: "reachable dotfile invoke env_init st_init (init_world env_init st_init)"
| step: "reachable dotfile invoke env_init st_init w \<Longrightarrow> ui_step dotfile invoke w w' \<Longrightarrow>
    reachable dotfile invoke env_init st_init w'"

text \<open>The shape of a conversation: a sequence of exchanges, each a non-empty User turn
  followed by the Assistant's answer, or a lone Assistant turn with an error message.\<close>

definition is_error_message :: "pystr \<Rightarrow> bool" where
  "is_error_message a \<longleftrightarrow> prefix (py ''Error: '') a"

fun wf_conv :: "turn list \<Rightarrow> bool" where
  "wf_conv [] = True"
| "wf_conv ((User, q) # (Assistant, a) # rest) = (q \<noteq> [] \<and> wf_conv rest)"
| "wf_conv ((Assistant, a) # rest) = (is_error_message a \<and> wf_conv rest)"
| "wf_conv _ = False"

text \<open>Canned answers never drift: every exchange on a question whose normal form is a key
  of \<^verbatim>\<open>hardcoded_qa\<close> carries exactly that key's answer.\<close>

fun canned_consistent :: "turn list \<Rightarrow> bool" where
  "canned_consistent [] = True"
| "canned_consistent ((User, q) # (Assistant, a) # rest) =
     ((case hardcoded_qa (normalize_input q) of None \<Rightarrow> True | Some a' \<Rightarrow> a = a') \<and>
      canned_consistent rest)"
| "canned_consistent (t # rest) = canned_consistent rest"

definition conv_of :: "'st world \<Rightarrow> turn list" where
  "conv_of w = init_conversation (w_session w)"

subsection \<open>Helper lemmas\<close>

lemma wf_conv_append: "wf_conv xs \<Longrightarrow> wf_conv ys \<Longrightarrow> wf_conv (xs @ ys)"
  by (induction xs rule: wf_conv.induct) auto

lemma canned_consistent_append:
  "wf_conv xs \<Longrightarrow> canned_consistent (xs @ ys) \<longleftrightarrow> canned_consistent xs \<and> canned_consistent ys"
  by (induction xs rule: wf_conv.induct) auto

lemma is_error_message_error_text [simp]: "is_error_message (error_text e)"
  by (simp add: is_error_message_def error_text_def)

lemma handle_input_wf:
  assumes "handle_input invoke st conv q = (st', Inr conv')" and "wf_conv conv"
  shows "wf_conv conv'"
  using assms(1)
proof (cases rule: handle_input_cases)
  case (answered a)
  with assms(2) show ?thesis by (simp add: wf_conv_append)
next
  case (failed e)
  with assms(2) show ?thesis by (simp add: wf_conv_append)
qed (use assms in auto)

lemma handle_input_canned_consistent:
  assumes "handle_input invoke st conv q = (st', Inr conv')"
    and "wf_conv conv" and "canned_consistent conv"
  shows "canned_consistent conv'"
  using assms(1)
proof (cases rule: handle_input_cases)
  case (answered a)
  then have "case hardcoded_qa (normalize_input q) of None \<Rightarrow> True | Some a' \<Rightarrow> a = a'"
    by (auto simp: lookup_answer_def split: option.splits)
  with answered assms(2,3) show ?thesis by (simp add: canned_consistent_append)
next
  case (failed e)
  with assms(2,3) show ?thesis by (simp add: canned_consistent_append)
qed (use assms in auto)

lemma handle_input_prefix:
  "handle_input invoke st conv q = (st', Inr conv') \<Longrightarrow> prefix conv conv'"
  by (erule handle_input_cases) auto

lemma run_script_startup_fails:
  "snd (startup dotfile (w_environ w)) = Some e \<Longrightarrow>
   run_script dotfile invoke w = (w\<lparr>w_environ := load_dotenv dotfile (w_environ w)\<rparr>, [], Some e)"
proof -
  assume "snd (startup dotfile (w_environ w)) = Some e"
  then have "startup dotfile (w_environ w) = (load_dotenv dotfile (w_environ w), Some e)"
    by (metis prod.collapse startup_env)
  then show ?thesis by (simp add: run_script_def)
qed

lemma run_script_started:
  assumes "snd (startup dotfile (w_environ w)) = None"
  shows "run_script dotfile invoke w =
    (case handle_input invoke (w_agent w) (conv_of w) (widget_user_input (w_session w)) of
       (st', Inl e) \<Rightarrow>
         (w\<lparr>w_environ := load_dotenv dotfile (w_environ w), w_agent := st',
            w_session := (w_session w)\<lparr>conversation := Some (conv_of w)\<rparr>\<rparr>,
          page_header (widget_user_input (w_session w)), Some e)
     | (st', Inr conv) \<Rightarrow>
         (w\<lparr>w_environ := load_dotenv dotfile (w_environ w), w_agent := st',
            w_session := (w_session w)\<lparr>conversation := Some conv\<rparr>\<rparr>,
          page_header (widget_user_input (w_session w)) @ map render_turn conv, None))"
proof -
  obtain env' where "startup dotfile (w_environ w) = (env', None)"
    using assms by (metis prod.collapse)
  moreover from this have "env' = load_dotenv dotfile (w_environ w)"
    by (metis fst_conv startup_env)
  ultimately show ?thesis
    unfolding run_script_def conv_of_def by (simp add: Let_def)
qed

lemma run_script_cases:
  assumes "run_script dotfile invoke w = (w', page, x)"
  obtains (crashed) e where "snd (startup dotfile (w_environ w)) = Some e"
      "w' = w\<lparr>w_environ := load_dotenv dotfile (w_environ w)\<rparr>" "page = []" "x = Some e"
  | (escaped) st' e where "snd (startup dotfile (w_environ w)) = None"
      "handle_input invoke (w_agent w) (conv_of w) (widget_user_input (w_session w)) = (st', Inl e)"
      "w' = w\<lparr>w_environ := load_dotenv dotfile (w_environ w), w_agent := st',
              w_session := (w_session w)\<lparr>conversation := Some (conv_of w)\<rparr>\<rparr>"
      "page = page_header (widget_user_input (w_session w))" "x = Some e"
  | (completed) st' conv where "snd (startup dotfile (w_environ w)) = None"
      "handle_input invoke (w_agent w) (conv_of w) (widget_user_input (w_session w)) = (st', Inr conv)"
      "w' = w\<lparr>w_environ := load_dotenv dotfile (w_environ w), w_agent := st',
              w_session := (w_session w)\<lparr>conversation := Some conv\<rparr>\<rparr>"
      "page = page_header (widget_user_input (w_session w)) @ map render_turn conv" "x = None"
proof (cases "snd (startup dotfile (w_environ w))")
  case (Some e)
  with assms have "w' = w\<lparr>w_environ := load_dotenv dotfile (w_environ w)\<rparr>" "page = []" "x = Some e"
    by (simp_all add: run_script_startup_fails)
  with Some show ?thesis by (rule crashed)
next
  case None
  obtain st' r where hi:
    "handle_input invoke (w_agent w) (conv_of w) (widget_user_input (w_session w)) = (st', r)"
    by fastforce
  with None assms show ?thesis
    by (cases r) (auto simp: run_script_started intro: escaped completed)
qed

lemma conv_of_update [simp]:
  "conv_of (w\<lparr>w_environ := env, w_agent := st, w_session := (w_session w)\<lparr>conversation := Some c\<rparr>\<rparr>) = c"
  "conv_of (w\<lparr>w_environ := env\<rparr>) = conv_of w"
  "conv_of (w\<lparr>w_agent := st\<rparr>) = conv_of w"
  "conv_of (w\<lparr>w_environ := env, w_session := (w_session w)\<lparr>conversation := Some c\<rparr>\<rparr>) = c"
  by (simp_all add: conv_of_def init_conversation_def)

lemma run_script_conv:
  assumes "run_script dotfile invoke w = (w', page, x)"
  shows "conv_of w' = conv_of w \<or>
         handle_input invoke (w_agent w) (conv_of w) (widget_user_input (w_session w)) =
           (w_agent w', Inr (conv_of w'))"
  using assms by (cases rule: run_script_cases) auto

lemma run_script_prefix:
  "run_script dotfile invoke w = (w', page, x) \<Longrightarrow> prefix (conv_of w) (conv_of w')"
  by (metis prefix_order.refl run_script_conv handle_input_prefix)

lemma conv_of_submit [simp]:
  "conv_of (w\<lparr>w_session := (w_session w)\<lparr>widget_user_input := v\<rparr>\<rparr>) = conv_of w"
  by (simp add: conv_of_def init_conversation_def)

lemma ui_step_cases_conv:
  assumes "ui_step dotfile invoke w w'"
  obtains (run) w0 page x where "conv_of w0 = conv_of w" "run_script dotfile invoke w0 = (w', page, x)"
  | (same) "conv_of w' = conv_of w"
  using assms
proof (cases rule: ui_step.cases)
  case (submit v page x)
  then show ?thesis
    by (intro run [of "w\<lparr>w_session := (w_session w)\<lparr>widget_user_input := v\<rparr>\<rparr>" page x]) simp_all
next
  case (rerun page x)
  then show ?thesis by (intro run [of w page x]) simp_all
next
  case (external st')
  then show ?thesis by (intro same) simp
qed

lemma run_script_canned:
  assumes "snd (startup dotfile (w_environ w)) = None"
    and "hardcoded_qa (normalize_input (widget_user_input (w_session w))) = Some a"
    and "run_script dotfile invoke w = (w', page, x)"
  shows "conv_of w' = conv_of w @ [(User, widget_user_input (w_session w)), (Assistant, a)] \<and>
         w_environ w' = load_dotenv dotfile (w_environ w) \<and>
         widget_user_input (w_session w') = widget_user_input (w_session w) \<and> x = None"
proof -
  let ?q = "widget_user_input (w_session w)"
  from assms(2) have "handle_input invoke (w_agent w) (conv_of w) ?q =
      (w_agent w, Inr (conv_of w @ [(User, ?q), (Assistant, a)]))"
    by (rule handle_input_hit)
  with assms(1,3) show ?thesis by (auto simp: run_script_started)
qed

lemma run_script_environ:
  "run_script dotfile invoke w = (w', page, x) \<Longrightarrow> w_environ w' = load_dotenv dotfile (w_environ w)"
  by (erule run_script_cases) auto

lemma startup_ok_after_load:
  "snd (startup dotfile (load_dotenv dotfile env)) = snd (startup dotfile env)"
  by (simp add: startup_snd)

lemma reachable_environ:
  "reachable dotfile invoke env_init st_init w \<Longrightarrow>
   w_environ w = env_init \<or> w_environ w = load_dotenv dotfile env_init"
proof (induction rule: reachable.induct)
  case init
  show ?case by (simp add: init_world_def)
next
  case (step w w')
  from step.hyps(2) show ?case
  proof (cases rule: ui_step.cases)
    case (submit v page x)
    then have "w_environ w' = load_dotenv dotfile (w_environ w)"
      by (auto dest: run_script_environ)
    with step.IH show ?thesis by auto
  next
    case (rerun page x)
    then have "w_environ w' = load_dotenv dotfile (w_environ w)"
      by (auto dest: run_script_environ)
    with step.IH show ?thesis by auto
  next
    case (external st')
    with step.IH show ?thesis by simp
  qed
qed

lemma run_script_conv_inv:
  "run_script dotfile invoke w = (w', page, x) \<Longrightarrow>
   wf_conv (conv_of w) \<and> canned_consistent (conv_of w) \<Longrightarrow>
   wf_conv (conv_of w') \<and> canned_consistent (conv_of w')"
  by (metis run_script_conv handle_input_wf handle_input_canned_consistent)

lemma reachable_conv_inv:
  assumes "reachable dotfile invoke env_init st_init w"
  shows "wf_conv (conv_of w) \<and> canned_consistent (conv_of w)"
  using assms
proof (induction rule: reachable.induct)
  case init
  show ?case by (simp add: init_world_def conv_of_def init_conversation_def)
next
  case (step w w')
  from step.hyps(2) show ?case
  proof (cases rule: ui_step_cases_conv)
    case (run w0 page x)
    with step.IH show ?thesis by (metis run_script_conv_inv)
  next
    case same
    with step.IH show ?thesis by simp
  qed
qed

lemma reachable_startup_ok:
  "reachable dotfile invoke env_init st_init w \<Longrightarrow>
   py_truthy_opt (load_dotenv dotfile env_init OPENAI_API_KEY) \<Longrightarrow>
   snd (startup dotfile (w_environ w)) = None"
  by (auto simp: startup_snd dest: reachable_environ)

text \<open>With an agent that raises only \<^verbatim>\<open>Exception\<close>s, a non-empty question always
  ends in a reply: the question and its answer, or a lone \<^verbatim>\<open>Error:\<close> turn.\<close>

lemma handle_input_reply:
  assumes "handle_input invoke st conv q = (st', r)"
    and "agent_raises_only_exceptions invoke" and "q \<noteq> []"
  obtains (answered) a where "r = Inr (conv @ [(User, q), (Assistant, a)])"
    | (failed) a where "r = Inr (conv @ [(Assistant, a)])" "is_error_message a"
  using assms(1)
proof (cases rule: handle_input_cases)
  case (answered a)
  then show ?thesis by (intro that(1) [of a]) simp
next
  case (failed e)
  then show ?thesis by (intro that(2) [of "error_text e"]) simp_all
next
  case (escaped e)
  with assms(2) show ?thesis by (blast dest: lookup_answer_exception)
qed (use assms in simp)

subsection \<open>Properties of a session\<close>

text \<open>C8: in every reachable state of a session the conversation is a sequence of
  exchanges: each User turn holds a non-empty question and is directly followed by the
  Assistant's answer, and every Assistant turn not preceded by a question is an
  \<^verbatim>\<open>"Error: ..."\<close> message.\<close>

theorem reachable_conversation_wf:
  assumes "reachable dotfile invoke env_init st_init w"
  shows "wf_conv (conv_of w)"
  using reachable_conv_inv [OF assms] by simp

text \<open>C25: canned answers never drift: in every reachable state, every exchange whose
  question normalises to a key of \<^verbatim>\<open>hardcoded_qa\<close> shows exactly that key's answer,
  however often it was asked and whatever the agent answered meanwhile.\<close>

theorem reachable_canned_answers_stable:
  assumes "reachable dotfile invoke env_init st_init w"
  shows "canned_consistent (conv_of w)"
  using reachable_conv_inv [OF assms] by simp

text \<open>C9: a run of the script never clears the input field: the widget keeps the text
  the user submitted, although the comment of line 160 says the field is cleared; the
  assignment \<^verbatim>\<open>user_input = ""\<close> of line 161 only rebinds a local name.\<close>

theorem run_script_keeps_input:
  assumes "run_script dotfile invoke w = (w', page, x)"
  shows "widget_user_input (w_session w') = widget_user_input (w_session w)"
  using assms by (cases rule: run_script_cases) auto

text \<open>C10: consequently a rerun with the field unchanged submits the same question
  again: two runs on a canonical question append its exchange twice.\<close>

theorem rerun_repeats_submission:
  assumes "snd (startup dotfile (w_environ w)) = None"
    and "hardcoded_qa (normalize_input (widget_user_input (w_session w))) = Some a"
    and "run_script dotfile invoke w = (w1, p1, x1)"
    and "run_script dotfile invoke w1 = (w2, p2, x2)"
  shows "conv_of w2 = conv_of w @
           [(User, widget_user_input (w_session w)), (Assistant, a),
            (User, widget_user_input (w_session w)), (Assistant, a)]"
proof -
  from run_script_canned [OF assms(1,2,3)]
  have w1: "conv_of w1 = conv_of w @ [(User, widget_user_input (w_session w)), (Assistant, a)]"
    "w_environ w1 = load_dotenv dotfile (w_environ w)"
    "widget_user_input (w_session w1) = widget_user_input (w_session w)"
    by auto
  from w1(2) assms(1) have "snd (startup dotfile (w_environ w1)) = None"
    by (simp add: startup_ok_after_load)
  from run_script_canned [OF this _ assms(4)] w1 assms(2) show ?thesis
    by simp
qed

text \<open>C20: the transcript is append-only: no step of a session removes or changes a
  turn already shown.\<close>

theorem ui_step_append_only:
  assumes "ui_step dotfile invoke w w'"
  shows "prefix (conv_of w) (conv_of w')"
  using assms
proof (cases rule: ui_step_cases_conv)
  case (run w0 page x)
  then show ?thesis by (metis run_script_prefix)
qed simp

text \<open>C21: what the browser shows after a run.  A run that completes shows the title,
  the caption and the input field, then every turn of the conversation in order, a User
  turn as \<^verbatim>\<open>**You:** <text>\<close> and an Assistant turn as
  \<^verbatim>\<open>**Assistant:** <text>\<close>.  A run that ends with an uncaught exception shows
  the exception box, below the title, caption and field when the exception came from the
  handler, and alone when it was start-up's \<^verbatim>\<open>ValueError\<close>, raised before line
  129; the conversation is then not displayed.\<close>

theorem run_script_page:
  assumes "run_script dotfile invoke w = (w', page, x)"
  shows "browser_page page x =
      (case x of
         None \<Rightarrow> map Shown (page_header (widget_user_input (w_session w)) @ map render_turn (conv_of w'))
       | Some e \<Rightarrow>
           (if snd (startup dotfile (w_environ w)) = None
            then map Shown (page_header (widget_user_input (w_session w))) else []) @ [ExceptionBox e]) \<and>
    (\<forall>t \<in> set (conv_of w'). render_turn t =
       Markdown ((if fst t = User then py ''**You:** '' else py ''**Assistant:** '') @ snd t))"
proof
  from assms show "browser_page page x =
      (case x of
         None \<Rightarrow> map Shown (page_header (widget_user_input (w_session w)) @ map render_turn (conv_of w'))
       | Some e \<Rightarrow>
           (if snd (startup dotfile (w_environ w)) = None
            then map Shown (page_header (widget_user_input (w_session w))) else []) @ [ExceptionBox e])"
    by (cases rule: run_script_cases) (auto simp: browser_page_def)
  show "\<forall>t \<in> set (conv_of w'). render_turn t =
          Markdown ((if fst t = User then py ''**You:** '' else py ''**Assistant:** '') @ snd t)"
    by (auto simp: render_turn_def split: prod.split)
qed

text \<open>C22: when start-up fails, the run ends with the \<^verbatim>\<open>ValueError\<close> before anything
  is shown; the conversation, the input field and the agent's world are untouched.\<close>

theorem run_script_startup_failure:
  assumes "\<not> py_truthy_opt (load_dotenv dotfile (w_environ w) OPENAI_API_KEY)"
  shows "run_script dotfile invoke w =
           (w\<lparr>w_environ := load_dotenv dotfile (w_environ w)\<rparr>, [], Some (ValueError missing_key_msg))"
proof -
  from assms have "snd (startup dotfile (w_environ w)) = Some (ValueError missing_key_msg)"
    by (simp add: startup_def Let_def)
  then show ?thesis by (rule run_script_startup_fails)
qed

subsection \<open>Witnesses\<close>

text \<open>The witnesses run a session whose environment holds a key, whose agent answers
  nothing, and whose user submits the third canonical question into the fresh page.\<close>

lemmas demo_session_simps = init_world_def startup_snd load_dotenv_def resolver_eval

theorem reachable_conversation_wf_witness:
  "\<exists>w. reachable Map.empty (\<lambda>(n::nat) d. (n, Returns Map.empty)) [OPENAI_API_KEY \<mapsto> py ''sk-test''] 0 w \<and>
       conv_of w = [(User, key_why_impacted), (Assistant, answer_why_impacted)] \<and>
       wf_conv (conv_of w)"
proof -
  let ?inv = "\<lambda>(n::nat) d. (n, Returns Map.empty)"
  let ?e = "[OPENAI_API_KEY \<mapsto> py ''sk-test'']"
  let ?w0 = "init_world ?e (0::nat)"
  let ?w1 = "?w0\<lparr>w_session := (w_session ?w0)\<lparr>widget_user_input := key_why_impacted\<rparr>\<rparr>"
  obtain w' page x where r: "run_script Map.empty ?inv ?w1 = (w', page, x)"
    by (metis prod_cases3)
  have ne: "key_why_impacted \<noteq> widget_user_input (w_session ?w0)"
    by (simp add: demo_session_simps)
  have reach: "reachable Map.empty ?inv ?e 0 w'"
    by (rule reachable.step [OF reachable.init ui_step.submit [OF ne r]])
  have ok: "snd (startup Map.empty (w_environ ?w1)) = None"
    by (simp add: demo_session_simps)
  have qa: "hardcoded_qa (normalize_input (widget_user_input (w_session ?w1))) = Some answer_why_impacted"
    by (simp add: demo_session_simps)
  from run_script_canned [OF ok qa r]
  have c: "conv_of w' = [(User, key_why_impacted), (Assistant, answer_why_impacted)]"
    by (simp add: conv_of_def init_world_def init_conversation_def)
  from reach c reachable_conversation_wf [OF reach] show ?thesis by blast
qed

theorem run_script_keeps_input_witness:
  "\<exists>w' page x.
     run_script Map.empty (\<lambda>(n::nat) d. (n, Returns Map.empty))
       \<lparr>w_environ = [OPENAI_API_KEY \<mapsto> py ''sk-test''], w_agent = 0,
        w_session = \<lparr>conversation = None, widget_user_input = key_why_impacted\<rparr>\<rparr> = (w', page, x) \<and>
     widget_user_input (w_session w') = key_why_impacted"
proof -
  obtain w' page x where r: "run_script Map.empty (\<lambda>(n::nat) d. (n, Returns Map.empty))
       \<lparr>w_environ = [OPENAI_API_KEY \<mapsto> py ''sk-test''], w_agent = 0,
        w_session = \<lparr>conversation = None, widget_user_input = key_why_impacted\<rparr>\<rparr> = (w', page, x)"
    by (metis prod_cases3)
  from r run_script_keeps_input [OF r] show ?thesis by auto
qed

theorem rerun_repeats_submission_witness:
  "\<exists>w1 p1 x1 w2 p2 x2.
     run_script Map.empty (\<lambda>(n::nat) d. (n, Returns Map.empty))
       \<lparr>w_environ = [OPENAI_API_KEY \<mapsto> py ''sk-test''], w_agent = 0,
        w_session = \<lparr>conversation = None, widget_user_input = key_why_impacted\<rparr>\<rparr> = (w1, p1, x1) \<and>
     run_script Map.empty (\<lambda>(n::nat) d. (n, Returns Map.empty)) w1 = (w2, p2, x2) \<and>
     conv_of w2 = [(User, key_why_impacted), (Assistant, answer_why_impacted),
                   (User, key_why_impacted), (Assistant, answer_why_impacted)]"
proof -
  let ?inv = "\<lambda>(n::nat) d. (n, Returns Map.empty)"
  let ?w = "\<lparr>w_environ = [OPENAI_API_KEY \<mapsto> py ''sk-test''], w_agent = 0::nat,
        w_session = \<lparr>conversation = None, widget_user_input = key_why_impacted\<rparr>\<rparr>"
  obtain w1 p1 x1 where r1: "run_script Map.empty ?inv ?w = (w1, p1, x1)"
    by (metis prod_cases3)
  obtain w2 p2 x2 where r2: "run_script Map.empty ?inv w1 = (w2, p2, x2)"
    by (metis prod_cases3)
  have ok: "snd (startup Map.empty (w_environ ?w)) = None"
    by (simp add: demo_session_simps)
  have qa: "hardcoded_qa (normalize_input (widget_user_input (w_session ?w))) = Some answer_why_impacted"
    by (simp add: demo_session_simps)
  from rerun_repeats_submission [OF ok qa r1 r2]
  have "conv_of w2 = [(User, key_why_impacted), (Assistant, answer_why_impacted),
                      (User, key_why_impacted), (Assistant, answer_why_impacted)]"
    by (simp add: conv_of_def init_conversation_def)
  with r1 r2 show ?thesis by blast
qed

theorem ui_step_append_only_witness:
  "\<exists>w'. ui_step Map.empty (\<lambda>(n::nat) d. (n, Returns Map.empty))
         (init_world [OPENAI_API_KEY \<mapsto> py ''sk-test''] 0) w' \<and>
       prefix (conv_of (init_world [OPENAI_API_KEY \<mapsto> py ''sk-test''] (0::nat))) (conv_of w')"
proof -
  let ?inv = "\<lambda>(n::nat) d. (n, Returns Map.empty)"
  let ?w0 = "init_world [OPENAI_API_KEY \<mapsto> py ''sk-test''] (0::nat)"
  let ?w1 = "?w0\<lparr>w_session := (w_session ?w0)\<lparr>widget_user_input := key_why_impacted\<rparr>\<rparr>"
  obtain w' page x where r: "run_script Map.empty ?inv ?w1 = (w', page, x)"
    by (metis prod_cases3)
  have ne: "key_why_impacted \<noteq> widget_user_input (w_session ?w0)"
    by (simp add: demo_session_simps)
  have st: "ui_step Map.empty ?inv ?w0 w'"
    by (rule ui_step.submit [OF ne r])
  from st ui_step_append_only [OF st] show ?thesis by blast
qed

theorem run_script_page_witness:
  "\<exists>w' page x.
     run_script Map.empty (\<lambda>(n::nat) d. (n, Raises (BaseOnlyError (py ''KeyboardInterrupt''))))
       \<lparr>w_environ = [OPENAI_API_KEY \<mapsto> py ''sk-test''], w_agent = 0,
        w_session = \<lparr>conversation = None, widget_user_input = py ''Rain?''\<rparr>\<rparr> = (w', page, x) \<and>
     browser_page page x =
       map Shown (page_header (py ''Rain?'')) @ [ExceptionBox (BaseOnlyError (py ''KeyboardInterrupt''))]"
proof -
  let ?inv = "\<lambda>(n::nat) d. (n, Raises (BaseOnlyError (py ''KeyboardInterrupt'')))"
  let ?w = "\<lparr>w_environ = [OPENAI_API_KEY \<mapsto> py ''sk-test''], w_agent = 0::nat,
        w_session = \<lparr>conversation = None, widget_user_input = py ''Rain?''\<rparr>\<rparr>"
  have r: "run_script Map.empty ?inv ?w =
      (?w\<lparr>w_session := (w_session ?w)\<lparr>conversation := Some []\<rparr>\<rparr>, page_header (py ''Rain?''),
       Some (BaseOnlyError (py ''KeyboardInterrupt'')))"
    by (simp add: run_script_def startup_def load_dotenv_def handle_input_def lookup_answer_def
        invoke_output_def init_conversation_def resolver_eval Let_def)
  have ok: "snd (startup Map.empty (w_environ ?w)) = None"
    by (simp add: demo_session_simps)
  from run_script_page [OF r] ok r show ?thesis by auto
qed

theorem run_script_startup_failure_witness:
  "\<not> py_truthy_opt (load_dotenv Map.empty Map.empty OPENAI_API_KEY) \<and>
   run_script Map.empty (\<lambda>(n::nat) d. (n, Returns Map.empty)) (init_world Map.empty 0) =
     ((init_world Map.empty 0)\<lparr>w_environ := Map.empty\<rparr>, [], Some (ValueError missing_key_msg))"
proof -
  have h: "\<not> py_truthy_opt (load_dotenv Map.empty (w_environ (init_world Map.empty (0::nat))) OPENAI_API_KEY)"
    by (simp add: demo_session_simps)
  from h run_script_startup_failure [OF h, of "\<lambda>(n::nat) d. (n, Returns Map.empty)"]
  show ?thesis by (simp add: init_world_def load_dotenv_def)
qed

theorem reachable_canned_answers_stable_witness:
  "\<exists>w. reachable Map.empty (\<lambda>(n::nat) d. (n, Returns [OUTPUT \<mapsto> py ''no idea'']))
         [OPENAI_API_KEY \<mapsto> py ''sk-test''] 0 w \<and>
       conv_of w = [(User, key_high_impact), (Assistant, answer_high_impact)] \<and>
       canned_consistent (conv_of w)"
proof -
  let ?inv = "\<lambda>(n::nat) d. (n, Returns [OUTPUT \<mapsto> py ''no idea''])"
  let ?e = "[OPENAI_API_KEY \<mapsto> py ''sk-test'']"
  let ?w0 = "init_world ?e (0::nat)"
  let ?w1 = "?w0\<lparr>w_session := (w_session ?w0)\<lparr>widget_user_input := key_high_impact\<rparr>\<rparr>"
  obtain w' page x where r: "run_script Map.empty ?inv ?w1 = (w', page, x)"
    by (metis prod_cases3)
  have ne: "key_high_impact \<noteq> widget_user_input (w_session ?w0)"
    by (simp add: demo_session_simps)
  have reach: "reachable Map.empty ?inv ?e 0 w'"
    by (rule reachable.step [OF reachable.init ui_step.submit [OF ne r]])
  have ok: "snd (startup Map.empty (w_environ ?w1)) = None"
    by (simp add: demo_session_simps)
  have qa: "hardcoded_qa (normalize_input (widget_user_input (w_session ?w1))) = Some answer_high_impact"
    by (simp add: demo_session_simps)
  from run_script_canned [OF ok qa r]
  have c: "conv_of w' = [(User, key_high_impact), (Assistant, answer_high_impact)]"
    by (simp add: conv_of_def init_world_def init_conversation_def)
  from reach c reachable_canned_answers_stable [OF reach] show ?thesis by blast
qed

end
