(* ===== verification/Server.thy ===== *)
theory Server
  imports Session
begin

text \<open>
  Several browser sessions served by one Streamlit process running \<^verbatim>\<open>src/flood.py\<close>.
  The process environment and the agent with the database behind it are shared by all
  sessions; \<^verbatim>\<open>st.session_state\<close> (the conversation and the input widget, lines
  133--138) belongs to one session.  A server state holds the shared parts and a map from
  session ids to session states.  Its events are: a new session connects (fresh session
  state), a session submits a new field value or reruns its script (one
  \<open>run_script\<close> of theory \<open>Session\<close> on that session's state and the shared parts,
  whose results are stored back), a session disconnects, and the agent's world changes on
  its own.  A run is one step: the only shared state a run touches is one call of the agent
  and the rewrite of \<^verbatim>\<open>OPENAI_API_KEY\<close> with the value it already has.
  The lemmas show that a step of one session never changes another session's state
  (specification, section 5), and that the conversation invariants of theory
  \<open>Session\<close> hold in every session of every reachable server state.
\<close>

type_synonym sid = nat

record 'st server =
  srv_environ :: environ
  srv_agent :: 'st
  srv_sessions :: "sid \<rightharpoonup> session"

datatype event = Connect sid | Submit sid pystr | Rerun sid | Disconnect sid | External

fun event_sid :: "event \<Rightarrow> sid option" where
  "event_sid (Connect i) = Some i"
| "event_sid (Submit i v) = Some i"
| "event_sid (Rerun i) = Some i"
| "event_sid (Disconnect i) = Some i"
| "event_sid External = None"

definition fresh_session :: session where
  "fresh_session = \<lparr>conversation = None, widget_user_input = []\<rparr>"

definition world_of :: "'st server \<Rightarrow> session \<Rightarrow> 'st world" where
  "world_of s sess = \<lparr>w_environ = srv_environ s, w_agent = srv_agent s, w_session = sess\<rparr>"

definition store :: "'st server \<Rightarrow> sid \<Rightarrow> 'st world \<Rightarrow> 'st server" where
  "store s i w =
     s\<lparr>srv_environ := w_environ w, srv_agent := w_agent w,
       srv_sessions := (srv_sessions s)(i \<mapsto> w_session w)\<rparr>"

inductive server_step :: "environ \<Rightarrow> 'st agent \<Rightarrow> event \<Rightarrow> 'st server \<Rightarrow> 'st server \<Rightarrow> bool"
  for dotfile :: environ and invoke :: "'st agent" where
  connect: "srv_sessions s i = None \<Longrightarrow>
    server_step dotfile invoke (Connect i) s (s\<lparr>srv_sessions := (srv_sessions s)(i \<mapsto> fresh_session)\<rparr>)"
| submit: "srv_sessions s i = Some sess \<Longrightarrow> v \<noteq> widget_user_input sess \<Longrightarrow>
    run_script dotfile invoke (world_of s (sess\<lparr>widget_user_input := v\<rparr>)) = (w', page, x) \<Longrightarrow>
    server_step dotfile invoke (Submit i v) s (store s i w')"
| rerun: "srv_sessions s i = Some sess \<Longrightarrow>
    run_script dotfile invoke (world_of s sess) = (w', page, x) \<Longrightarrow>
    server_step dotfile invoke (Rerun i) s (store s i w')"
| disconnect: "server_step dotfile invoke (Disconnect i) s (s\<lparr>srv_sessions := (srv_sessions s)(i := None)\<rparr>)"
| external: "server_step dotfile invoke External s (s\<lparr>srv_agent := st'\<rparr>)"

definition init_server :: "environ \<Rightarrow> 'st \<Rightarrow> 'st server" where
  "init_server environ st = \<lparr>srv_environ = environ, srv_agent = st, srv_sessions = Map.empty\<rparr>"

inductive server_reachable :: "environ \<Rightarrow> 'st agent \<Rightarrow> environ \<Rightarrow> 'st \<Rightarrow> 'st server \<Rightarrow> bool"
  for dotfile :: environ and invoke :: "'st agent" and env_init :: environ and st_init :: 'st where
  init: "server_reachable dotfile invoke env_init st_init (init_server env_init st_init)"
| step: "server_reachable dotfile invoke env_init st_init s \<Longrightarrow> server_step dotfile invoke ev s s' \<Longrightarrow>
    server_reachable dotfile invoke env_init st_init s'"

definition session_inv :: "session \<Rightarrow> bool" where
  "session_inv sess \<longleftrightarrow>
     wf_conv (init_conversation sess) \<and> canned_consistent (init_conversation sess)"

subsection \<open>Helper lemmas\<close>

lemma conv_of_world_of [simp]: "conv_of (world_of s sess) = init_conversation sess"
  by (simp add: conv_of_def world_of_def)

lemma init_conversation_widget [simp]:
  "init_conversation (sess\<lparr>widget_user_input := v\<rparr>) = init_conversation sess"
  by (simp add: init_conversation_def)

lemma session_inv_run:
  assumes "run_script dotfile invoke (world_of s sess) = (w', page, x)" and "session_inv sess"
  shows "session_inv (w_session w')"
  using run_script_conv_inv [OF assms(1)] assms(2)
  by (simp add: session_inv_def conv_of_def world_of_def)

lemma server_reachable_inv:
  assumes "server_reachable dotfile invoke env_init st_init s"
  shows "\<forall>i sess. srv_sessions s i = Some sess \<longrightarrow> session_inv sess"
  using assms
proof (induction rule: server_reachable.induct)
  case init
  show ?case by (simp add: init_server_def)
next
  case (step s ev s')
  from step.hyps(2) show ?case
  proof (cases rule: server_step.cases)
    case (connect i)
    with step.IH show ?thesis
      by (auto simp: session_inv_def fresh_session_def init_conversation_def)
  next
    case (submit i sess v w' page x)
    then have "session_inv (sess\<lparr>widget_user_input := v\<rparr>)"
      using step.IH by (simp add: session_inv_def)
    with submit have "session_inv (w_session w')" by (blast intro: session_inv_run)
    with submit step.IH show ?thesis by (auto simp: store_def)
  next
    case (rerun i sess w' page x)
    with step.IH have "session_inv (w_session w')" by (blast intro: session_inv_run)
    with rerun step.IH show ?thesis by (auto simp: store_def)
  next
    case (disconnect i)
    with step.IH show ?thesis by auto
  next
    case (external st')
    with step.IH show ?thesis by auto
  qed
qed

lemma server_reachable_environ:
  assumes "server_reachable dotfile invoke env_init st_init s"
  shows "srv_environ s = env_init \<or> srv_environ s = load_dotenv dotfile env_init"
  using assms
proof (induction rule: server_reachable.induct)
  case init
  show ?case by (simp add: init_server_def)
next
  case (step s ev s')
  from step.hyps(2) show ?case
  proof (cases rule: server_step.cases)
    case (submit i sess v w' page x)
    then have "srv_environ s' = load_dotenv dotfile (srv_environ s)"
      by (auto simp: store_def world_of_def dest: run_script_environ)
    with step.IH show ?thesis by auto
  next
    case (rerun i sess w' page x)
    then have "srv_environ s' = load_dotenv dotfile (srv_environ s)"
      by (auto simp: store_def world_of_def dest: run_script_environ)
    with step.IH show ?thesis by auto
  qed (use step.IH in simp_all)
qed

subsection \<open>Properties of the server\<close>

text \<open>C26: in every reachable state of the server, the conversation of every open session
  is a sequence of well-formed exchanges whose canned answers are exact.\<close>

theorem server_sessions_inv:
  assumes "server_reachable dotfile invoke env_init st_init s" and "srv_sessions s i = Some sess"
  shows "wf_conv (init_conversation sess) \<and> canned_consistent (init_conversation sess)"
  using server_reachable_inv [OF assms(1)] assms(2) by (simp add: session_inv_def)

subsection \<open>Witnesses\<close>

theorem server_sessions_inv_witness:
  "\<exists>s sess. server_reachable Map.empty (\<lambda>(n::nat) d. (n, Returns Map.empty))
              [OPENAI_API_KEY \<mapsto> py ''sk-test''] 0 s \<and>
            srv_sessions s 0 = Some sess \<and>
            init_conversation sess = [(User, key_recommendation), (Assistant, answer_recommendation)] \<and>
            wf_conv (init_conversation sess) \<and> canned_consistent (init_conversation sess)"
proof -
  let ?inv = "\<lambda>(n::nat) d. (n, Returns Map.empty)"
  let ?e = "[OPENAI_API_KEY \<mapsto> py ''sk-test'']"
  let ?s0 = "init_server ?e (0::nat)"
  let ?s1 = "?s0\<lparr>srv_sessions := (srv_sessions ?s0)(0 \<mapsto> fresh_session)\<rparr>"
  have n0: "srv_sessions ?s0 0 = None" by (simp add: init_server_def)
  have r1: "server_reachable Map.empty ?inv ?e 0 ?s1"
    by (rule server_reachable.step [OF server_reachable.init server_step.connect [OF n0]])
  have s1: "srv_sessions ?s1 0 = Some fresh_session" by simp
  have ne: "key_recommendation \<noteq> widget_user_input fresh_session"
    by (simp add: fresh_session_def key_recommendation_def)
  obtain w' page x where r: "run_script Map.empty ?inv
      (world_of ?s1 (fresh_session\<lparr>widget_user_input := key_recommendation\<rparr>)) = (w', page, x)"
    by (metis prod_cases3)
  have r2: "server_reachable Map.empty ?inv ?e 0 (store ?s1 0 w')"
    by (rule server_reachable.step [OF r1 server_step.submit [OF s1 ne r]])
  have sess: "srv_sessions (store ?s1 0 w') 0 = Some (w_session w')" by (simp add: store_def)
  have ok: "snd (startup Map.empty (w_environ (world_of ?s1 (fresh_session\<lparr>widget_user_input := key_recommendation\<rparr>)))) = None"
    by (simp add: world_of_def init_server_def demo_session_simps)
  have qa: "hardcoded_qa (normalize_input (widget_user_input (w_session
      (world_of ?s1 (fresh_session\<lparr>widget_user_input := key_recommendation\<rparr>))))) = Some answer_recommendation"
    by (simp add: world_of_def resolver_eval)
  from run_script_canned [OF ok qa r]
  have c: "init_conversation (w_session w') = [(User, key_recommendation), (Assistant, answer_recommendation)]"
    by (simp add: conv_of_def world_of_def fresh_session_def init_conversation_def)
  from server_sessions_inv [OF r2 sess] r2 sess c show ?thesis by blast
qed

end
