(* ===== verification/Concurrent.thy ===== *)
theory Concurrent
  imports Server
begin

text \<open>
  Concurrent runs.  Streamlit executes each session's run of \<^verbatim>\<open>src/flood.py\<close> in a
  thread of its own, and the agent call of line 153 is blocking network and database
  work, so the runs of different sessions interleave.  A run touches shared state in two
  places only: the start-up of lines 15--20 (\<^verbatim>\<open>load_dotenv()\<close> and the write of
  \<^verbatim>\<open>OPENAI_API_KEY\<close> into \<^verbatim>\<open>os.environ\<close>) and the agent call.  The theory splits
  a run at the agent call: \<open>run_prefix\<close> is the start-up of lines 15--20 and the
  initialisation of the conversation of lines 133--135 (the header it draws in between is
  \<open>page_header\<close>), \<open>run_suffix\<close> is lines 140--168 (the handler
  with its agent call, and the display loop).  The concurrent server \<open>cserver_step\<close>
  lets a session begin a run (its prefix), and lets any running session finish (its
  suffix) at any later point, with the steps of other sessions in between.  A run whose
  start-up fails ends at once, as in theory \<open>Session\<close>.  A new value typed into a
  session's field while its run has not reached the handler supersedes the run: Streamlit
  stops it at its next call of an \<^verbatim>\<open>st\<close> function (the field of line 138) and
  starts a new run with the new value, so the old value is never handled
  (\<open>supersede\<close>).  A new value that arrives once the agent call is under way takes
  effect when the run stops at the display loop, after the handler's appends, which is
  the same state change as \<open>finish\<close> followed by \<open>start\<close>.  Each part is one atomic step:
  the start-up writes only the values \<^verbatim>\<open>load_dotenv\<close> would write anyway, and the
  agent is an interface whose calls are atomic.

  The lemmas relate the concurrent server to the server of theory \<open>Server\<close>, whose
  runs are atomic, by a simulation (\<open>c_sim\<close>, \<open>c_reachable_sim\<close>) in which starting
  or superseding a run is a stuttering step and finishing it is one atomic run; through it
  the conversation invariants of the server hold in every session under concurrency, a
  session with a run in progress included.
\<close>

definition run_prefix :: "environ \<Rightarrow> 'st world \<Rightarrow> 'st world" where
  "run_prefix dotfile w =
     w\<lparr>w_environ := fst (startup dotfile (w_environ w)),
       w_session := (w_session w)\<lparr>conversation := Some (init_conversation (w_session w))\<rparr>\<rparr>"

definition run_suffix :: "'st agent \<Rightarrow> 'st world \<Rightarrow> 'st world \<times> element list \<times> exn option" where
  "run_suffix invoke w =
     (let sess = w_session w;
          v = widget_user_input sess;
          conv0 = init_conversation sess
      in case handle_input invoke (w_agent w) conv0 v of
           (st', Inl e) \<Rightarrow> (w\<lparr>w_agent := st'\<rparr>, [], Some e)
         | (st', Inr conv) \<Rightarrow>
             (w\<lparr>w_agent := st', w_session := sess\<lparr>conversation := Some conv\<rparr>\<rparr>,
              map render_turn conv, None))"

text \<open>A run is requested by a new value of the input field or by a rerun.\<close>

datatype request = Submitted pystr | Reran

fun request_session :: "session \<Rightarrow> request \<Rightarrow> session" where
  "request_session sess (Submitted v) = sess\<lparr>widget_user_input := v\<rparr>"
| "request_session sess Reran = sess"

fun request_ok :: "session \<Rightarrow> request \<Rightarrow> bool" where
  "request_ok sess (Submitted v) = (v \<noteq> widget_user_input sess)"
| "request_ok sess Reran = True"

fun request_event :: "sid \<Rightarrow> request \<Rightarrow> event" where
  "request_event i (Submitted v) = Submit i v"
| "request_event i Reran = Rerun i"

text \<open>When a run is superseded, the request that the new run answers, seen from the session
  state before the superseded run: a new field value, or a rerun when the user has typed
  the old value back.  This is bookkeeping of the simulation below, not program state.\<close>

definition merge_request :: "session \<Rightarrow> pystr \<Rightarrow> request" where
  "merge_request sess v = (if v = widget_user_input sess then Reran else Submitted v)"

text \<open>The concurrent server: the server state, and for each session with a run in
  progress, the session state before the run and the request that started it.\<close>

record 'st cserver =
  c_server :: "'st server"
  c_running :: "sid \<rightharpoonup> session \<times> request"

text \<open>Events that do not run the script: connecting, disconnecting a session that is not
  running, and an outside change of the agent's world.\<close>

fun idle_event :: "'st cserver \<Rightarrow> event \<Rightarrow> bool" where
  "idle_event c (Connect i) = True"
| "idle_event c (Disconnect i) = (c_running c i = None)"
| "idle_event c External = True"
| "idle_event c (Submit i v) = False"
| "idle_event c (Rerun i) = False"

inductive cserver_step :: "environ \<Rightarrow> 'st agent \<Rightarrow> 'st cserver \<Rightarrow> 'st cserver \<Rightarrow> bool"
  for dotfile :: environ and invoke :: "'st agent" where
  idle: "server_step dotfile invoke ev (c_server c) s' \<Longrightarrow> idle_event c ev \<Longrightarrow>
    cserver_step dotfile invoke c (c\<lparr>c_server := s'\<rparr>)"
| start: "c_running c i = None \<Longrightarrow> srv_sessions (c_server c) i = Some sess \<Longrightarrow>
    request_ok sess req \<Longrightarrow> snd (startup dotfile (srv_environ (c_server c))) = None \<Longrightarrow>
    cserver_step dotfile invoke c
      \<lparr>c_server = store (c_server c) i
          (run_prefix dotfile (world_of (c_server c) (request_session sess req))),
       c_running = (c_running c)(i \<mapsto> (sess, req))\<rparr>"
| crash: "c_running c i = None \<Longrightarrow> srv_sessions (c_server c) i = Some sess \<Longrightarrow>
    request_ok sess req \<Longrightarrow> snd (startup dotfile (srv_environ (c_server c))) = Some e \<Longrightarrow>
    run_script dotfile invoke (world_of (c_server c) (request_session sess req)) = (w', page, x) \<Longrightarrow>
    cserver_step dotfile invoke c (c\<lparr>c_server := store (c_server c) i w'\<rparr>)"
| finish: "c_running c i = Some r \<Longrightarrow> srv_sessions (c_server c) i = Some sess \<Longrightarrow>
    run_suffix invoke (world_of (c_server c) sess) = (w', page, x) \<Longrightarrow>
    cserver_step dotfile invoke c
      \<lparr>c_server = store (c_server c) i w', c_running = (c_running c)(i := None)\<rparr>"
| supersede: "c_running c i = Some (sess0, req) \<Longrightarrow> srv_sessions (c_server c) i = Some sess \<Longrightarrow>
    v \<noteq> widget_user_input sess \<Longrightarrow> snd (startup dotfile (srv_environ (c_server c))) = None \<Longrightarrow>
    cserver_step dotfile invoke c
      \<lparr>c_server = store (c_server c) i
          (run_prefix dotfile (world_of (c_server c) (sess\<lparr>widget_user_input := v\<rparr>))),
       c_running = (c_running c)(i \<mapsto> (sess0, merge_request sess0 v))\<rparr>"

definition init_cserver :: "environ \<Rightarrow> 'st \<Rightarrow> 'st cserver" where
  "init_cserver environ st = \<lparr>c_server = init_server environ st, c_running = Map.empty\<rparr>"

inductive c_reachable :: "environ \<Rightarrow> 'st agent \<Rightarrow> environ \<Rightarrow> 'st \<Rightarrow> 'st cserver \<Rightarrow> bool"
  for dotfile :: environ and invoke :: "'st agent" and env_init :: environ and st_init :: 'st where
  init: "c_reachable dotfile invoke env_init st_init (init_cserver env_init st_init)"
| step: "c_reachable dotfile invoke env_init st_init c \<Longrightarrow> cserver_step dotfile invoke c c' \<Longrightarrow>
    c_reachable dotfile invoke env_init st_init c'"

text \<open>The simulation between the concurrent server and the server with atomic runs: the
  agent's world is the same; the environment is the same, or, while a run is in
  progress, the one \<^verbatim>\<open>load_dotenv\<close> makes of it; a session with no run in
  progress is the same; a session with a run in progress is, on the atomic side, still in
  the state before the run, and on the concurrent side in the state the prefix left.\<close>

definition started_session :: "session \<Rightarrow> request \<Rightarrow> session" where
  "started_session sess req =
     (request_session sess req)\<lparr>conversation := Some (init_conversation (request_session sess req))\<rparr>"

definition c_sim :: "environ \<Rightarrow> 'st cserver \<Rightarrow> 'st server \<Rightarrow> bool" where
  "c_sim dotfile c s \<longleftrightarrow>
     srv_agent (c_server c) = srv_agent s \<and>
     (srv_environ (c_server c) = srv_environ s \<or>
      srv_environ (c_server c) = load_dotenv dotfile (srv_environ s) \<and> c_running c \<noteq> Map.empty) \<and>
     (c_running c \<noteq> Map.empty \<longrightarrow>
        load_dotenv dotfile (srv_environ (c_server c)) = srv_environ (c_server c) \<and>
        snd (startup dotfile (srv_environ (c_server c))) = None) \<and>
     (\<forall>i. c_running c i = None \<longrightarrow> srv_sessions (c_server c) i = srv_sessions s i) \<and>
     (\<forall>i sess req. c_running c i = Some (sess, req) \<longrightarrow>
        srv_sessions s i = Some sess \<and> request_ok sess req \<and>
        srv_sessions (c_server c) i = Some (started_session sess req))"

subsection \<open>The split of a run\<close>

lemma init_conversation_set [simp]:
  "init_conversation (sess\<lparr>conversation := Some c\<rparr>) = c"
  by (simp add: init_conversation_def)

lemma run_suffix_environ:
  "run_suffix invoke (w\<lparr>w_environ := e\<rparr>) =
     (case run_suffix invoke w of (w', page, x) \<Rightarrow> (w'\<lparr>w_environ := e\<rparr>, page, x))"
  by (simp add: run_suffix_def Let_def split: prod.split sum.split)

lemma run_suffix_keeps_environ:
  "run_suffix invoke w = (w', page, x) \<Longrightarrow> w_environ w' = w_environ w"
  by (auto simp: run_suffix_def Let_def split: prod.splits sum.splits)

lemma run_script_split:
  assumes "snd (startup dotfile (w_environ w)) = None"
  shows "run_script dotfile invoke w =
    (case run_suffix invoke (run_prefix dotfile w) of
       (w', page, x) \<Rightarrow> (w', page_header (widget_user_input (w_session w)) @ page, x))"
  using assms
  by (simp add: run_script_started run_suffix_def run_prefix_def startup_env conv_of_def Let_def
      split: prod.split sum.split)

lemma w_session_run_prefix [simp]:
  "w_session (run_prefix dotfile (world_of s (request_session sess req))) = started_session sess req"
  by (simp add: run_prefix_def world_of_def started_session_def)

lemma run_prefix_world_of [simp]:
  "w_environ (run_prefix dotfile (world_of s sess)) = load_dotenv dotfile (srv_environ s)"
  "w_agent (run_prefix dotfile (world_of s sess)) = srv_agent s"
  by (simp_all add: run_prefix_def world_of_def startup_env)

lemma request_step:
  assumes "srv_sessions s i = Some sess" and "request_ok sess req"
    and "run_script dotfile invoke (world_of s (request_session sess req)) = (w', page, x)"
  shows "server_step dotfile invoke (request_event i req) s (store s i w')"
  using assms by (cases req) (auto intro: server_step.submit server_step.rerun)

lemma startup_snd_load_eq:
  "load_dotenv dotfile e1 = load_dotenv dotfile e2 \<Longrightarrow>
   snd (startup dotfile e1) = snd (startup dotfile e2)"
  by (simp add: startup_snd)

lemma c_sim_env: "c_sim dotfile c s \<Longrightarrow>
    load_dotenv dotfile (srv_environ (c_server c)) = load_dotenv dotfile (srv_environ s)"
  unfolding c_sim_def by (metis load_dotenv_idem)

subsection \<open>The simulation\<close>

lemma c_sim_init: "c_sim dotfile (init_cserver env st) (init_server env st)"
  by (simp add: c_sim_def init_cserver_def)

lemma c_sim_idle:
  assumes "server_step dotfile invoke ev (c_server c) s1" and "idle_event c ev" and "c_sim dotfile c s"
  shows "\<exists>s'. server_step dotfile invoke ev s s' \<and> c_sim dotfile (c\<lparr>c_server := s1\<rparr>) s'"
  using assms(1)
proof (cases rule: server_step.cases)
  case (connect i)
  with assms(3) have "srv_sessions s i = None"
    by (cases "c_running c i") (auto simp: c_sim_def)
  then have "server_step dotfile invoke ev s (s\<lparr>srv_sessions := (srv_sessions s)(i \<mapsto> fresh_session)\<rparr>)"
    using connect by (simp add: server_step.connect)
  with connect assms(3) show ?thesis
    by (intro exI [of _ "s\<lparr>srv_sessions := (srv_sessions s)(i \<mapsto> fresh_session)\<rparr>"])
      (fastforce simp: c_sim_def)
next
  case (disconnect i)
  with assms(2,3) show ?thesis
    by (intro exI [of _ "s\<lparr>srv_sessions := (srv_sessions s)(i := None)\<rparr>"])
      (fastforce simp: c_sim_def intro: server_step.disconnect)
next
  case (external st')
  with assms(3) show ?thesis
    by (intro exI [of _ "s\<lparr>srv_agent := st'\<rparr>"]) (auto simp: c_sim_def intro: server_step.external)
qed (use assms(2) in simp_all)

lemma c_sim_start:
  assumes "c_running c i = None" and "srv_sessions (c_server c) i = Some sess"
    and "request_ok sess req" and "snd (startup dotfile (srv_environ (c_server c))) = None"
    and "c_sim dotfile c s"
  shows "c_sim dotfile
    \<lparr>c_server = store (c_server c) i (run_prefix dotfile (world_of (c_server c) (request_session sess req))),
     c_running = (c_running c)(i \<mapsto> (sess, req))\<rparr> s"
proof -
  let ?E = "srv_environ (c_server c)"
  from assms(5) have env: "load_dotenv dotfile ?E = load_dotenv dotfile (srv_environ s)"
    unfolding c_sim_def by (metis load_dotenv_idem)
  from assms(1,2,5) have sess: "srv_sessions s i = Some sess"
    by (simp add: c_sim_def)
  from assms(5) have others: "\<forall>j. c_running c j = None \<longrightarrow> srv_sessions (c_server c) j = srv_sessions s j"
    and running: "\<forall>j sess req. c_running c j = Some (sess, req) \<longrightarrow>
        srv_sessions s j = Some sess \<and> request_ok sess req \<and>
        srv_sessions (c_server c) j = Some (started_session sess req)"
    and agent: "srv_agent (c_server c) = srv_agent s"
    by (simp_all add: c_sim_def)
  from assms(4) have ok: "snd (startup dotfile (load_dotenv dotfile ?E)) = None"
    by (simp add: startup_ok_after_load)
  show ?thesis
    unfolding c_sim_def using env sess others running agent ok assms(3)
    by (simp add: store_def)
qed

lemma c_sim_crash:
  assumes "c_running c i = None" and "srv_sessions (c_server c) i = Some sess"
    and "request_ok sess req" and "snd (startup dotfile (srv_environ (c_server c))) = Some e"
    and "run_script dotfile invoke (world_of (c_server c) (request_session sess req)) = (w', page, x)"
    and "c_sim dotfile c s"
  shows "\<exists>s'. server_step dotfile invoke (request_event i req) s s' \<and>
    c_sim dotfile (c\<lparr>c_server := store (c_server c) i w'\<rparr>) s'"
proof -
  let ?ws = "world_of s (request_session sess req)"
  obtain ws' page' x' where r: "run_script dotfile invoke ?ws = (ws', page', x')"
    by (metis prod_cases3)
  from assms(6) have env: "load_dotenv dotfile (srv_environ (c_server c)) =
      load_dotenv dotfile (srv_environ s)"
    by (rule c_sim_env)
  from assms(1,2,6) have sess: "srv_sessions s i = Some sess"
    by (simp add: c_sim_def)
  from assms(4,6) have idle: "c_running c = Map.empty"
    by (auto simp: c_sim_def)
  from assms(4) env have "snd (startup dotfile (srv_environ s)) = Some e"
    by (metis startup_snd_load_eq)
  then have ws': "ws' = ?ws\<lparr>w_environ := load_dotenv dotfile (srv_environ s)\<rparr>"
    using r by (simp add: run_script_startup_fails world_of_def)
  from assms(4,5) have w': "w' = world_of (c_server c) (request_session sess req)
      \<lparr>w_environ := load_dotenv dotfile (srv_environ (c_server c))\<rparr>"
    by (simp add: run_script_startup_fails world_of_def)
  from assms(6) idle have "\<forall>j. srv_sessions (c_server c) j = srv_sessions s j"
    and "srv_agent (c_server c) = srv_agent s"
    by (simp_all add: c_sim_def)
  with env idle ws' w' have "c_sim dotfile (c\<lparr>c_server := store (c_server c) i w'\<rparr>) (store s i ws')"
    by (simp add: c_sim_def store_def world_of_def)
  with request_step [OF sess assms(3) r] show ?thesis by blast
qed

lemma c_sim_finish:
  assumes "c_running c i = Some (sess, req)" and "srv_sessions (c_server c) i = Some sess_c"
    and "run_suffix invoke (world_of (c_server c) sess_c) = (w', page, x)"
    and "c_sim dotfile c s"
  shows "\<exists>s'. server_step dotfile invoke (request_event i req) s s' \<and>
    c_sim dotfile \<lparr>c_server = store (c_server c) i w', c_running = (c_running c)(i := None)\<rparr> s'"
proof -
  let ?E = "srv_environ (c_server c)" and ?S = "srv_environ s"
  let ?ws = "world_of s (request_session sess req)"
  from assms(1,2,4) have sess: "srv_sessions s i = Some sess" and ok: "request_ok sess req"
    and sess_c: "sess_c = started_session sess req"
    by (auto simp: c_sim_def)
  from assms(1,4) have idemE: "load_dotenv dotfile ?E = ?E"
    and okE: "snd (startup dotfile ?E) = None"
    by (auto simp: c_sim_def)
  from assms(4) idemE have E: "?E = load_dotenv dotfile ?S"
    by (metis c_sim_env)
  from okE E have okS: "snd (startup dotfile ?S) = None"
    by (simp add: startup_ok_after_load)
  from assms(4) have agent: "srv_agent (c_server c) = srv_agent s"
    by (simp add: c_sim_def)
  have "run_prefix dotfile ?ws = (world_of (c_server c) sess_c)\<lparr>w_environ := ?E\<rparr>"
    using E agent sess_c by (simp add: run_prefix_def world_of_def startup_env started_session_def)
  then have "run_suffix invoke (run_prefix dotfile ?ws) = (w', page, x)"
    using assms(3) run_suffix_keeps_environ [OF assms(3)] by (simp add: run_suffix_environ world_of_def)
  with okS have r: "run_script dotfile invoke ?ws = (w', page_header (widget_user_input (request_session sess req)) @ page, x)"
    by (simp add: run_script_split world_of_def)
  from assms(4) have others: "\<forall>j. c_running c j = None \<longrightarrow> srv_sessions (c_server c) j = srv_sessions s j"
    and running: "\<forall>j sess req. c_running c j = Some (sess, req) \<longrightarrow>
        srv_sessions s j = Some sess \<and> request_ok sess req \<and>
        srv_sessions (c_server c) j = Some (started_session sess req)"
    by (simp_all add: c_sim_def)
  have "c_sim dotfile \<lparr>c_server = store (c_server c) i w', c_running = (c_running c)(i := None)\<rparr>
      (store s i w')"
    unfolding c_sim_def using others running idemE okE run_suffix_keeps_environ [OF assms(3)]
    by (simp add: store_def world_of_def)
  with request_step [OF sess ok r] show ?thesis by blast
qed

lemma c_sim_supersede:
  assumes "c_running c i = Some (sess0, req)" and "srv_sessions (c_server c) i = Some sess"
    and "c_sim dotfile c s"
  shows "c_sim dotfile
    \<lparr>c_server = store (c_server c) i
        (run_prefix dotfile (world_of (c_server c) (sess\<lparr>widget_user_input := v\<rparr>))),
     c_running = (c_running c)(i \<mapsto> (sess0, merge_request sess0 v))\<rparr> s"
proof -
  let ?E = "srv_environ (c_server c)"
  from assms have s0: "srv_sessions s i = Some sess0" and sess: "sess = started_session sess0 req"
    by (auto simp: c_sim_def)
  from assms(1,3) have idemE: "load_dotenv dotfile ?E = ?E"
    and okE: "snd (startup dotfile ?E) = None"
    by (auto simp: c_sim_def)
  from assms(3) have others: "\<forall>j. c_running c j = None \<longrightarrow> srv_sessions (c_server c) j = srv_sessions s j"
    and running: "\<forall>j sess req. c_running c j = Some (sess, req) \<longrightarrow>
        srv_sessions s j = Some sess \<and> request_ok sess req \<and>
        srv_sessions (c_server c) j = Some (started_session sess req)"
    and agent: "srv_agent (c_server c) = srv_agent s"
    and env: "srv_environ (c_server c) = srv_environ s \<or>
      srv_environ (c_server c) = load_dotenv dotfile (srv_environ s) \<and> c_running c \<noteq> Map.empty"
    by (simp_all add: c_sim_def)
  have ok: "request_ok sess0 (merge_request sess0 v)"
    by (simp add: merge_request_def)
  have new: "(sess\<lparr>widget_user_input := v\<rparr>)\<lparr>conversation := Some (init_conversation sess)\<rparr> =
      started_session sess0 (merge_request sess0 v)"
    using sess by (cases req) (simp_all add: started_session_def merge_request_def)
  show ?thesis
    unfolding c_sim_def using others running agent env idemE okE s0 ok new assms(1)
    by (auto simp: store_def run_prefix_def world_of_def startup_env)
qed

lemma c_reachable_sim:
  "c_reachable dotfile invoke env_init st_init c \<Longrightarrow>
   \<exists>s. server_reachable dotfile invoke env_init st_init s \<and> c_sim dotfile c s"
proof (induction rule: c_reachable.induct)
  case init
  show ?case by (blast intro: server_reachable.init c_sim_init)
next
  case (step c c')
  then obtain s where reach: "server_reachable dotfile invoke env_init st_init s"
    and sim: "c_sim dotfile c s"
    by blast
  from step.hyps(2) show ?case
  proof (cases rule: cserver_step.cases)
    case (idle ev s1)
    with sim show ?thesis by (blast dest: c_sim_idle intro: server_reachable.step [OF reach])
  next
    case (start i sess req)
    with sim reach show ?thesis by (blast dest: c_sim_start)
  next
    case (crash i sess req e w' page x)
    with sim show ?thesis by (blast dest: c_sim_crash intro: server_reachable.step [OF reach])
  next
    case (finish i r sess w' page x)
    with sim show ?thesis
      by (cases r) (blast dest: c_sim_finish intro: server_reachable.step [OF reach])
  next
    case (supersede i sess0 req sess v)
    with sim reach show ?thesis by (blast dest: c_sim_supersede)
  qed
qed

lemma c_sim_idle_eq:
  "c_sim dotfile c s \<Longrightarrow> c_running c = Map.empty \<Longrightarrow> c_server c = s"
  by (rule server.equality) (auto simp: c_sim_def)

lemma init_conversation_request [simp]:
  "init_conversation (request_session sess req) = init_conversation sess"
  by (cases req) simp_all

lemma started_session_conv [simp]:
  "init_conversation (started_session sess req) = init_conversation sess"
  by (simp add: started_session_def)

subsection \<open>Properties of concurrent runs\<close>

text \<open>C28: the conversation invariants hold under concurrency: in every state the
  concurrent server reaches, the conversation of every session, with a run in progress or
  not, is a sequence of well-formed exchanges whose canned answers are exact.\<close>

theorem cserver_sessions_inv:
  assumes "c_reachable dotfile invoke env_init st_init c"
    and "srv_sessions (c_server c) i = Some sess"
  shows "wf_conv (init_conversation sess) \<and> canned_consistent (init_conversation sess)"
proof -
  obtain s where reach: "server_reachable dotfile invoke env_init st_init s"
    and sim: "c_sim dotfile c s"
    using c_reachable_sim [OF assms(1)] by blast
  have "\<exists>p. srv_sessions s i = Some p \<and> init_conversation p = init_conversation sess"
  proof (cases "c_running c i")
    case None
    with sim assms(2) show ?thesis by (simp add: c_sim_def)
  next
    case (Some r)
    with sim assms(2) show ?thesis by (cases r) (auto simp: c_sim_def)
  qed
  then obtain p where "srv_sessions s i = Some p" and "init_conversation p = init_conversation sess"
    by blast
  with server_reachable_inv [OF reach] show ?thesis
    by (metis session_inv_def)
qed

subsection \<open>Witnesses\<close>

text \<open>A concrete interleaving: two sessions connect, both submit a question, both runs
  reach the agent call, and the second run finishes before the first.\<close>

lemma demo_interleaving:
  "\<exists>c4 c6.
     c_reachable Map.empty (\<lambda>(n::nat) d. (n + 1, Returns [OUTPUT \<mapsto> py ''ok''])) [OPENAI_API_KEY \<mapsto> py ''k''] 0 c4 \<and>
     c_running c4 0 \<noteq> None \<and> c_running c4 1 \<noteq> None \<and>
     srv_sessions (c_server c4) 0 = Some (started_session fresh_session (Submitted (py ''Rain?''))) \<and>
     c_reachable Map.empty (\<lambda>(n::nat) d. (n + 1, Returns [OUTPUT \<mapsto> py ''ok''])) [OPENAI_API_KEY \<mapsto> py ''k''] 0 c6 \<and>
     c_running c6 = Map.empty \<and> srv_agent (c_server c6) = 2"
proof -
  let ?e = "[OPENAI_API_KEY \<mapsto> py ''k'']"
  let ?inv = "\<lambda>(n::nat) d. (n + 1, Returns [OUTPUT \<mapsto> py ''ok''])"
  let ?q0 = "py ''Rain?''" and ?q1 = "py ''Wadi?''"
  have ok: "snd (startup Map.empty ?e) = None"
    by (simp add: startup_snd load_dotenv_def)
  define c0 where "c0 = (init_cserver ?e (0::nat))"
  have r0: "c_reachable Map.empty ?inv ?e 0 c0" unfolding c0_def by (rule c_reachable.init)
  define c1 where "c1 = c0\<lparr>c_server := (c_server c0)\<lparr>srv_sessions := (srv_sessions (c_server c0))(0 \<mapsto> fresh_session)\<rparr>\<rparr>"
  have "server_step Map.empty ?inv (Connect 0) (c_server c0) ((c_server c0)\<lparr>srv_sessions := (srv_sessions (c_server c0))(0 \<mapsto> fresh_session)\<rparr>)"
    by (rule server_step.connect) (simp add: c0_def init_cserver_def init_server_def)
  then have r1: "c_reachable Map.empty ?inv ?e 0 c1"
    unfolding c1_def by (rule c_reachable.step [OF r0 cserver_step.idle]) simp
  define c2 where "c2 = c1\<lparr>c_server := (c_server c1)\<lparr>srv_sessions := (srv_sessions (c_server c1))(1 \<mapsto> fresh_session)\<rparr>\<rparr>"
  have "server_step Map.empty ?inv (Connect 1) (c_server c1) ((c_server c1)\<lparr>srv_sessions := (srv_sessions (c_server c1))(1 \<mapsto> fresh_session)\<rparr>)"
    by (rule server_step.connect) (simp add: c1_def c0_def init_cserver_def init_server_def)
  then have r2: "c_reachable Map.empty ?inv ?e 0 c2"
    unfolding c2_def by (rule c_reachable.step [OF r1 cserver_step.idle]) simp
  have c2: "c_running c2 = Map.empty" "srv_sessions (c_server c2) = [0 \<mapsto> fresh_session, 1 \<mapsto> fresh_session]"
    "srv_environ (c_server c2) = ?e" "srv_agent (c_server c2) = 0"
    by (simp_all add: c2_def c1_def c0_def init_cserver_def init_server_def)
  define c3 where "c3 = \<lparr>c_server = store (c_server c2) 0 (run_prefix Map.empty (world_of (c_server c2) (request_session fresh_session (Submitted ?q0)))),
       c_running = (c_running c2)(0 \<mapsto> (fresh_session, Submitted ?q0))\<rparr>"
  have r3: "c_reachable Map.empty ?inv ?e 0 c3"
    unfolding c3_def by (rule c_reachable.step [OF r2 cserver_step.start]) (simp_all add: c2 fresh_session_def startup_snd load_dotenv_def)
  have c3: "c_running c3 = [0 \<mapsto> (fresh_session, Submitted ?q0)]"
    "srv_sessions (c_server c3) = [0 \<mapsto> started_session fresh_session (Submitted ?q0), 1 \<mapsto> fresh_session]"
    "srv_environ (c_server c3) = ?e" "srv_agent (c_server c3) = 0"
    by (simp_all add: c3_def c2 store_def load_dotenv_def run_prefix_def world_of_def started_session_def startup_env fun_upd_twist)
  define c4 where "c4 = \<lparr>c_server = store (c_server c3) 1 (run_prefix Map.empty (world_of (c_server c3) (request_session fresh_session (Submitted ?q1)))),
       c_running = (c_running c3)(1 \<mapsto> (fresh_session, Submitted ?q1))\<rparr>"
  have r4: "c_reachable Map.empty ?inv ?e 0 c4"
    unfolding c4_def by (rule c_reachable.step [OF r3 cserver_step.start]) (simp_all add: c3 fresh_session_def startup_snd load_dotenv_def)
  have c4: "c_running c4 = [0 \<mapsto> (fresh_session, Submitted ?q0), 1 \<mapsto> (fresh_session, Submitted ?q1)]"
    "srv_sessions (c_server c4) = [0 \<mapsto> started_session fresh_session (Submitted ?q0), 1 \<mapsto> started_session fresh_session (Submitted ?q1)]"
    "srv_environ (c_server c4) = ?e" "srv_agent (c_server c4) = 0"
    by (simp_all add: c4_def c3 store_def load_dotenv_def run_prefix_def world_of_def started_session_def startup_env fun_upd_twist)
  obtain w5 p5 x5 where f5: "run_suffix ?inv (world_of (c_server c4) (started_session fresh_session (Submitted ?q1))) = (w5, p5, x5)"
    by (metis prod_cases3)
  define c5 where "c5 = \<lparr>c_server = store (c_server c4) 1 w5, c_running = (c_running c4)(1 := None)\<rparr>"
  have r5: "c_reachable Map.empty ?inv ?e 0 c5"
    unfolding c5_def by (rule c_reachable.step [OF r4 cserver_step.finish [OF _ _ f5]]) (simp_all add: c4)
  have w5: "w_agent w5 = 1" "w_environ w5 = ?e"
    using f5 by (auto simp: run_suffix_def world_of_def c4 handle_input_def lookup_answer_def invoke_output_def resolver_eval started_session_def fresh_session_def Let_def)
  have c5: "c_running c5 = [0 \<mapsto> (fresh_session, Submitted ?q0)]"
    "srv_sessions (c_server c5) 0 = Some (started_session fresh_session (Submitted ?q0))"
    "srv_environ (c_server c5) = ?e" "srv_agent (c_server c5) = 1"
    by (simp_all add: c5_def c4 store_def w5 fun_eq_iff)
  obtain w6 p6 x6 where f6: "run_suffix ?inv (world_of (c_server c5) (started_session fresh_session (Submitted ?q0))) = (w6, p6, x6)"
    by (metis prod_cases3)
  define c6 where "c6 = \<lparr>c_server = store (c_server c5) 0 w6, c_running = (c_running c5)(0 := None)\<rparr>"
  have r6: "c_reachable Map.empty ?inv ?e 0 c6"
    unfolding c6_def by (rule c_reachable.step [OF r5 cserver_step.finish [OF _ _ f6]]) (simp_all add: c5)
  have w6: "w_agent w6 = 2"
    using f6 by (auto simp: run_suffix_def world_of_def c5 handle_input_def lookup_answer_def invoke_output_def resolver_eval started_session_def fresh_session_def Let_def)
  have c6: "c_running c6 = Map.empty" "srv_agent (c_server c6) = 2"
    by (simp_all add: c6_def c5 store_def w6)
  from r4 c4 r6 c6 show ?thesis by auto
qed

theorem cserver_sessions_inv_witness:
  "\<exists>c sess. c_reachable Map.empty (\<lambda>(n::nat) d. (n + 1, Returns [OUTPUT \<mapsto> py ''ok''])) [OPENAI_API_KEY \<mapsto> py ''k''] 0 c \<and>
     c_running c 0 \<noteq> None \<and> srv_sessions (c_server c) 0 = Some sess \<and>
     wf_conv (init_conversation sess) \<and> canned_consistent (init_conversation sess)"
proof -
  obtain c where r: "c_reachable Map.empty (\<lambda>(n::nat) d. (n + 1, Returns [OUTPUT \<mapsto> py ''ok''])) [OPENAI_API_KEY \<mapsto> py ''k''] 0 c"
    and run: "c_running c 0 \<noteq> None"
    and s: "srv_sessions (c_server c) 0 = Some (started_session fresh_session (Submitted (py ''Rain?'')))"
    using demo_interleaving by blast
  from cserver_sessions_inv [OF r s] r run s show ?thesis by blast
qed

end
