(* ===== verification/Actions.thy ===== *)
theory Actions
  imports Session
begin

text \<open>
  A session driven by an explicit sequence of user actions.  Streamlit turns each action of
  the user into at most one run of \<^verbatim>\<open>src/flood.py\<close>: typing a new value into the
  field reruns the script with that value (typing the value the field already holds
  changes nothing and triggers no run), the app's Rerun command reruns the script with the field
  unchanged, and the agent's world may change between runs.  \<open>act\<close> is one action,
  \<open>run_actions\<close> a whole sequence, an executable function of the initial world.
  The lemmas show that the states the driver produces are exactly the reachable states of
  the step relation \<open>ui_step\<close> of theory \<open>Session\<close>, and that with a configured
  key and an agent that always answers, the questions typed in order appear in the
  transcript in that order, each followed by its answer, and that for every agent each
  typed question gets one segment of the contract \<open>run_reply\<close>: a reply of
  \<open>reply_segment\<close>, or nothing when a \<^verbatim>\<open>BaseException\<close> ended the run.
\<close>

datatype 'st action = Type pystr | RerunCommand | AgentChange 'st

fun act :: "environ \<Rightarrow> 'st agent \<Rightarrow> 'st world \<Rightarrow> 'st action \<Rightarrow> 'st world" where
  "act dotfile invoke w (Type v) =
     (if v = widget_user_input (w_session w) then w
      else fst (run_script dotfile invoke (w\<lparr>w_session := (w_session w)\<lparr>widget_user_input := v\<rparr>\<rparr>)))"
| "act dotfile invoke w RerunCommand = fst (run_script dotfile invoke w)"
| "act dotfile invoke w (AgentChange st) = w\<lparr>w_agent := st\<rparr>"

definition run_actions :: "environ \<Rightarrow> 'st agent \<Rightarrow> 'st world \<Rightarrow> 'st action list \<Rightarrow> 'st world" where
  "run_actions dotfile invoke w acts = foldl (act dotfile invoke) w acts"

text \<open>The questions of a transcript, in order, and the transcript of a sequence of
  answered questions.\<close>

definition questions :: "turn list \<Rightarrow> pystr list" where
  "questions conv = [q. (s, q) \<leftarrow> conv, s = User]"

definition exchanges :: "pystr list \<Rightarrow> pystr list \<Rightarrow> turn list" where
  "exchanges qs as = concat (map2 (\<lambda>q a. [(User, q), (Assistant, a)]) qs as)"

text \<open>A sequence of typed questions, each non-empty and different from the value the
  field holds before it.\<close>

fun fresh_questions :: "pystr \<Rightarrow> pystr list \<Rightarrow> bool" where
  "fresh_questions v [] = True"
| "fresh_questions v (q # qs) = (q \<noteq> v \<and> q \<noteq> [] \<and> fresh_questions q qs)"

text \<open>The session's contract for one typed question: its reply segment is the question
  followed by an answer, which is the canned answer when the question's normal form is a
  key of \<^verbatim>\<open>hardcoded_qa\<close>, or, for any other question, a lone error reply.\<close>

fun reply_segment :: "pystr \<Rightarrow> turn list \<Rightarrow> bool" where
  "reply_segment q [(User, q'), (Assistant, a)] =
     (q' = q \<and> (case hardcoded_qa (normalize_input q) of None \<Rightarrow> True | Some a' \<Rightarrow> a = a'))"
| "reply_segment q [(Assistant, a)] = (hardcoded_qa (normalize_input q) = None \<and> is_error_message a)"
| "reply_segment q _ = False"

text \<open>With an agent that may raise a \<^verbatim>\<open>BaseException\<close>, a run on a question that is
  not canned may also end with the exception and leave the transcript as it was.\<close>

definition run_reply :: "pystr \<Rightarrow> turn list \<Rightarrow> bool" where
  "run_reply q seg \<longleftrightarrow> reply_segment q seg \<or> seg = [] \<and> hardcoded_qa (normalize_input q) = None"

subsection \<open>Helper lemmas\<close>

lemma run_actions_Nil [simp]: "run_actions dotfile invoke w [] = w"
  by (simp add: run_actions_def)

lemma run_actions_Cons [simp]:
  "run_actions dotfile invoke w (a # acts) = run_actions dotfile invoke (act dotfile invoke w a) acts"
  by (simp add: run_actions_def)

lemma run_actions_snoc:
  "run_actions dotfile invoke w (acts @ [a]) = act dotfile invoke (run_actions dotfile invoke w acts) a"
  by (simp add: run_actions_def)

lemma act_ui_step: "act dotfile invoke w a = w \<or> ui_step dotfile invoke w (act dotfile invoke w a)"
proof (cases a)
  case (Type v)
  show ?thesis
  proof (cases "v = widget_user_input (w_session w)")
    case False
    with Type show ?thesis
      by (auto intro: ui_step.submit simp: prod_eq_iff)
  qed (use Type in simp)
next
  case RerunCommand
  then show ?thesis by (auto intro: ui_step.rerun simp: prod_eq_iff)
next
  case (AgentChange st)
  then show ?thesis by (auto intro: ui_step.external)
qed

lemma ui_step_act:
  assumes "ui_step dotfile invoke w w'"
  shows "\<exists>a. w' = act dotfile invoke w a"
  using assms
proof (cases rule: ui_step.cases)
  case (submit v page x)
  then show ?thesis by (intro exI [of _ "Type v"]) simp
next
  case (rerun page x)
  then show ?thesis by (intro exI [of _ RerunCommand]) simp
next
  case (external st')
  then show ?thesis by (intro exI [of _ "AgentChange st'"]) simp
qed

lemma reachable_run_actions:
  "reachable dotfile invoke env_init st_init w \<Longrightarrow>
   reachable dotfile invoke env_init st_init (run_actions dotfile invoke w acts)"
proof (induction acts arbitrary: w)
  case (Cons a acts)
  from act_ui_step [of dotfile invoke w a] Cons.prems
  have "reachable dotfile invoke env_init st_init (act dotfile invoke w a)"
    by (auto intro: reachable.step)
  with Cons.IH show ?case by simp
qed simp

lemma reachable_run_actions_init:
  "reachable dotfile invoke env_init st_init w \<Longrightarrow>
   \<exists>acts. w = run_actions dotfile invoke (init_world env_init st_init) acts"
proof (induction rule: reachable.induct)
  case init
  show ?case by (intro exI [of _ "[]"]) simp
next
  case (step w w')
  then obtain acts where "w = run_actions dotfile invoke (init_world env_init st_init) acts"
    by blast
  moreover obtain a where "w' = act dotfile invoke w a"
    using ui_step_act [OF step.hyps(2)] by blast
  ultimately show ?case by (intro exI [of _ "acts @ [a]"]) (simp add: run_actions_snoc)
qed

lemma exchanges_Cons [simp]:
  "exchanges (q # qs) (a # as) = (User, q) # (Assistant, a) # exchanges qs as"
  by (simp add: exchanges_def)

lemma exchanges_Nil [simp]: "exchanges [] as = []"
  by (simp add: exchanges_def)

lemma run_script_reliable:
  assumes "py_truthy_opt (load_dotenv dotfile (w_environ w) OPENAI_API_KEY)"
    and "agent_reliable invoke" and "widget_user_input (w_session w) \<noteq> []"
  shows "\<exists>a. conv_of (fst (run_script dotfile invoke w)) =
      conv_of w @ [(User, widget_user_input (w_session w)), (Assistant, a)] \<and>
    widget_user_input (w_session (fst (run_script dotfile invoke w))) = widget_user_input (w_session w) \<and>
    w_environ (fst (run_script dotfile invoke w)) = load_dotenv dotfile (w_environ w)"
proof -
  obtain w' page x where r: "run_script dotfile invoke w = (w', page, x)"
    by (metis prod_cases3)
  obtain st' a where h: "handle_input invoke (w_agent w) (conv_of w) (widget_user_input (w_session w)) =
      (st', Inr (conv_of w @ [(User, widget_user_input (w_session w)), (Assistant, a)]))"
    using handle_input_reliable [OF assms(2,3)] by blast
  from r show ?thesis
  proof (cases rule: run_script_cases)
    case (crashed e)
    with assms(1) show ?thesis by (simp add: startup_snd)
  next
    case (escaped st'' e)
    with h show ?thesis by simp
  next
    case (completed st'' conv)
    with h r show ?thesis by (auto simp: conv_of_def init_conversation_def)
  qed
qed

lemma run_actions_typed:
  assumes "py_truthy_opt (load_dotenv dotfile (w_environ w) OPENAI_API_KEY)"
    and "agent_reliable invoke"
    and "fresh_questions (widget_user_input (w_session w)) qs"
  shows "\<exists>as. length as = length qs \<and>
    conv_of (run_actions dotfile invoke w (map Type qs)) = conv_of w @ exchanges qs as"
  using assms(1,3)
proof (induction qs arbitrary: w)
  case Nil
  show ?case by simp
next
  case (Cons q qs)
  let ?wq = "w\<lparr>w_session := (w_session w)\<lparr>widget_user_input := q\<rparr>\<rparr>"
  from Cons.prems have key: "py_truthy_opt (load_dotenv dotfile (w_environ ?wq) OPENAI_API_KEY)"
    and q: "widget_user_input (w_session ?wq) \<noteq> []" and new: "q \<noteq> widget_user_input (w_session w)"
    by simp_all
  obtain a where a: "conv_of (fst (run_script dotfile invoke ?wq)) = conv_of w @ [(User, q), (Assistant, a)]"
    and v: "widget_user_input (w_session (fst (run_script dotfile invoke ?wq))) = q"
    and e: "w_environ (fst (run_script dotfile invoke ?wq)) = load_dotenv dotfile (w_environ w)"
    using run_script_reliable [OF key assms(2) q] by auto
  let ?w1 = "fst (run_script dotfile invoke ?wq)"
  from Cons.prems e v have "py_truthy_opt (load_dotenv dotfile (w_environ ?w1) OPENAI_API_KEY)"
    and "fresh_questions (widget_user_input (w_session ?w1)) qs"
    by simp_all
  then obtain as where "length as = length qs"
    and "conv_of (run_actions dotfile invoke ?w1 (map Type qs)) = conv_of ?w1 @ exchanges qs as"
    using Cons.IH by blast
  with a new show ?case by (intro exI [of _ "a # as"]) simp
qed

lemma questions_append [simp]: "questions (xs @ ys) = questions xs @ questions ys"
  by (simp add: questions_def)

lemma questions_exchanges: "length as = length qs \<Longrightarrow> questions (exchanges qs as) = qs"
  by (induction as qs rule: list_induct2) (simp_all add: questions_def)

lemma run_script_reply:
  assumes "py_truthy_opt (load_dotenv dotfile (w_environ w) OPENAI_API_KEY)"
    and "widget_user_input (w_session w) \<noteq> []"
  shows "\<exists>seg. run_reply (widget_user_input (w_session w)) seg \<and>
      (agent_raises_only_exceptions invoke \<longrightarrow> seg \<noteq> []) \<and>
      conv_of (fst (run_script dotfile invoke w)) = conv_of w @ seg \<and>
    widget_user_input (w_session (fst (run_script dotfile invoke w))) = widget_user_input (w_session w) \<and>
    w_environ (fst (run_script dotfile invoke w)) = load_dotenv dotfile (w_environ w)"
proof -
  let ?q = "widget_user_input (w_session w)"
  obtain w' page x where r: "run_script dotfile invoke w = (w', page, x)"
    by (metis prod_cases3)
  from r show ?thesis
  proof (cases rule: run_script_cases)
    case (crashed e)
    with assms(1) show ?thesis by (simp add: startup_snd)
  next
    case (escaped st' e)
    from escaped(2) obtain e' where la: "lookup_answer invoke (w_agent w) (normalize_input ?q) (build_query ?q) = (st', Inl e')"
      by (cases rule: handle_input_cases) auto
    then have "hardcoded_qa (normalize_input ?q) = None"
      by (cases "hardcoded_qa (normalize_input ?q)") (simp_all add: lookup_answer_canned)
    moreover from escaped(2) la have "\<not> agent_raises_only_exceptions invoke"
      by (cases rule: handle_input_cases) (auto dest: lookup_answer_exception)
    moreover from escaped(3) have "conv_of w' = conv_of w" "w_session w' = (w_session w)\<lparr>conversation := Some (conv_of w)\<rparr>"
      "w_environ w' = load_dotenv dotfile (w_environ w)"
      by (simp_all add: conv_of_def init_conversation_def)
    ultimately show ?thesis using r by (intro exI [of _ "[]"]) (simp add: run_reply_def)
  next
    case (completed st' conv)
    from completed(3) have w': "conv_of w' = conv" "w_session w' = (w_session w)\<lparr>conversation := Some conv\<rparr>"
      "w_environ w' = load_dotenv dotfile (w_environ w)"
      by (simp_all add: conv_of_def init_conversation_def)
    have "\<exists>seg. reply_segment ?q seg \<and> conv = conv_of w @ seg"
      using completed(2)
    proof (cases rule: handle_input_cases)
      case (answered a)
      then have "case hardcoded_qa (normalize_input ?q) of None \<Rightarrow> True | Some a' \<Rightarrow> a = a'"
        by (auto simp: lookup_answer_canned split: option.split)
      with answered show ?thesis by (intro exI [of _ "[(User, ?q), (Assistant, a)]"]) simp
    next
      case (failed e)
      then have "hardcoded_qa (normalize_input ?q) = None"
        by (cases "hardcoded_qa (normalize_input ?q)") (simp_all add: lookup_answer_canned)
      with failed show ?thesis by (intro exI [of _ "[(Assistant, error_text e)]"]) simp
    qed (use assms(2) in simp_all)
    then obtain seg where "reply_segment ?q seg" "conv = conv_of w @ seg" by blast
    moreover from \<open>reply_segment ?q seg\<close> have "seg \<noteq> []" by auto
    ultimately show ?thesis using r w' by (intro exI [of _ seg]) (simp add: run_reply_def)
  qed
qed

subsection \<open>Properties of action sequences\<close>

text \<open>C30: typed questions are answered in order.  With a configured key and an agent
  that always answers, typing the questions \<open>q\<^sub>1, ..., q\<^sub>n\<close> (each non-empty and
  different from the previous value of the field) appends exactly
  \<open>(User, q\<^sub>1), (Assistant, a\<^sub>1), ..., (User, q\<^sub>n), (Assistant, a\<^sub>n)\<close> to the
  transcript: no question is lost, repeated or reordered.\<close>

theorem typed_questions_in_order:
  assumes "py_truthy_opt (load_dotenv dotfile (w_environ w) OPENAI_API_KEY)"
    and "agent_reliable invoke"
    and "fresh_questions (widget_user_input (w_session w)) qs"
  shows "\<exists>as. length as = length qs \<and>
    conv_of (run_actions dotfile invoke w (map Type qs)) = conv_of w @ exchanges qs as \<and>
    questions (conv_of (run_actions dotfile invoke w (map Type qs))) = questions (conv_of w) @ qs"
  using run_actions_typed [OF assms] questions_exchanges by (metis questions_append)

text \<open>C31: the session honours its contract for every agent.  With a configured key,
  typing the questions \<open>q\<^sub>1, ..., q\<^sub>n\<close> appends one segment per question, in order:
  the question and its answer (the canned answer exactly, for a question whose normal form
  is a key), or, for a question that is not canned, a lone \<^verbatim>\<open>Error:\<close> reply, or
  nothing when a \<^verbatim>\<open>BaseException\<close> of the agent ended the run.  When the agent's
  failures are all \<^verbatim>\<open>Exception\<close>s no segment is empty: every question gets a reply.\<close>

theorem typed_questions_contract:
  assumes "py_truthy_opt (load_dotenv dotfile (w_environ w) OPENAI_API_KEY)"
    and "fresh_questions (widget_user_input (w_session w)) qs"
  shows "\<exists>segs. list_all2 run_reply qs segs \<and>
    (agent_raises_only_exceptions invoke \<longrightarrow> list_all (\<lambda>seg. seg \<noteq> []) segs) \<and>
    conv_of (run_actions dotfile invoke w (map Type qs)) = conv_of w @ concat segs"
  using assms
proof (induction qs arbitrary: w)
  case Nil
  show ?case by simp
next
  case (Cons q qs)
  let ?wq = "w\<lparr>w_session := (w_session w)\<lparr>widget_user_input := q\<rparr>\<rparr>"
  from Cons.prems have key: "py_truthy_opt (load_dotenv dotfile (w_environ ?wq) OPENAI_API_KEY)"
    and q: "widget_user_input (w_session ?wq) \<noteq> []" and new: "q \<noteq> widget_user_input (w_session w)"
    by simp_all
  obtain seg where seg: "run_reply q seg" and ne: "agent_raises_only_exceptions invoke \<longrightarrow> seg \<noteq> []"
    and c: "conv_of (fst (run_script dotfile invoke ?wq)) = conv_of w @ seg"
    and v: "widget_user_input (w_session (fst (run_script dotfile invoke ?wq))) = q"
    and e: "w_environ (fst (run_script dotfile invoke ?wq)) = load_dotenv dotfile (w_environ w)"
    using run_script_reply [OF key q, of invoke] by auto
  let ?w1 = "fst (run_script dotfile invoke ?wq)"
  from Cons.prems e v have "py_truthy_opt (load_dotenv dotfile (w_environ ?w1) OPENAI_API_KEY)"
    and "fresh_questions (widget_user_input (w_session ?w1)) qs"
    by simp_all
  then obtain segs where "list_all2 run_reply qs segs"
    and "agent_raises_only_exceptions invoke \<longrightarrow> list_all (\<lambda>seg. seg \<noteq> []) segs"
    and "conv_of (run_actions dotfile invoke ?w1 (map Type qs)) = conv_of ?w1 @ concat segs"
    using Cons.IH by blast
  with seg ne c new show ?case by (intro exI [of _ "seg # segs"]) simp
qed

subsection \<open>Witnesses\<close>

theorem typed_questions_in_order_witness:
  "py_truthy_opt (load_dotenv Map.empty (w_environ (init_world [OPENAI_API_KEY \<mapsto> py ''k''] (0::nat)))
     OPENAI_API_KEY) \<and>
   agent_reliable (\<lambda>(n::nat) d. (n + 1, Returns [OUTPUT \<mapsto> py ''ok''])) \<and>
   fresh_questions (widget_user_input (w_session (init_world [OPENAI_API_KEY \<mapsto> py ''k''] (0::nat))))
     [py ''Rain today?'', key_recommendation] \<and>
   (\<exists>as :: pystr list. length as = 2 \<and>
     questions (conv_of (run_actions Map.empty (\<lambda>(n::nat) d. (n + 1, Returns [OUTPUT \<mapsto> py ''ok'']))
       (init_world [OPENAI_API_KEY \<mapsto> py ''k''] 0) (map Type [py ''Rain today?'', key_recommendation]))) =
     [py ''Rain today?'', key_recommendation])"
proof -
  let ?inv = "\<lambda>(n::nat) d. (n + 1, Returns [OUTPUT \<mapsto> py ''ok''])"
  let ?w = "init_world [OPENAI_API_KEY \<mapsto> py ''k''] (0::nat)"
  let ?qs = "[py ''Rain today?'', key_recommendation]"
  have h1: "py_truthy_opt (load_dotenv Map.empty (w_environ ?w) OPENAI_API_KEY)"
    by (simp add: init_world_def load_dotenv_def)
  have h2: "agent_reliable ?inv"
    by (simp add: agent_reliable_def)
  have h3: "fresh_questions (widget_user_input (w_session ?w)) ?qs"
    by (simp add: init_world_def key_recommendation_def)
  have c: "questions (conv_of ?w) = []"
    by (simp add: init_world_def conv_of_def init_conversation_def questions_def)
  obtain as :: "pystr list" where l: "length as = length ?qs"
    and q: "questions (conv_of (run_actions Map.empty ?inv ?w (map Type ?qs))) = questions (conv_of ?w) @ ?qs"
    using typed_questions_in_order [where dotfile = Map.empty and invoke = ?inv and w = ?w and qs = ?qs,
      OF h1 h2 h3] by blast
  from l have "length as = 2" by simp
  with q [unfolded c append_Nil] h1 h2 h3 show ?thesis by blast
qed

theorem typed_questions_contract_witness:
  "py_truthy_opt (load_dotenv Map.empty (w_environ (init_world [OPENAI_API_KEY \<mapsto> py ''k''] (0::nat)))
     OPENAI_API_KEY) \<and>
   fresh_questions (widget_user_input (w_session (init_world [OPENAI_API_KEY \<mapsto> py ''k''] (0::nat))))
     [py ''Rain today?'', key_recommendation] \<and>
   (\<exists>segs. list_all2 run_reply [py ''Rain today?'', key_recommendation] segs \<and>
     (agent_raises_only_exceptions (\<lambda>(n::nat) d. (n + 1, Raises (BaseOnlyError (py ''SystemExit'')))) \<longrightarrow>
        list_all (\<lambda>seg. seg \<noteq> []) segs) \<and>
     conv_of (run_actions Map.empty (\<lambda>(n::nat) d. (n + 1, Raises (BaseOnlyError (py ''SystemExit''))))
       (init_world [OPENAI_API_KEY \<mapsto> py ''k''] 0) (map Type [py ''Rain today?'', key_recommendation])) =
     concat segs)"
proof -
  let ?inv = "\<lambda>(n::nat) d. (n + 1, Raises (BaseOnlyError (py ''SystemExit'')))"
  let ?w = "init_world [OPENAI_API_KEY \<mapsto> py ''k''] (0::nat)"
  let ?qs = "[py ''Rain today?'', key_recommendation]"
  have h1: "py_truthy_opt (load_dotenv Map.empty (w_environ ?w) OPENAI_API_KEY)"
    by (simp add: init_world_def load_dotenv_def)
  have h2: "fresh_questions (widget_user_input (w_session ?w)) ?qs"
    by (simp add: init_world_def key_recommendation_def)
  have c: "conv_of ?w = []"
    by (simp add: init_world_def conv_of_def init_conversation_def)
  obtain segs where l: "list_all2 run_reply ?qs segs"
    and n: "agent_raises_only_exceptions ?inv \<longrightarrow> list_all (\<lambda>seg. seg \<noteq> []) segs"
    and q: "conv_of (run_actions Map.empty ?inv ?w (map Type ?qs)) = conv_of ?w @ concat segs"
    using typed_questions_contract [where dotfile = Map.empty and invoke = ?inv and w = ?w and qs = ?qs,
      OF h1 h2] by blast
  with q [unfolded c append_Nil] h1 h2 show ?thesis by blast
qed

end
