(* ===== verification/Setup.thy ===== *)
theory Setup
  imports Config
begin

text \<open>
  Lines 22--30 of \<^verbatim>\<open>src/flood.py\<close>: on every run the script builds the SQLite engine
  for \<^verbatim>\<open>flood.db\<close> (the URL is the f-string \<^verbatim>\<open>f"sqlite:///{db_path}"\<close>), wraps
  it in a LangChain \<^verbatim>\<open>SQLDatabase\<close>, creates the chat model \<^verbatim>\<open>gpt-4\<close> at
  temperature 0 (which reads its key from \<^verbatim>\<open>os.environ["OPENAI_API_KEY"]\<close>) and the SQL
  agent of type \<^verbatim>\<open>"openai-tools"\<close> over both.  The libraries are not modelled; what
  the script decides is, and \<open>agent_setup\<close> collects it in a record \<open>agent_config\<close>.
  \<open>run_config\<close> is the module top, lines 15--30: start-up, then the construction,
  which is never reached when start-up raises.  The lemmas show that the URL names the
  database file and gives it back, and that the key handed to the model is the non-empty
  key start-up checked.
\<close>

definition db_path :: pystr where
  "db_path = py ''flood.db''"

definition engine_url :: "pystr \<Rightarrow> pystr" where
  "engine_url path = py ''sqlite:///'' @ path"

record agent_config =
  cfg_db_url :: pystr
  cfg_model :: pystr
  cfg_temperature :: int
  cfg_agent_type :: pystr
  cfg_verbose :: bool
  cfg_api_key :: "pystr option"

definition agent_setup :: "environ \<Rightarrow> agent_config" where
  "agent_setup environ =
     \<lparr>cfg_db_url = engine_url db_path,
      cfg_model = py ''gpt-4'',
      cfg_temperature = 0,
      cfg_agent_type = py ''openai-tools'',
      cfg_verbose = True,
      cfg_api_key = environ OPENAI_API_KEY\<rparr>"

definition run_config :: "environ \<Rightarrow> environ \<Rightarrow> agent_config option" where
  "run_config dotfile os_environ =
     (case startup dotfile os_environ of
        (environ, Some e) \<Rightarrow> None
      | (environ, None) \<Rightarrow> Some (agent_setup environ))"

subsection \<open>Lemmas\<close>

lemma engine_url_prefix: "drop 10 (engine_url path) = path"
  by (simp add: engine_url_def)

lemma run_config_eq:
  "run_config dotfile os_environ =
     (if py_truthy_opt (load_dotenv dotfile os_environ OPENAI_API_KEY)
      then Some (agent_setup (load_dotenv dotfile os_environ)) else None)"
proof -
  have "startup dotfile os_environ = (fst (startup dotfile os_environ), snd (startup dotfile os_environ))"
    by simp
  then show ?thesis
    by (simp add: run_config_def startup_env startup_snd split: prod.split)
qed

lemma run_config_load: "run_config dotfile (load_dotenv dotfile env) = run_config dotfile env"
  by (simp add: run_config_eq)

lemma run_config_key:
  assumes "run_config dotfile os_environ = Some cfg"
  shows "cfg_api_key cfg = load_dotenv dotfile os_environ OPENAI_API_KEY \<and>
    py_truthy_opt (cfg_api_key cfg)"
  using assms by (auto simp: run_config_eq agent_setup_def split: if_splits)

lemma agent_setup_db_url: "cfg_db_url (agent_setup environ) = py ''sqlite:///flood.db''"
  by (simp add: agent_setup_def engine_url_def db_path_def)

end
