(* ===== verification/Spec2Isabelle.thy ===== *)
theory Spec2Isabelle
  imports Concurrent Actions Setup
begin

text \<open>
  \<^bold>\<open>A verification model of the Flood Digital Assistant (\<^verbatim>\<open>src/flood.py\<close>).\<close>

  \<^bold>\<open>The program.\<close>  One Streamlit script.  On every run it loads the API key
  (lines 15--20), opens the SQLite database and builds a LangChain SQL agent over it
  (lines 22--30), defines the data dictionary (lines 33--99) and the dictionary
  \<^verbatim>\<open>hardcoded_qa\<close> of three canned answers (lines 101--127), draws the page header
  and the input field (lines 129--138), handles the text of the field (lines 140--161:
  a canned answer for one of three questions after \<^verbatim>\<open>lower().strip()\<close>, otherwise
  the agent's answer to the data dictionary followed by the question, an
  \<^verbatim>\<open>"Error: ..."\<close> turn when the agent raises), and prints the conversation kept in
  the session state (lines 163--168).

  \<^bold>\<open>Theories and correspondence.\<close>
  \<^item> \<open>Prelude\<close>: Python \<open>str\<close> as a list of code points (\<open>pystr\<close>), literals
    (\<open>py\<close>, \<open>LF\<close>, \<open>py_unlines\<close>), truthiness, shared list lemmas.
  \<^item> \<open>PyStr\<close>: the builtins \<^verbatim>\<open>str.lower\<close> and \<^verbatim>\<open>str.strip\<close>
    (\<open>py_lower\<close>, \<open>py_strip\<close>), lower exact over all of Unicode through
    CPython 3.11's lowercase table (\<open>lower_runs\<close>), with the declarative specification of strip
    (\<open>stripped_form\<close>) and its proof, and CPython's own index loops of
    \<^verbatim>\<open>do_strip\<close> as \<open>while_option\<close> loops (\<open>strip_left_scan\<close>,
    \<open>strip_right_scan\<close>, \<open>cpython_strip\<close>).
  \<^item> \<open>PyExn\<close>: the exceptions the program meets, \<^verbatim>\<open>isinstance(e, Exception)\<close>
    (\<open>is_exception\<close>) and \<^verbatim>\<open>str(e)\<close> (\<open>exn_str\<close>).
  \<^item> \<open>Config\<close>: lines 15--20 as \<open>startup\<close>, with \<^verbatim>\<open>load_dotenv()\<close> as
    \<open>load_dotenv\<close> (python-dotenv's default: the process environment wins).
  \<^item> \<open>Setup\<close>: lines 22--30, the database path and engine URL (\<open>db_path\<close>,
    \<open>engine_url\<close>) and the configuration the script passes to the chat model and the
    SQL agent (record \<open>agent_config\<close>, built by \<open>agent_setup\<close>); \<open>run_config\<close> is
    the module top, lines 15--30.
  \<^item> \<open>Agent\<close>: the agent as an interface \<open>'st agent\<close> over the state of its
    world; \<open>invoke_output\<close> is line 153's call and \<^verbatim>\<open>["output"]\<close> subscript.
  \<^item> \<open>Knowledge\<close>: \<open>data_dictionary\<close>, the three keys and answers and
    \<open>hardcoded_qa\<close>, transcribed literal by literal.
  \<^item> \<open>Resolver\<close>: lines 140--161 as \<open>handle_input\<close> (with \<open>normalize_input\<close>,
    \<open>build_query\<close>, \<open>lookup_answer\<close>, \<open>error_text\<close>), and the contract of the
    specification as the relation \<open>resolves\<close>.
  \<^item> \<open>Session\<close>: one whole run of the script as \<open>run_script\<close> over a world of
    environment, agent state and session state (\<open>session\<close>: the conversation and
    the value of the input widget), the page it draws (\<open>page_header\<close>,
    \<open>render_turn\<close>) and what the browser shows, Streamlit's exception box included
    (\<open>browser_page\<close>), and Streamlit's reruns as the step relation \<open>ui_step\<close> with
    its reachable states.
  \<^item> \<open>Server\<close>: several sessions in one process (\<open>server\<close>: shared environment and
    agent, a map from session ids to session states) with the step relation
    \<open>server_step\<close>; each run of a session is one \<open>run_script\<close>.
  \<^item> \<open>Concurrent\<close>: a run split at its agent call into \<open>run_prefix\<close> (start-up
    and lines 133--135) and \<open>run_suffix\<close> (lines 140--168), and the server whose sessions'
    runs interleave there (\<open>cserver_step\<close>), as Streamlit's one thread per run does,
    and where a new field value supersedes a run that has not reached the handler.
  \<^item> \<open>Actions\<close>: a session driven by an explicit list of user actions (typing,
    rerunning, outside changes of the agent's world), the executable \<open>run_actions\<close>.
  \<^item> this theory: properties that span start-up, handler and session.

  \<^bold>\<open>What is proved.\<close>
  \<^item> The handler on each branch: canned answer without calling the agent (C1),
    delegation with the unnormalised question (C2), an agent \<^verbatim>\<open>Exception\<close> turned
    into one error turn (C3), the missing \<^verbatim>\<open>"output"\<close> key (C11), a
    \<^verbatim>\<open>BaseException\<close> that escapes (C12), the empty field (C19); no
    \<^verbatim>\<open>Exception\<close> escapes (C4); refinement of the specification's contract (C5).
  \<^item> Normalisation: case and margin insensitivity (C6), agreement with the declarative
    specification of \<^verbatim>\<open>strip\<close> (C16); the keys of
    \<^verbatim>\<open>hardcoded_qa\<close> are distinct and normal (C7); the questions that get a canned
    answer are exactly the keys up to \<^verbatim>\<open>lower()\<close> and whitespace margins, and
    none containing the long s U+017F does (C29).
  \<^item> Data: bounded append-only growth of the conversation (C18, C20).
  \<^item> Sessions, by rule induction on one strengthened invariant: the shape of the
    conversation (C8) and canned answers that never drift (C25); the input field that is
    never cleared and the resubmission on rerun (C9, C10); what the browser shows after a
    run, the exception box of an uncaught exception included (C21).
  \<^item> Start-up (C13--C15, C22); every run of every session builds the same engine and
    agent configuration, with the checked non-empty key (C17).
  \<^item> Several sessions: the invariants hold in every session of a server (C26) and,
    with runs interleaved at their agent calls, in every session mid-run included (C28).
  \<^item> Across components: a session with a valid key never ends a run with an exception
    when its agent raises only \<^verbatim>\<open>Exception\<close>s (C23), and a canned question gives
    the same page whatever the agent does (C24).
  \<^item> Liveness: in every reachable state with a configured key, a new non-empty question
    is a step that appends a reply to it, an answer or an error turn (C27).
  \<^item> Action sequences: typed questions are answered in order, none lost or repeated,
    when the agent always answers (C30); for every agent, each typed question gets one
    segment of the contract \<open>run_reply\<close>, in order, and none is empty when the agent's
    failures are all \<^verbatim>\<open>Exception\<close>s (C31).
  Each theorem with a hypothesis has a witness at a concrete input; the witness of C28
  runs two sessions whose runs interleave and finish in the opposite order.

  \<^bold>\<open>Findings.\<close>  The input field is never cleared, although the comment of line
  160 says so, and a rerun submits the question again (C9, C10).  An agent failure
  records the error but not the question (C3).  \<^verbatim>\<open>except Exception\<close> lets a
  \<^verbatim>\<open>BaseException\<close> out of the handler (C12).  An empty key in the process
  environment hides a valid key in \<^verbatim>\<open>.env\<close> (C15).  A result without
  \<^verbatim>\<open>"output"\<close> shows \<^verbatim>\<open>Error: 'output'\<close> (C11).  The question is
  lowered, not case-folded as the specification says, so a question with the long s
  U+017F that case-folds to a key goes to the agent (C29).  A question
  replaced by a new value before its run reaches the handler is never answered
  (\<open>supersede\<close> of theory \<open>Concurrent\<close>).

  \<^bold>\<open>Bounds and fuel.\<close>  The script's only loop is the display loop over the
  conversation, which is \<open>map\<close>.  The two scans of \<^verbatim>\<open>str.strip\<close> are
  \<open>while_option\<close> loops, which halt on every string and compute \<open>py_strip\<close>
  (\<open>cpython_strip_eq\<close> of theory \<open>PyStr\<close>, proved from their closed forms by
  induction on the distance to the end of the scan); no fuel is used.  Python
  integers and code points are unbounded (\<open>nat\<close>); \<open>valid_pystr\<close> bounds code
  points by U+10FFFF where needed.

  \<^bold>\<open>Not modelled.\<close>  The database engine, \<^verbatim>\<open>SQLDatabase\<close>, the chat model
  and the SQL agent are library objects: the model keeps what the script decides about
  them (path, URL, model, temperature, agent type, key; theory \<open>Setup\<close>), and the agent
  they make is a parameter, every theorem holds for every agent, and an agent call is one
  atomic step.  Exceptions raised while building them are not modelled: SQLite creates a
  missing file, and the constructors do not contact the service.  Streamlit's rendering
  of markdown is not modelled.  Its interruption of a running script by a newer request of
  the same session is modelled at the two points where it changes state: before the
  handler (\<open>supersede\<close> of theory \<open>Concurrent\<close>) and after it; a rerun without a
  new value while a run is in progress waits for the run to end.
  The lowercase table is CPython 3.11's (Unicode 14.0.0); other Python versions ship other
  Unicode versions, whose tables differ in code points no key contains.
\<close>

subsection \<open>Properties across components\<close>

text \<open>C23: in every reachable state of a session whose key is present and non-empty, and
  whose agent raises only \<^verbatim>\<open>Exception\<close>s, a run of the script completes: it ends
  with no exception, so the session keeps accepting questions.\<close>

theorem session_survives_agent_failures:
  assumes "reachable dotfile invoke env_init st_init w"
    and "py_truthy_opt (load_dotenv dotfile env_init OPENAI_API_KEY)"
    and "agent_raises_only_exceptions invoke"
    and "run_script dotfile invoke w = (w', page, x)"
  shows "x = None"
proof -
  from assms(1,2) have ok: "snd (startup dotfile (w_environ w)) = None"
    by (rule reachable_startup_ok)
  from assms(4) show ?thesis
  proof (cases rule: run_script_cases)
    case (crashed e)
    with ok show ?thesis by simp
  next
    case (escaped st' e)
    from escaped(2) show ?thesis
      by (cases rule: handle_input_cases) (use assms(3) in \<open>auto dest: lookup_answer_exception\<close>)
  qed simp
qed

text \<open>C24: on a canonical question the page, the conversation and the outcome of a run
  do not depend on the agent, and the agent's world is left as it was: the agent is not
  called whatever its availability.\<close>

theorem canned_run_independent_of_agent:
  assumes "hardcoded_qa (normalize_input (widget_user_input (w_session w))) = Some a"
    and "run_script dotfile invoke1 w = (w1, p1, x1)"
    and "run_script dotfile invoke2 w = (w2, p2, x2)"
  shows "p1 = p2 \<and> x1 = x2 \<and> conv_of w1 = conv_of w2 \<and> w1 = w2 \<and> w_agent w1 = w_agent w"
proof (cases "snd (startup dotfile (w_environ w))")
  case None
  with assms show ?thesis
    by (auto simp: run_script_started handle_input_hit)
next
  case (Some e)
  from assms(2) Some have "w1 = w\<lparr>w_environ := load_dotenv dotfile (w_environ w)\<rparr> \<and> p1 = [] \<and> x1 = Some e"
    by (simp add: run_script_startup_fails)
  moreover from assms(3) Some have "w2 = w\<lparr>w_environ := load_dotenv dotfile (w_environ w)\<rparr> \<and> p2 = [] \<and> x2 = Some e"
    by (simp add: run_script_startup_fails)
  ultimately show ?thesis by simp
qed

text \<open>C27: every new question gets a reply.  In every reachable state of a session
  whose key is configured, with an agent that raises only \<^verbatim>\<open>Exception\<close>s (it may
  fail on every call), submitting a new non-empty question is a step of the session
  that appends either the question and its answer or a lone \<^verbatim>\<open>Error:\<close> reply:
  the session never hangs on a question or drops it silently.\<close>

theorem submission_gets_reply:
  assumes "reachable dotfile invoke env_init st_init w"
    and "py_truthy_opt (load_dotenv dotfile env_init OPENAI_API_KEY)"
    and "agent_raises_only_exceptions invoke"
    and "v \<noteq> widget_user_input (w_session w)" and "v \<noteq> []"
  shows "\<exists>w' reply. ui_step dotfile invoke w w' \<and>
    (conv_of w' = conv_of w @ [(User, v), (Assistant, reply)] \<or>
     conv_of w' = conv_of w @ [(Assistant, reply)] \<and> is_error_message reply)"
proof -
  let ?wv = "w\<lparr>w_session := (w_session w)\<lparr>widget_user_input := v\<rparr>\<rparr>"
  obtain w' page x where r: "run_script dotfile invoke ?wv = (w', page, x)"
    by (metis prod_cases3)
  from assms(1,2) have ok: "snd (startup dotfile (w_environ ?wv)) = None"
    by (simp add: reachable_startup_ok)
  have step: "ui_step dotfile invoke w w'"
    by (rule ui_step.submit [OF assms(4) r])
  from r show ?thesis
  proof (cases rule: run_script_cases)
    case (crashed e)
    with ok show ?thesis by simp
  next
    case (escaped st' e)
    from escaped(2) have "handle_input invoke (w_agent w) (conv_of w) v = (st', Inl e)"
      by simp
    from this assms(3,5) show ?thesis
      by (cases rule: handle_input_reply) simp_all
  next
    case (completed st' conv)
    from completed(3) have conv: "conv_of w' = conv"
      by (simp add: conv_of_def init_conversation_def)
    from completed(2) have "handle_input invoke (w_agent w) (conv_of w) v = (st', Inr conv)"
      by simp
    from this assms(3,5) show ?thesis
      by (cases rule: handle_input_reply) (use step conv in auto)
  qed
qed

text \<open>C17: every run of every session builds the same engine and agent.  In every
  reachable state of a server the environment is one from which the module top (lines
  15--30) builds the same configuration as on the very first run: the same database URL,
  model, temperature, agent type and key.  When start-up succeeds, that key is the
  non-empty one it checked and the URL is \<^verbatim>\<open>sqlite:///flood.db\<close>.  This is what
  justifies a single agent \<open>invoke\<close> for all runs of the model.\<close>

theorem sessions_share_agent_config:
  assumes "server_reachable dotfile invoke env_init st_init s"
  shows "run_config dotfile (srv_environ s) = run_config dotfile env_init \<and>
    (\<forall>cfg. run_config dotfile env_init = Some cfg \<longrightarrow>
       py_truthy_opt (cfg_api_key cfg) \<and> cfg_db_url cfg = py ''sqlite:///flood.db'')"
proof -
  from assms have "run_config dotfile (srv_environ s) = run_config dotfile env_init"
    by (auto dest: server_reachable_environ simp: run_config_load)
  moreover have "cfg_db_url cfg = py ''sqlite:///flood.db''"
    if "run_config dotfile env_init = Some cfg" for cfg
    using that by (auto simp: run_config_eq agent_setup_db_url split: if_splits)
  ultimately show ?thesis by (blast dest: run_config_key)
qed

subsection \<open>Witnesses\<close>

theorem session_survives_agent_failures_witness:
  "\<exists>w1 w' page.
     reachable Map.empty (\<lambda>(n::nat) d. (n + 1, Raises (OtherError (py ''timeout''))))
       [OPENAI_API_KEY \<mapsto> py ''sk-test''] 0 w1 \<and>
     py_truthy_opt (load_dotenv Map.empty [OPENAI_API_KEY \<mapsto> py ''sk-test''] OPENAI_API_KEY) \<and>
     agent_raises_only_exceptions (\<lambda>(n::nat) d. (n + 1, Raises (OtherError (py ''timeout'')))) \<and>
     widget_user_input (w_session w1) = py ''Rain today?'' \<and>
     run_script Map.empty (\<lambda>(n::nat) d. (n + 1, Raises (OtherError (py ''timeout'')))) w1 = (w', page, None)"
proof -
  let ?inv = "\<lambda>(n::nat) d. (n + 1, Raises (OtherError (py ''timeout'')))"
  let ?e = "[OPENAI_API_KEY \<mapsto> py ''sk-test'']"
  let ?w0 = "init_world ?e (0::nat)"
  let ?ws = "?w0\<lparr>w_session := (w_session ?w0)\<lparr>widget_user_input := py ''Rain today?''\<rparr>\<rparr>"
  obtain w1 p0 x0 where r0: "run_script Map.empty ?inv ?ws = (w1, p0, x0)"
    by (metis prod_cases3)
  have ne: "py ''Rain today?'' \<noteq> widget_user_input (w_session ?w0)"
    by (simp add: init_world_def)
  have reach: "reachable Map.empty ?inv ?e 0 w1"
    by (rule reachable.step [OF reachable.init ui_step.submit [OF ne r0]])
  have key: "py_truthy_opt (load_dotenv Map.empty ?e OPENAI_API_KEY)"
    by (simp add: load_dotenv_def)
  have agent: "agent_raises_only_exceptions ?inv"
    by (simp add: agent_raises_only_exceptions_def)
  have inp: "widget_user_input (w_session w1) = py ''Rain today?''"
    using run_script_keeps_input [OF r0] by simp
  obtain w' page x where r1: "run_script Map.empty ?inv w1 = (w', page, x)"
    by (metis prod_cases3)
  from session_survives_agent_failures [OF reach key agent r1] have "x = None" .
  with reach key agent inp r1 show ?thesis by blast
qed

theorem canned_run_independent_of_agent_witness:
  "\<exists>w1 p1 x1 w2 p2 x2.
     hardcoded_qa (normalize_input key_recommendation) = Some answer_recommendation \<and>
     run_script Map.empty (\<lambda>(n::nat) d. (n + 1, Raises (OtherError (py ''timeout''))))
       \<lparr>w_environ = [OPENAI_API_KEY \<mapsto> py ''sk-test''], w_agent = 0,
        w_session = \<lparr>conversation = None, widget_user_input = key_recommendation\<rparr>\<rparr> = (w1, p1, x1) \<and>
     run_script Map.empty (\<lambda>(n::nat) d. (n + 2, Returns [OUTPUT \<mapsto> py ''other'']))
       \<lparr>w_environ = [OPENAI_API_KEY \<mapsto> py ''sk-test''], w_agent = 0,
        w_session = \<lparr>conversation = None, widget_user_input = key_recommendation\<rparr>\<rparr> = (w2, p2, x2) \<and>
     p1 = p2 \<and> w1 = w2 \<and> w_agent w1 = 0"
proof -
  let ?w = "\<lparr>w_environ = [OPENAI_API_KEY \<mapsto> py ''sk-test''], w_agent = 0::nat,
        w_session = \<lparr>conversation = None, widget_user_input = key_recommendation\<rparr>\<rparr>"
  obtain w1 p1 x1 where r1: "run_script Map.empty (\<lambda>(n::nat) d. (n + 1, Raises (OtherError (py ''timeout'')))) ?w
      = (w1, p1, x1)"
    by (metis prod_cases3)
  obtain w2 p2 x2 where r2: "run_script Map.empty (\<lambda>(n::nat) d. (n + 2, Returns [OUTPUT \<mapsto> py ''other''])) ?w
      = (w2, p2, x2)"
    by (metis prod_cases3)
  have qa: "hardcoded_qa (normalize_input (widget_user_input (w_session ?w))) = Some answer_recommendation"
    by (simp add: resolver_eval)
  from canned_run_independent_of_agent [OF qa r1 r2] qa r1 r2 show ?thesis by auto
qed

theorem submission_gets_reply_witness:
  "reachable Map.empty (\<lambda>(n::nat) d. (n + 1, Raises (OtherError (py ''timeout''))))
     [OPENAI_API_KEY \<mapsto> py ''sk-test''] 0 (init_world [OPENAI_API_KEY \<mapsto> py ''sk-test''] 0) \<and>
   py_truthy_opt (load_dotenv Map.empty [OPENAI_API_KEY \<mapsto> py ''sk-test''] OPENAI_API_KEY) \<and>
   agent_raises_only_exceptions (\<lambda>(n::nat) d. (n + 1, Raises (OtherError (py ''timeout'')))) \<and>
   py ''Rain today?'' \<noteq> widget_user_input (w_session (init_world [OPENAI_API_KEY \<mapsto> py ''sk-test''] (0::nat))) \<and>
   (\<exists>w' reply. ui_step Map.empty (\<lambda>(n::nat) d. (n + 1, Raises (OtherError (py ''timeout''))))
       (init_world [OPENAI_API_KEY \<mapsto> py ''sk-test''] 0) w' \<and>
     (conv_of w' = [(User, py ''Rain today?''), (Assistant, reply)] \<or>
      conv_of w' = [(Assistant, reply)] \<and> is_error_message reply))"
proof -
  let ?inv = "\<lambda>(n::nat) d. (n + 1, Raises (OtherError (py ''timeout'')))"
  let ?e = "[OPENAI_API_KEY \<mapsto> py ''sk-test'']"
  have h1: "reachable Map.empty ?inv ?e 0 (init_world ?e 0)"
    by (rule reachable.init)
  have h2: "py_truthy_opt (load_dotenv Map.empty ?e OPENAI_API_KEY)"
    by (simp add: load_dotenv_def)
  have h3: "agent_raises_only_exceptions ?inv"
    by (simp add: agent_raises_only_exceptions_def)
  have h4: "py ''Rain today?'' \<noteq> widget_user_input (w_session (init_world ?e (0::nat)))"
    by (simp add: init_world_def)
  have h5: "py ''Rain today?'' \<noteq> []" by simp
  have c: "conv_of (init_world ?e (0::nat)) = []"
    by (simp add: conv_of_def init_world_def init_conversation_def)
  note r = submission_gets_reply [where dotfile = Map.empty and invoke = ?inv and env_init = ?e
      and st_init = 0 and w = "init_world ?e 0" and v = "py ''Rain today?''", OF h1 h2 h3 h4 h5]
  then have "\<exists>w' reply. ui_step Map.empty ?inv (init_world ?e 0) w' \<and>
     (conv_of w' = [(User, py ''Rain today?''), (Assistant, reply)] \<or>
      conv_of w' = [(Assistant, reply)] \<and> is_error_message reply)"
    by (simp only: c append_Nil)
  with h1 h2 h3 h4 show ?thesis by blast
qed

theorem sessions_share_agent_config_witness:
  "\<exists>s. server_reachable [OPENAI_API_KEY \<mapsto> py ''sk-dot''] (\<lambda>(n::nat) d. (n, Returns Map.empty)) Map.empty 0 s \<and>
     srv_environ s = [OPENAI_API_KEY \<mapsto> py ''sk-dot''] \<and>
     run_config [OPENAI_API_KEY \<mapsto> py ''sk-dot''] (srv_environ s) = run_config [OPENAI_API_KEY \<mapsto> py ''sk-dot''] Map.empty \<and>
     (\<forall>cfg. run_config [OPENAI_API_KEY \<mapsto> py ''sk-dot''] Map.empty = Some cfg \<longrightarrow>
        py_truthy_opt (cfg_api_key cfg) \<and> cfg_db_url cfg = py ''sqlite:///flood.db'')"
proof -
  let ?d = "[OPENAI_API_KEY \<mapsto> py ''sk-dot'']"
  let ?inv = "\<lambda>(n::nat) d. (n, Returns Map.empty)"
  let ?s0 = "init_server Map.empty (0::nat)"
  let ?s1 = "?s0\<lparr>srv_sessions := (srv_sessions ?s0)(0 \<mapsto> fresh_session)\<rparr>"
  have r1: "server_reachable ?d ?inv Map.empty 0 ?s1"
    by (rule server_reachable.step [OF server_reachable.init server_step.connect])
      (simp add: init_server_def)
  obtain w' page x where run: "run_script ?d ?inv (world_of ?s1 fresh_session) = (w', page, x)"
    by (metis prod_cases3)
  have "server_step ?d ?inv (Rerun 0) ?s1 (store ?s1 0 w')"
    by (rule server_step.rerun [OF _ run]) simp
  with r1 have r2: "server_reachable ?d ?inv Map.empty 0 (store ?s1 0 w')"
    by (rule server_reachable.step)
  from run have e: "srv_environ (store ?s1 0 w') = ?d"
    by (auto simp: store_def world_of_def init_server_def load_dotenv_def dest!: run_script_environ)
  from sessions_share_agent_config [OF r2] r2 e show ?thesis by blast
qed

end
